(* ===== verification/GoPrelude.thy ===== *)
theory GoPrelude
  imports Main "HOL-Library.Word" "HOL-Library.AList" "HOL-Library.Multiset"
    "HOL-Library.Sublist"
begin

text \<open>
  The part of Go and of its standard library that the gateway's code uses, shared by every
  component theory: 64-bit integers, the \<open>strings\<close> and \<open>strconv\<close> functions on byte strings,
  time stamps and durations, and the outcome of a call that may panic or never return.

  Go's \<open>int\<close>, \<open>int64\<close> and \<open>time.Duration\<close> are 64-bit two's complement values. They are modelled
  as \<open>int\<close> with the wrap-around written out (\<open>wrap64\<close>) at the operations that may overflow.
  A Go string is a list of bytes, here a \<open>string\<close> (a list of \<open>char\<close>, each one byte).
  The case mappings and \<open>TrimSpace\<close> are those of ASCII text.
\<close>

named_theorems go_simps \<open>definitions of the Go library model, for evaluation\<close>

section \<open>Machine integers\<close>

definition int_min :: int where "int_min = - (2 ^ 63)"
definition int_max :: int where "int_max = 2 ^ 63 - 1"

definition in_int64 :: "int \<Rightarrow> bool" where
  "in_int64 n \<longleftrightarrow> int_min \<le> n \<and> n \<le> int_max"

definition wrap64 :: "int \<Rightarrow> int" where
  "wrap64 n = (n + 2 ^ 63) mod 2 ^ 64 - 2 ^ 63"

lemma in_int64_bounds: "in_int64 n \<longleftrightarrow> - 9223372036854775808 \<le> n \<and> n \<le> 9223372036854775807"
  by (simp add: in_int64_def int_min_def int_max_def)

lemma wrap64_id [simp]: "in_int64 n \<Longrightarrow> wrap64 n = n"
  by (simp add: in_int64_bounds wrap64_def mod_pos_pos_trivial)

lemma wrap64_in_int64 [simp, intro]: "in_int64 (wrap64 n)"
proof -
  have "0 \<le> (n + 2 ^ 63) mod 2 ^ 64" "(n + 2 ^ 63) mod 2 ^ 64 < (2 ^ 64 :: int)"
    by (rule pos_mod_sign, simp) (rule pos_mod_bound, simp)
  then show ?thesis by (simp add: wrap64_def in_int64_bounds)
qed

lemma wrap64_is_sint: "wrap64 n = sint (word_of_int n :: 64 word)"
  by (simp add: wrap64_def sint_sbintrunc' signed_take_bit_eq_take_bit_shift take_bit_eq_mod)

text \<open>Go's integer division truncates towards zero; the divisor is never zero where it is used.\<close>

definition go_div :: "int \<Rightarrow> int \<Rightarrow> int" where
  "go_div a b = sgn a * sgn b * (\<bar>a\<bar> div \<bar>b\<bar>)"

definition go_mod :: "int \<Rightarrow> int \<Rightarrow> int" where
  "go_mod a b = a - b * go_div a b"

section \<open>Calls that panic or do not return\<close>

text \<open>
  \<open>Return\<close> is a normal return, \<open>Panic\<close> a run-time panic (it unwinds the goroutine, and the
  process when nothing recovers it), \<open>Blocked\<close> a call that waits and is never resumed.
\<close>

datatype 'a outcome = Return 'a | Panic | Blocked

fun bind_outcome :: "'a outcome \<Rightarrow> ('a \<Rightarrow> 'b outcome) \<Rightarrow> 'b outcome" where
  "bind_outcome (Return a) f = f a"
| "bind_outcome Panic f = Panic"
| "bind_outcome Blocked f = Blocked"

lemma bind_outcome_assoc: "bind_outcome (bind_outcome x f) g = bind_outcome x (\<lambda>a. bind_outcome (f a) g)"
  by (cases x) simp_all

lemma bind_outcome_Return: "bind_outcome x f = Return b \<longleftrightarrow> (\<exists>a. x = Return a \<and> f a = Return b)"
  by (cases x) auto

section \<open>Byte strings: the functions of the package strings\<close>

definition hasPrefix :: "string \<Rightarrow> string \<Rightarrow> bool" where
  "hasPrefix s p \<longleftrightarrow> take (length p) s = p"

definition hasSuffix :: "string \<Rightarrow> string \<Rightarrow> bool" where
  "hasSuffix s p \<longleftrightarrow> hasPrefix (rev s) (rev p)"

definition trimPrefix :: "string \<Rightarrow> string \<Rightarrow> string" where
  "trimPrefix s p = (if hasPrefix s p then drop (length p) s else s)"

definition trimSuffix :: "string \<Rightarrow> string \<Rightarrow> string" where
  "trimSuffix s p = (if hasSuffix s p then take (length s - length p) s else s)"

text \<open>\<open>strings.Contains\<close>: the empty string is contained in every string.\<close>

fun strContains :: "string \<Rightarrow> string \<Rightarrow> bool" where
  "strContains [] sub = (sub = [])"
| "strContains (c # cs) sub = (hasPrefix (c # cs) sub \<or> strContains cs sub)"

text \<open>\<open>strings.Replace(s, old, new, 1)\<close>: the leftmost occurrence is replaced.\<close>

fun replaceOnce :: "string \<Rightarrow> string \<Rightarrow> string \<Rightarrow> string" where
  "replaceOnce [] old new = (if old = [] then new else [])"
| "replaceOnce (c # cs) old new =
     (if hasPrefix (c # cs) old then new @ drop (length old) (c # cs)
      else c # replaceOnce cs old new)"

text \<open>\<open>strings.Split(s, sep)\<close> for a separator of one byte: never the empty list.\<close>

fun splitChar :: "char \<Rightarrow> string \<Rightarrow> string list" where
  "splitChar d [] = [[]]"
| "splitChar d (c # cs) =
     (if c = d then [] # splitChar d cs
      else (case splitChar d cs of [] \<Rightarrow> [[c]] | w # ws \<Rightarrow> (c # w) # ws))"

text \<open>\<open>strings.Join(xs, sep)\<close>.\<close>

fun strJoin :: "string \<Rightarrow> string list \<Rightarrow> string" where
  "strJoin sep [] = []"
| "strJoin sep [x] = x"
| "strJoin sep (x # y # ys) = x @ sep @ strJoin sep (y # ys)"

text \<open>\<open>strings.Index(s, sep)\<close> and \<open>strings.LastIndex(s, sep)\<close> for one byte; \<open>None\<close> is -1.\<close>

fun indexChar :: "char \<Rightarrow> string \<Rightarrow> nat option" where
  "indexChar d [] = None"
| "indexChar d (c # cs) = (if c = d then Some 0 else map_option Suc (indexChar d cs))"

fun lastIndexChar :: "char \<Rightarrow> string \<Rightarrow> nat option" where
  "lastIndexChar d [] = None"
| "lastIndexChar d (c # cs) =
     (case lastIndexChar d cs of Some i \<Rightarrow> Some (Suc i)
      | None \<Rightarrow> if c = d then Some 0 else None)"

definition isSpace :: "char \<Rightarrow> bool" where
  "isSpace c \<longleftrightarrow> (of_char c :: nat) \<in> {9, 10, 11, 12, 13, 32}"

definition trimSpace :: "string \<Rightarrow> string" where
  "trimSpace s = rev (dropWhile isSpace (rev (dropWhile isSpace s)))"

definition toLowerChar :: "char \<Rightarrow> char" where
  "toLowerChar c = (let n = (of_char c :: nat) in
     if 65 \<le> n \<and> n \<le> 90 then char_of (n + 32) else c)"

definition toUpperChar :: "char \<Rightarrow> char" where
  "toUpperChar c = (let n = (of_char c :: nat) in
     if 97 \<le> n \<and> n \<le> 122 then char_of (n - 32) else c)"

definition toLower :: "string \<Rightarrow> string" where
  "toLower s = map toLowerChar s"

definition equalFold :: "string \<Rightarrow> string \<Rightarrow> bool" where
  "equalFold s t \<longleftrightarrow> toLower s = toLower t"

lemmas string_defs = hasPrefix_def hasSuffix_def trimPrefix_def trimSuffix_def isSpace_def
  trimSpace_def toLowerChar_def toUpperChar_def toLower_def equalFold_def

declare string_defs [go_simps]

lemma hasPrefix_iff: "hasPrefix s p \<longleftrightarrow> (\<exists>t. s = p @ t)"
  unfolding hasPrefix_def by (metis append_eq_conv_conj append_take_drop_id)

lemma hasSuffix_iff: "hasSuffix s p \<longleftrightarrow> (\<exists>t. s = t @ p)"
  unfolding hasSuffix_def hasPrefix_iff
  by (metis rev_append rev_rev_ident)

lemma hasPrefix_Nil [simp]: "hasPrefix s []"
  by (simp add: hasPrefix_def)

lemma hasPrefix_refl [simp]: "hasPrefix s s"
  by (simp add: hasPrefix_def)

lemma hasPrefix_append [simp]: "hasPrefix (p @ t) p"
  by (simp add: hasPrefix_def)

lemma strContains_iff: "strContains s sub \<longleftrightarrow> (\<exists>a b. s = a @ sub @ b)"
proof (induction s)
  case Nil
  then show ?case by simp
next
  case (Cons c cs)
  show ?case
  proof
    assume "strContains (c # cs) sub"
    then consider t where "c # cs = sub @ t" | "strContains cs sub"
      by (auto simp: hasPrefix_iff)
    then show "\<exists>a b. c # cs = a @ sub @ b"
    proof cases
      case 1
      then show ?thesis by (intro exI [of _ "[]"] exI [of _ t]) simp
    next
      case 2
      with Cons.IH obtain a b where "cs = a @ sub @ b" by blast
      then show ?thesis by (intro exI [of _ "c # a"] exI [of _ b]) simp
    qed
  next
    assume "\<exists>a b. c # cs = a @ sub @ b"
    then obtain a b where ab: "c # cs = a @ sub @ b" by blast
    show "strContains (c # cs) sub"
    proof (cases a)
      case Nil
      with ab have "hasPrefix (c # cs) sub" by simp
      then show ?thesis by simp
    next
      case (Cons x xs)
      with ab have "cs = xs @ sub @ b" by simp
      with Cons.IH show ?thesis by auto
    qed
  qed
qed

lemma strContains_refl [simp]: "strContains s s"
  unfolding strContains_iff by (metis append_Nil append_Nil2)

lemma strContains_Nil [simp]: "strContains s []"
  by (cases s) simp_all

lemma replaceOnce_prefix:
  "hasPrefix s old \<Longrightarrow> replaceOnce s old new = new @ drop (length old) s"
  by (cases s) (auto simp: hasPrefix_def)

lemma splitChar_not_Nil [simp]: "splitChar d s \<noteq> []"
  by (induction s) (auto split: list.splits)

text \<open>The first field of a split is what stands before the first separator.\<close>

lemma hd_splitChar:
  "hd (splitChar d s) = (case indexChar d s of None \<Rightarrow> s | Some i \<Rightarrow> take i s)"
proof (induction s)
  case Nil
  then show ?case by simp
next
  case (Cons c cs)
  obtain w ws where w: "splitChar d cs = w # ws"
    using splitChar_not_Nil by (meson list.exhaust)
  with Cons.IH show ?case by (auto split: option.splits)
qed

lemma strJoin_splitChar: "strJoin [d] (splitChar d s) = s"
proof (induction s)
  case Nil
  then show ?case by simp
next
  case (Cons c cs)
  obtain w ws where w: "splitChar d cs = w # ws"
    using splitChar_not_Nil by (meson list.exhaust)
  with Cons.IH show ?case by (cases ws) auto
qed

lemma indexChar_None: "indexChar d s = None \<longleftrightarrow> d \<notin> set s"
  by (induction s) auto

lemma lastIndexChar_None: "lastIndexChar d s = None \<longleftrightarrow> d \<notin> set s"
  by (induction s) (auto split: option.splits)

lemma lastIndexChar_append:
  "d \<notin> set t \<Longrightarrow> lastIndexChar d (s @ d # t) = Some (length s)"
  by (induction s) (auto simp: lastIndexChar_None [symmetric])

lemma equalFold_refl [simp]: "equalFold s s"
  by (simp add: equalFold_def)

section \<open>Decimal numbers: strconv.Itoa and strconv.Atoi\<close>

definition digitChar :: "nat \<Rightarrow> char" where
  "digitChar d = char_of (48 + d)"

definition digitVal :: "char \<Rightarrow> nat option" where
  "digitVal c = (let n = (of_char c :: nat) in if 48 \<le> n \<and> n \<le> 57 then Some (n - 48) else None)"

fun natDigits :: "nat \<Rightarrow> string" where
  "natDigits n = (if n < 10 then [digitChar n] else natDigits (n div 10) @ [digitChar (n mod 10)])"

declare natDigits.simps [simp del]

definition itoa :: "int \<Rightarrow> string" where
  "itoa n = (if n < 0 then CHR ''-'' # natDigits (nat (- n)) else natDigits (nat n))"

fun digitsVal :: "nat \<Rightarrow> string \<Rightarrow> nat option" where
  "digitsVal acc [] = Some acc"
| "digitsVal acc (c # cs) =
     (case digitVal c of None \<Rightarrow> None | Some d \<Rightarrow> digitsVal (acc * 10 + d) cs)"

text \<open>
  \<open>Atoi\<close> accepts an optional sign and at least one decimal digit; a value outside the
  64-bit range is an error. \<open>None\<close> is the error return.
\<close>

definition atoi :: "string \<Rightarrow> int option" where
  "atoi s =
     (let (neg, ds) = (case s of c # cs \<Rightarrow>
            if c = CHR ''-'' then (True, cs) else if c = CHR ''+'' then (False, cs) else (False, s)
          | [] \<Rightarrow> (False, []))
      in if ds = [] then None
         else (case digitsVal 0 ds of None \<Rightarrow> None
               | Some v \<Rightarrow> let n = (if neg then - int v else int v)
                            in if in_int64 n then Some n else None))"

lemma digitVal_digitChar: "d < 10 \<Longrightarrow> digitVal (digitChar d) = Some d"
  by (simp add: digitVal_def digitChar_def of_char_of)

lemma digitsVal_append:
  "digitsVal acc (xs @ ys) = Option.bind (digitsVal acc xs) (\<lambda>a. digitsVal a ys)"
  by (induction xs arbitrary: acc) (auto split: option.splits)

lemma digitsVal_natDigits: "digitsVal 0 (natDigits n) = Some n"
proof (induction n rule: natDigits.induct)
  case (1 n)
  then show ?case
    by (subst natDigits.simps) (simp add: digitVal_digitChar digitsVal_append)
qed

lemma natDigits_not_Nil [simp]: "natDigits n \<noteq> []"
  by (subst natDigits.simps) simp

lemma natDigits_digits: "c \<in> set (natDigits n) \<Longrightarrow> \<exists>d < 10. c = digitChar d"
proof (induction n rule: natDigits.induct)
  case (1 n)
  show ?case
  proof (cases "n < 10")
    case True
    with "1.prems" show ?thesis by (subst (asm) natDigits.simps) auto
  next
    case False
    with "1.prems" consider "c \<in> set (natDigits (n div 10))" | "c = digitChar (n mod 10)"
      by (subst (asm) natDigits.simps) auto
    then show ?thesis
    proof cases
      case 1
      with "1.IH" False show ?thesis by simp
    next
      case 2
      then show ?thesis by (intro exI [of _ "n mod 10"]) simp
    qed
  qed
qed

lemma digitChar_not_sign: "d < 10 \<Longrightarrow> digitChar d \<noteq> CHR ''-'' \<and> digitChar d \<noteq> CHR ''+''"
proof -
  assume "d < 10"
  then have "(of_char (digitChar d) :: nat) = 48 + d"
    by (simp add: digitChar_def of_char_of)
  then show ?thesis by (auto dest!: arg_cong [where f = "of_char :: char \<Rightarrow> nat"])
qed

lemma natDigits_no_sign:
  obtains c cs where "natDigits n = c # cs" "c \<noteq> CHR ''-''" "c \<noteq> CHR ''+''"
proof -
  obtain c cs where eq: "natDigits n = c # cs"
    using natDigits_not_Nil by (meson list.exhaust)
  then have "c \<in> set (natDigits n)" by simp
  then obtain d where "d < 10" "c = digitChar d" using natDigits_digits by blast
  with eq digitChar_not_sign that show ?thesis by blast
qed

lemma atoi_itoa: "in_int64 n \<Longrightarrow> atoi (itoa n) = Some n"
proof (cases "n < 0")
  case True
  moreover assume "in_int64 n"
  ultimately show ?thesis
    by (simp add: itoa_def atoi_def digitsVal_natDigits)
next
  case False
  moreover assume "in_int64 n"
  moreover obtain c cs where "natDigits (nat n) = c # cs" "c \<noteq> CHR ''-''" "c \<noteq> CHR ''+''"
    by (rule natDigits_no_sign)
  ultimately show ?thesis
    using digitsVal_natDigits [of "nat n"] by (simp add: itoa_def atoi_def)
qed

lemma itoa_inj: "itoa m = itoa n \<Longrightarrow> m = n"
proof -
  assume eq: "itoa m = itoa n"
  have nn: "natDigits a = natDigits b \<Longrightarrow> a = b" for a b
    using digitsVal_natDigits by (metis option.inject)
  have neq: "natDigits a \<noteq> CHR ''-'' # cs" for a cs
    by (rule natDigits_no_sign [of a]) auto
  show ?thesis
    using eq neq neq [symmetric] by (auto simp: itoa_def split: if_splits dest!: nn)
qed

lemma itoa_chars: "c \<in> set (itoa n) \<Longrightarrow> c = CHR ''-'' \<or> (\<exists>d < 10. c = digitChar d)"
  by (auto simp: itoa_def split: if_splits dest: natDigits_digits)

declare itoa_def [go_simps] natDigits.simps [go_simps] digitChar_def [go_simps]
  atoi_def [go_simps] digitVal_def [go_simps] in_int64_bounds [go_simps]

text \<open>Numbers printed one after the other with a separator between them can be read back.\<close>

lemma itoa_no_separator: "digitVal c = None \<Longrightarrow> c \<noteq> CHR ''-'' \<Longrightarrow> c \<notin> set (itoa n)"
  using itoa_chars digitVal_digitChar by fastforce

lemma cut_at_separator:
  "d \<notin> set xs \<Longrightarrow> takeWhile (\<lambda>c. c \<noteq> d) (xs @ d # ys) = xs"
  "d \<notin> set xs \<Longrightarrow> dropWhile (\<lambda>c. c \<noteq> d) (xs @ d # ys) = d # ys"
  by (induction xs) auto

lemma itoa_cut:
  assumes "digitVal c = None" and "c \<noteq> CHR ''-''" and eq: "itoa m @ c # xs = itoa n @ c # ys"
  shows "m = n \<and> xs = ys"
proof -
  note no = itoa_no_separator [OF assms(1,2)]
  have "itoa m = itoa n"
    using arg_cong [OF eq, of "takeWhile (\<lambda>d. d \<noteq> c)"] by (simp only: cut_at_separator(1) [OF no])
  moreover have "c # xs = c # ys"
    using arg_cong [OF eq, of "dropWhile (\<lambda>d. d \<noteq> c)"] by (simp only: cut_at_separator(2) [OF no])
  ultimately show ?thesis using itoa_inj by blast
qed

section \<open>Time stamps and durations\<close>

text \<open>
  A \<open>time.Time\<close> is the number of nanoseconds since the Unix epoch, an unbounded \<open>int\<close>; the
  zero value is the first instant of year 1. A \<open>time.Duration\<close> is a 64-bit count of
  nanoseconds. \<open>t.Add\<close> is exact, \<open>t.Sub\<close> saturates at the bounds of \<open>Duration\<close>.
\<close>

type_synonym time = int
type_synonym duration = int

definition zero_time :: time where "zero_time = - 62135596800 * 10 ^ 9"

definition Second :: duration where "Second = 10 ^ 9"
definition Minute :: duration where "Minute = 60 * 10 ^ 9"

definition time_after :: "time \<Rightarrow> time \<Rightarrow> bool" where
  "time_after t u \<longleftrightarrow> u < t"

definition time_add :: "time \<Rightarrow> duration \<Rightarrow> time" where
  "time_add t d = t + d"

definition time_sub :: "time \<Rightarrow> time \<Rightarrow> duration" where
  "time_sub t u = max int_min (min int_max (t - u))"

lemmas time_defs = time_after_def time_add_def time_sub_def Second_def Minute_def
  zero_time_def int_min_def int_max_def

declare time_defs [go_simps]

section \<open>Object pools\<close>

text \<open>\<open>sync.Pool\<close>: \<open>Get\<close> returns any idle element, the \<open>choice\<close>, or none, also when there are some.\<close>

definition pool_take :: "nat option \<Rightarrow> 'a list \<Rightarrow> 'a option \<times> 'a list" where
  "pool_take choice pool =
     (case choice of
        None \<Rightarrow> (None, pool)
      | Some i \<Rightarrow> if i < length pool then (Some (pool ! i), take i pool @ drop (Suc i) pool) else (None, pool))"

lemma pool_take_Some: "pool_take choice pool = (Some x, pool') \<Longrightarrow> x \<in> set pool"
  by (auto simp: pool_take_def split: option.splits if_splits)

lemma pool_take_set: "set (snd (pool_take choice pool)) \<subseteq> set pool"
  by (auto simp: pool_take_def dest: in_set_takeD in_set_dropD split: option.splits)

end
