(* ===== verification/GoMaps.thy ===== *)
theory GoMaps
  imports GoPrelude
begin

text \<open>
  Go maps and the three map-based containers of \<open>internal/structure\<close>: \<open>Map\<close> (\<open>map_t.go\<close>),
  \<open>MapStruct\<close> (\<open>map_struct.go\<close>) and \<open>Set\<close> (\<open>set.go\<close>). A Go map is an association list with
  distinct keys (\<open>gomap_ok\<close>); its iteration order is unspecified in Go, so every operation that
  ranges over a map takes the order of that iteration, a permutation of the entries
  (\<open>iteration_of\<close>), as an argument, and its lemmas hold for all of them. Each method holds the
  container's lock from its first to its last access, so a method is one atomic operation.
  The locale \<open>kv_store\<close> is what the other components rely on when they keep their state in one of
  these containers.
\<close>

section \<open>Go maps\<close>

type_synonym ('k, 'v) gomap = "('k \<times> 'v) list"

abbreviation gm_get :: "('k, 'v) gomap \<Rightarrow> 'k \<Rightarrow> 'v option" where
  "gm_get m k \<equiv> map_of m k"

abbreviation gm_put :: "'k \<Rightarrow> 'v \<Rightarrow> ('k, 'v) gomap \<Rightarrow> ('k, 'v) gomap" where
  "gm_put k v m \<equiv> AList.update k v m"

abbreviation gm_delete :: "'k \<Rightarrow> ('k, 'v) gomap \<Rightarrow> ('k, 'v) gomap" where
  "gm_delete k m \<equiv> AList.delete k m"

definition gomap_ok :: "('k, 'v) gomap \<Rightarrow> bool" where
  "gomap_ok m \<longleftrightarrow> distinct (map fst m)"

definition iteration_of :: "('k \<times> 'v) list \<Rightarrow> ('k, 'v) gomap \<Rightarrow> bool" where
  "iteration_of ord m \<longleftrightarrow> mset ord = mset m"

named_theorems gomap_ok_intros \<open>operations that keep the keys of a Go map distinct\<close>

lemma gomap_ok_Nil [gomap_ok_intros, simp]: "gomap_ok []"
  by (simp add: gomap_ok_def)

lemma gomap_ok_put [gomap_ok_intros]: "gomap_ok m \<Longrightarrow> gomap_ok (gm_put k v m)"
  by (simp add: gomap_ok_def distinct_update)

lemma gomap_ok_delete [gomap_ok_intros]: "gomap_ok m \<Longrightarrow> gomap_ok (gm_delete k m)"
  by (simp add: gomap_ok_def distinct_delete)

lemma gomap_ok_filter [gomap_ok_intros]: "gomap_ok m \<Longrightarrow> gomap_ok (filter P m)"
  by (simp add: gomap_ok_def distinct_map_filter)

lemma gomap_ok_fold_put [gomap_ok_intros]:
  "gomap_ok m \<Longrightarrow> gomap_ok (fold (\<lambda>(k, v). gm_put k v) xs m)"
  by (induction xs arbitrary: m) (auto simp: gomap_ok_put)

lemma gm_get_put [simp]: "gm_get (gm_put k v m) = (gm_get m)(k \<mapsto> v)"
  by (rule update_conv')

lemma gm_get_delete [simp]: "gm_get (gm_delete k m) = (gm_get m)(k := None)"
  by (rule delete_conv')

lemma gm_get_Some_iff: "gomap_ok m \<Longrightarrow> gm_get m k = Some v \<longleftrightarrow> (k, v) \<in> set m"
  by (simp add: gomap_ok_def)

lemma iteration_set: "iteration_of ord m \<Longrightarrow> set ord = set m"
  unfolding iteration_of_def by (metis set_mset_mset)

lemma iteration_length: "iteration_of ord m \<Longrightarrow> length ord = length m"
  unfolding iteration_of_def by (metis size_mset)

lemma iteration_ok: "iteration_of ord m \<Longrightarrow> gomap_ok ord = gomap_ok m"
  unfolding iteration_of_def gomap_ok_def
  by (metis mset_map mset_eq_imp_distinct_iff)

lemma iteration_get:
  assumes "iteration_of ord m" and "gomap_ok m"
  shows "gm_get ord = gm_get m"
proof
  fix k
  show "gm_get ord k = gm_get m k"
  proof (rule option.expand)
    show "(gm_get ord k = None) = (gm_get m k = None)"
      using iteration_set [OF assms(1)] by (simp add: map_of_eq_None_iff)
  next
    assume "gm_get ord k \<noteq> None" "gm_get m k \<noteq> None"
    then show "the (gm_get ord k) = the (gm_get m k)"
      using assms iteration_set [OF assms(1)] iteration_ok [OF assms(1)]
      by (auto simp: gm_get_Some_iff) (metis gm_get_Some_iff option.inject)
  qed
qed

lemma iteration_self [simp]: "iteration_of m m"
  by (simp add: iteration_of_def)

section \<open>The interface of a key-value store\<close>

locale kv_store =
  fixes empty :: "'m"
    and put :: "'k \<Rightarrow> 'v \<Rightarrow> 'm \<Rightarrow> 'm"
    and get :: "'m \<Rightarrow> 'k \<Rightarrow> 'v option"
    and del :: "'k \<Rightarrow> 'm \<Rightarrow> 'm"
    and size_of :: "'m \<Rightarrow> int"
    and ok :: "'m \<Rightarrow> bool"
  assumes ok_empty: "ok empty"
    and ok_put: "ok m \<Longrightarrow> ok (put k v m)"
    and ok_del: "ok m \<Longrightarrow> ok (del k m)"
    and get_empty: "get empty k = None"
    and get_put: "ok m \<Longrightarrow> get (put k v m) = (get m)(k \<mapsto> v)"
    and get_del: "ok m \<Longrightarrow> get (del k m) = (get m)(k := None)"
    and size_card: "ok m \<Longrightarrow> size_of m = int (card (dom (get m)))"
    and finite_dom: "ok m \<Longrightarrow> finite (dom (get m))"
begin

text \<open>A client that fills a store by putting a list of entries in order: the last entry wins.\<close>

lemma ok_puts: "ok m \<Longrightarrow> ok (fold (\<lambda>(k, v). put k v) xs m)"
  by (induction xs arbitrary: m) (auto simp: ok_put)

lemma get_puts:
  "ok m \<Longrightarrow> get (fold (\<lambda>(k, v). put k v) xs m) = get m ++ map_of (rev xs)"
  by (induction xs arbitrary: m)
    (auto simp: get_put ok_put map_add_def fun_eq_iff split: option.splits)

lemma get_puts_unlisted:
  "ok m \<Longrightarrow> k \<notin> fst ` set xs \<Longrightarrow> get (fold (\<lambda>(k, v). put k v) xs m) k = get m k"
  by (simp add: get_puts map_add_dom_app_simps(3) dom_map_of_conv_image_fst)

text \<open>A lookup that inserts a fresh value on a miss leaves every other key alone.\<close>

lemma get_or_put_other:
  "ok m \<Longrightarrow> k' \<noteq> k \<Longrightarrow> get (case get m k of None \<Rightarrow> put k v m | Some w \<Rightarrow> m) k' = get m k'"
  by (auto simp: get_put split: option.split)

lemma get_or_put_same:
  "ok m \<Longrightarrow> get (case get m k of None \<Rightarrow> put k v m | Some w \<Rightarrow> m) k =
     Some (case get m k of None \<Rightarrow> v | Some w \<Rightarrow> w)"
  by (auto simp: get_put split: option.split)

lemma size_put: "ok m \<Longrightarrow> size_of (put k v m) = (if get m k = None then size_of m + 1 else size_of m)"
proof -
  assume m: "ok m"
  have "dom (get (put k v m)) = insert k (dom (get m))"
    using m by (auto simp: get_put)
  with m show ?thesis
    by (simp add: size_card ok_put finite_dom card_insert_if domIff)
qed

end

section \<open>structure.Map\<close>

text \<open>
  \<open>Map[T]\<close> of \<open>map_t.go\<close>: a map with string keys behind a read-write lock. The capacity hint of
  the constructors does not change what the map holds. \<open>Get\<close> returns the value and whether the
  key is present, \<open>MustGet\<close> the zero value of \<open>T\<close> when it is not.
\<close>

type_synonym 'v StructMap = "(string, 'v) gomap"

definition NewMap :: "int list \<Rightarrow> 'v StructMap" where
  "NewMap hints = []"

definition NewSizeMap :: "int \<Rightarrow> 'v StructMap" where
  "NewSizeMap hint = []"

definition Map_Put :: "string \<Rightarrow> 'v \<Rightarrow> 'v StructMap \<Rightarrow> 'v StructMap" where
  "Map_Put key value m = gm_put key value m"

definition Map_Get :: "'v StructMap \<Rightarrow> string \<Rightarrow> 'v option" where
  "Map_Get m key = gm_get m key"

definition Map_MustGet :: "'v \<Rightarrow> 'v StructMap \<Rightarrow> string \<Rightarrow> 'v" where
  "Map_MustGet zero m key = (case gm_get m key of None \<Rightarrow> zero | Some value \<Rightarrow> value)"

definition Map_Exist :: "'v StructMap \<Rightarrow> string \<Rightarrow> bool" where
  "Map_Exist m key = (gm_get m key \<noteq> None)"

definition Map_Delete :: "string \<Rightarrow> 'v StructMap \<Rightarrow> 'v StructMap" where
  "Map_Delete key m = gm_delete key m"

definition Map_Size :: "'v StructMap \<Rightarrow> int" where
  "Map_Size m = int (length m)"

text \<open>The methods that range over the map; \<open>ord\<close> is the order of the iteration.\<close>

definition Map_Keys :: "(string \<times> 'v) list \<Rightarrow> string list" where
  "Map_Keys ord = map fst ord"

definition Map_Values :: "(string \<times> 'v) list \<Rightarrow> 'v list" where
  "Map_Values ord = map snd ord"

definition Map_Clear :: "'v StructMap \<Rightarrow> 'v StructMap" where
  "Map_Clear m = []"

text \<open>\<open>Range\<close> runs a callback with its own state and stops at the first \<open>false\<close>.\<close>

fun Map_Range :: "(string \<times> 'v) list \<Rightarrow> ('s \<Rightarrow> string \<Rightarrow> 'v \<Rightarrow> 's \<times> bool) \<Rightarrow> 's \<Rightarrow> 's" where
  "Map_Range [] fn s = s"
| "Map_Range ((k, v) # ord) fn s =
     (let (s', continue) = fn s k v in if continue then Map_Range ord fn s' else s')"

fun Map_Find :: "(string \<times> 'v) list \<Rightarrow> (string \<Rightarrow> 'v \<Rightarrow> bool) \<Rightarrow> (string \<times> 'v) option" where
  "Map_Find [] predicate = None"
| "Map_Find ((k, v) # ord) predicate =
     (if predicate k v then Some (k, v) else Map_Find ord predicate)"

text \<open>\<open>FindAll\<close> appends the matching entries to a slice of \<open>KeyValue\<close> pairs.\<close>

record 'v KeyValue =
  Key :: string
  Value :: 'v

fun Map_FindAll_loop ::
  "(string \<times> 'v) list \<Rightarrow> (string \<Rightarrow> 'v \<Rightarrow> bool) \<Rightarrow> 'v KeyValue list \<Rightarrow> 'v KeyValue list" where
  "Map_FindAll_loop [] predicate results = results"
| "Map_FindAll_loop ((k, v) # ord) predicate results =
     (if predicate k v then Map_FindAll_loop ord predicate (results @ [\<lparr>Key = k, Value = v\<rparr>])
      else Map_FindAll_loop ord predicate results)"

definition Map_FindAll ::
  "(string \<times> 'v) list \<Rightarrow> (string \<Rightarrow> 'v \<Rightarrow> bool) \<Rightarrow> 'v KeyValue list" where
  "Map_FindAll ord predicate = Map_FindAll_loop ord predicate []"

lemmas Map_defs = NewMap_def NewSizeMap_def Map_Put_def Map_Get_def Map_MustGet_def Map_Exist_def
  Map_Delete_def Map_Size_def Map_Keys_def Map_Values_def Map_Clear_def

lemma gomap_card: "gomap_ok m \<Longrightarrow> card (dom (gm_get m)) = length m"
  unfolding gomap_ok_def dom_map_of_conv_image_fst
  by (metis distinct_card length_map set_map)

lemma Map_Get_Put: "Map_Get (Map_Put k v m) k' = (if k' = k then Some v else Map_Get m k')"
  by (simp add: Map_Get_def Map_Put_def update_conv')

lemma Map_Get_gm: "Map_Get m = gm_get m"
  by (simp add: Map_Get_def fun_eq_iff)

interpretation struct_map: kv_store "NewMap hints" Map_Put Map_Get Map_Delete Map_Size gomap_ok
  for hints
  by unfold_locales
    (auto simp: Map_Get_gm NewMap_def Map_Put_def Map_Delete_def Map_Size_def gomap_ok_intros
      gomap_card finite_dom_map_of fun_eq_iff)

lemma Map_Find_Some:
  "Map_Find ord p = Some (k, v) \<Longrightarrow> (k, v) \<in> set ord \<and> p k v"
  by (induction ord p rule: Map_Find.induct) (auto split: if_splits)

lemma Map_Find_None: "Map_Find ord p = None \<longleftrightarrow> (\<forall>(k, v) \<in> set ord. \<not> p k v)"
  by (induction ord p rule: Map_Find.induct) auto

lemma Map_FindAll_loop_eq:
  "Map_FindAll_loop ord p rs =
     rs @ map (\<lambda>(k, v). \<lparr>Key = k, Value = v\<rparr>) (filter (\<lambda>(k, v). p k v) ord)"
  by (induction ord p rs rule: Map_FindAll_loop.induct) auto

lemma Map_FindAll_eq:
  "Map_FindAll ord p = map (\<lambda>(k, v). \<lparr>Key = k, Value = v\<rparr>) (filter (\<lambda>(k, v). p k v) ord)"
  by (simp add: Map_FindAll_def Map_FindAll_loop_eq)

text \<open>A callback that never stops the iteration sees every entry once, in the order given.\<close>

lemma Map_Range_all:
  "(\<And>s k v. snd (fn s k v)) \<Longrightarrow> Map_Range ord fn s = fold (\<lambda>(k, v) s. fst (fn s k v)) ord s"
  by (induction ord arbitrary: s) (auto simp: case_prod_beta Let_def)

section \<open>structure.MapStruct\<close>

text \<open>\<open>map_struct.go\<close>: a set of strings as a \<open>map[string]struct{}\<close>.\<close>

type_synonym MapStruct = "(string, unit) gomap"

definition NewMapStruct :: "int \<Rightarrow> MapStruct" where
  "NewMapStruct hint = []"

definition MapStruct_Put :: "string \<Rightarrow> MapStruct \<Rightarrow> MapStruct" where
  "MapStruct_Put key m = gm_put key () m"

definition MapStruct_Get :: "MapStruct \<Rightarrow> string \<Rightarrow> bool" where
  "MapStruct_Get m key = (gm_get m key \<noteq> None)"

definition MapStruct_Exist :: "MapStruct \<Rightarrow> string \<Rightarrow> bool" where
  "MapStruct_Exist m key = MapStruct_Get m key"

definition MapStruct_Delete :: "string \<Rightarrow> MapStruct \<Rightarrow> MapStruct" where
  "MapStruct_Delete key m = gm_delete key m"

section \<open>structure.Set\<close>

text \<open>
  \<open>set.go\<close>: a generic set as a \<open>map[T]struct{}\<close>. \<open>set_of\<close> is the mathematical set it stands
  for. The operations on two sets take the iteration orders of the maps they range over.
\<close>

type_synonym 'a GoSet = "('a, unit) gomap"

definition set_of :: "'a GoSet \<Rightarrow> 'a set" where
  "set_of s = fst ` set s"

definition NewSet :: "'a GoSet" where
  "NewSet = []"

definition Set_Len :: "'a GoSet \<Rightarrow> int" where
  "Set_Len s = int (length s)"

definition Set_Get :: "'a GoSet \<Rightarrow> 'a \<Rightarrow> bool" where
  "Set_Get s item = (gm_get s item \<noteq> None)"

definition Set_Set :: "'a \<Rightarrow> 'a GoSet \<Rightarrow> 'a GoSet" where
  "Set_Set item s = gm_put item () s"

definition NewSetWithItems :: "'a list \<Rightarrow> 'a GoSet" where
  "NewSetWithItems items = fold Set_Set items NewSet"

definition Set_List :: "('a \<times> unit) list \<Rightarrow> 'a list" where
  "Set_List ord = map fst ord"

fun Set_Find :: "('a \<times> unit) list \<Rightarrow> ('a \<Rightarrow> bool) \<Rightarrow> 'a option" where
  "Set_Find [] predicate = None"
| "Set_Find ((item, _) # ord) predicate =
     (if predicate item then Some item else Set_Find ord predicate)"

text \<open>\<open>Remove\<close> returns whether the element was there, with the new set.\<close>

definition Set_Remove :: "'a \<Rightarrow> 'a GoSet \<Rightarrow> 'a GoSet \<times> bool" where
  "Set_Remove item s =
     (if gm_get s item \<noteq> None then (gm_delete item s, True) else (s, False))"

definition Set_Clear :: "'a GoSet \<Rightarrow> 'a GoSet" where
  "Set_Clear s = []"

definition Set_Contains :: "'a GoSet \<Rightarrow> 'a \<Rightarrow> bool" where
  "Set_Contains s item = Set_Get s item"

definition Set_Add :: "'a \<Rightarrow> 'a GoSet \<Rightarrow> 'a GoSet" where
  "Set_Add item s = Set_Set item s"

definition Set_Union :: "('a \<times> unit) list \<Rightarrow> ('a \<times> unit) list \<Rightarrow> 'a GoSet" where
  "Set_Union ord_s ord_other =
     (let result = fold (\<lambda>(item, _) r. Set_Set item r) ord_s NewSet
      in fold (\<lambda>(item, _) r. Set_Set item r) ord_other result)"

definition Set_Intersection ::
  "('a \<times> unit) list \<Rightarrow> ('a \<times> unit) list \<Rightarrow> 'a GoSet \<Rightarrow> 'a GoSet \<Rightarrow> 'a GoSet" where
  "Set_Intersection ord_s ord_other s other =
     (if length s \<le> length other
      then fold (\<lambda>(item, _) r. if gm_get other item \<noteq> None then Set_Set item r else r) ord_s NewSet
      else fold (\<lambda>(item, _) r. if gm_get s item \<noteq> None then Set_Set item r else r) ord_other NewSet)"

definition Set_Difference :: "('a \<times> unit) list \<Rightarrow> 'a GoSet \<Rightarrow> 'a GoSet" where
  "Set_Difference ord_s other =
     fold (\<lambda>(item, _) r. if gm_get other item = None then Set_Set item r else r) ord_s NewSet"

definition Set_IsEmpty :: "'a GoSet \<Rightarrow> bool" where
  "Set_IsEmpty s = (Set_Len s = 0)"

lemmas Set_defs = NewSet_def Set_Len_def Set_Get_def Set_Set_def Set_List_def Set_Clear_def
  Set_Contains_def Set_Add_def Set_IsEmpty_def

lemma set_of_NewSet [simp]: "set_of NewSet = {}"
  by (simp add: set_of_def NewSet_def)

lemma set_of_Set [simp]: "set_of (Set_Set x s) = insert x (set_of s)"
  by (auto simp: set_of_def Set_Set_def dom_update)

lemma gomap_ok_Set [gomap_ok_intros]: "gomap_ok s \<Longrightarrow> gomap_ok (Set_Set x s)"
  by (simp add: Set_Set_def gomap_ok_intros)

lemma Set_Get_iff [simp]: "Set_Get s x \<longleftrightarrow> x \<in> set_of s"
  by (simp add: Set_Get_def set_of_def map_of_eq_None_iff)

lemma gm_get_set_of: "gm_get s x = None \<longleftrightarrow> x \<notin> set_of s"
  by (simp add: set_of_def map_of_eq_None_iff)

lemma iteration_set_of: "iteration_of ord s \<Longrightarrow> fst ` set ord = set_of s"
  by (simp add: set_of_def iteration_set)

text \<open>The loop shared by the three binary operations.\<close>

lemma set_of_fold_if:
  "set_of (fold (\<lambda>(x, _) r. if P x then Set_Set x r else r) xs r) =
     set_of r \<union> {x \<in> fst ` set xs. P x}"
  by (induction xs arbitrary: r) (auto split: if_splits)

lemma set_of_fold:
  "set_of (fold (\<lambda>(x, _) r. Set_Set x r) xs r) = set_of r \<union> fst ` set xs"
  using set_of_fold_if [of "\<lambda>_. True" xs r] by auto

lemma gomap_ok_fold_if [gomap_ok_intros]:
  "gomap_ok r \<Longrightarrow> gomap_ok (fold (\<lambda>(x, _) r. if P x then Set_Set x r else r) xs r)"
  by (induction xs arbitrary: r) (auto simp: gomap_ok_intros)

lemma gomap_ok_fold_set [gomap_ok_intros]:
  "gomap_ok r \<Longrightarrow> gomap_ok (fold (\<lambda>(x, _) r. Set_Set x r) xs r)"
  using gomap_ok_fold_if [of r "\<lambda>_. True" xs] by simp

lemma set_of_NewSetWithItems: "set_of (NewSetWithItems items) = set items"
proof -
  have "set_of (fold Set_Set items r) = set_of r \<union> set items" for r
    by (induction items arbitrary: r) auto
  then show ?thesis by (simp add: NewSetWithItems_def)
qed

lemma Set_Remove_sound:
  "set_of (fst (Set_Remove x s)) = set_of s - {x}" "snd (Set_Remove x s) \<longleftrightarrow> x \<in> set_of s"
proof -
  show "snd (Set_Remove x s) \<longleftrightarrow> x \<in> set_of s"
    by (simp add: Set_Remove_def gm_get_set_of)
  have "set_of (gm_delete x s) = set_of s - {x}"
    unfolding set_of_def dom_map_of_conv_image_fst [symmetric] by (auto split: if_splits)
  then show "set_of (fst (Set_Remove x s)) = set_of s - {x}"
    by (auto simp: Set_Remove_def gm_get_set_of)
qed

lemma Set_Len_card: "gomap_ok s \<Longrightarrow> Set_Len s = int (card (set_of s))"
  unfolding Set_Len_def set_of_def
  using gomap_card [of s] by (simp add: dom_map_of_conv_image_fst)

lemma set_of_Union:
  "iteration_of os s \<Longrightarrow> iteration_of oo other \<Longrightarrow> set_of (Set_Union os oo) = set_of s \<union> set_of other"
  by (simp add: Set_Union_def set_of_fold iteration_set_of)

lemma set_of_Intersection:
  "iteration_of os s \<Longrightarrow> iteration_of oo other \<Longrightarrow>
     set_of (Set_Intersection os oo s other) = set_of s \<inter> set_of other"
  by (auto simp: Set_Intersection_def set_of_fold_if iteration_set_of gm_get_set_of)

lemma set_of_Difference:
  "iteration_of os s \<Longrightarrow> set_of (Set_Difference os other) = set_of s - set_of other"
  by (auto simp: Set_Difference_def set_of_fold_if iteration_set_of gm_get_set_of)

text \<open>
  The set operations of \<open>set.go\<close> compute union, intersection and difference whatever order
  the Go runtime iterates the two maps in and whichever of the two is the smaller one, and the
  result is a proper map whose length is the number of elements.
\<close>

theorem set_algebra:
  assumes "iteration_of os s" and "iteration_of oo other"
  shows "set_of (Set_Union os oo) = set_of s \<union> set_of other
    \<and> set_of (Set_Intersection os oo s other) = set_of s \<inter> set_of other
    \<and> set_of (Set_Difference os other) = set_of s - set_of other
    \<and> Set_Len (Set_Union os oo) = int (card (set_of s \<union> set_of other))
    \<and> Set_Len (Set_Intersection os oo s other) = int (card (set_of s \<inter> set_of other))
    \<and> Set_Len (Set_Difference os other) = int (card (set_of s - set_of other))"
proof -
  have ok: "gomap_ok (Set_Union os oo)" "gomap_ok (Set_Intersection os oo s other)"
    "gomap_ok (Set_Difference os other)"
    by (simp_all add: Set_Union_def Set_Intersection_def Set_Difference_def NewSet_def
        gomap_ok_intros)
  show ?thesis
    using ok by (simp add: Set_Len_card set_of_Union [OF assms] set_of_Intersection [OF assms]
        set_of_Difference [OF assms(1)])
qed

theorem set_algebra_witness:
  "iteration_of [(3 :: nat, ()), (1, ())] [(1, ()), (3, ())]
   \<and> set_of (Set_Intersection [(3, ()), (1, ())] [(3, ())] [(1, ()), (3, ())] [(3 :: nat, ())]) = {3}"
proof -
  have h: "iteration_of [(3 :: nat, ()), (1, ())] [(1, ()), (3, ())]" "iteration_of [(3 :: nat, ())] [(3, ())]"
    by (simp_all add: iteration_of_def)
  show ?thesis
    using h(1) set_algebra [OF h] by (simp add: set_of_def)
qed

end
