(* ===== verification/OrderedMap.thy ===== *)
theory OrderedMap
  imports GoMaps
begin

text \<open>
  The insertion-ordered map of \<open>internal/structure/ordered_map.go\<close>: a Go map from keys to the
  nodes of a doubly linked list. The nodes live in an explicit store (\<open>heap\<close>, from addresses to
  entries), and the methods follow and rewrite the \<open>prev\<close>/\<open>next\<close> pointers as the code does. The
  abstract value is the list of key-value pairs in insertion order; \<open>represents\<close> relates the two
  and every operation refines one on association lists.
\<close>

section \<open>The structure\<close>

type_synonym addr = nat

record ('k, 'v) entry =
  eKey :: 'k
  eValue :: 'v
  ePrev :: "addr option"
  eNext :: "addr option"

record ('k, 'v) OrderedMap =
  items :: "('k, addr) gomap"
  head :: "addr option"
  tail :: "addr option"
  heap :: "addr \<Rightarrow> ('k, 'v) entry option"
  fresh :: addr

definition NewOrderedMap :: "('k, 'v) OrderedMap" where
  "NewOrderedMap = \<lparr>items = [], head = None, tail = None, heap = Map.empty, fresh = 0\<rparr>"

text \<open>Reading and writing a field through a pointer.\<close>

definition read_prev :: "('k, 'v) OrderedMap \<Rightarrow> addr \<Rightarrow> addr option" where
  "read_prev om a = (case heap om a of None \<Rightarrow> None | Some e \<Rightarrow> ePrev e)"

definition read_next :: "('k, 'v) OrderedMap \<Rightarrow> addr \<Rightarrow> addr option" where
  "read_next om a = (case heap om a of None \<Rightarrow> None | Some e \<Rightarrow> eNext e)"

definition upd_entry :: "addr \<Rightarrow> (('k, 'v) entry \<Rightarrow> ('k, 'v) entry) \<Rightarrow>
    (addr \<Rightarrow> ('k, 'v) entry option) \<Rightarrow> addr \<Rightarrow> ('k, 'v) entry option" where
  "upd_entry a f h = h(a := map_option f (h a))"

definition write_prev :: "addr \<Rightarrow> addr option \<Rightarrow> ('k, 'v) OrderedMap \<Rightarrow> ('k, 'v) OrderedMap" where
  "write_prev a x om = om\<lparr>heap := upd_entry a (ePrev_update (\<lambda>_. x)) (heap om)\<rparr>"

definition write_next :: "addr \<Rightarrow> addr option \<Rightarrow> ('k, 'v) OrderedMap \<Rightarrow> ('k, 'v) OrderedMap" where
  "write_next a x om = om\<lparr>heap := upd_entry a (eNext_update (\<lambda>_. x)) (heap om)\<rparr>"

definition write_value :: "addr \<Rightarrow> 'v \<Rightarrow> ('k, 'v) OrderedMap \<Rightarrow> ('k, 'v) OrderedMap" where
  "write_value a v om = om\<lparr>heap := upd_entry a (eValue_update (\<lambda>_. v)) (heap om)\<rparr>"

section \<open>The methods\<close>

definition OM_Len :: "('k, 'v) OrderedMap \<Rightarrow> int" where
  "OM_Len om = int (length (items om))"

definition OM_Get :: "('k, 'v) OrderedMap \<Rightarrow> 'k \<Rightarrow> 'v option" where
  "OM_Get om key =
     (case gm_get (items om) key of Some a \<Rightarrow> map_option eValue (heap om a) | None \<Rightarrow> None)"

definition appendToTail :: "addr \<Rightarrow> ('k, 'v) OrderedMap \<Rightarrow> ('k, 'v) OrderedMap" where
  "appendToTail a om =
     (case tail om of
        None \<Rightarrow> om\<lparr>head := Some a, tail := Some a\<rparr>
      | Some t \<Rightarrow> (write_prev a (Some t) (write_next t (Some a) om))\<lparr>tail := Some a\<rparr>)"

definition OM_Set :: "'k \<Rightarrow> 'v \<Rightarrow> ('k, 'v) OrderedMap \<Rightarrow> ('k, 'v) OrderedMap" where
  "OM_Set key v om =
     (case gm_get (items om) key of
        Some a \<Rightarrow> write_value a v om
      | None \<Rightarrow>
          let a = fresh om;
              e = \<lparr>eKey = key, eValue = v, ePrev = None, eNext = None\<rparr>
          in appendToTail a (om\<lparr>heap := (heap om)(a \<mapsto> e), fresh := Suc a,
                                items := gm_put key a (items om)\<rparr>))"

definition removeFromList :: "addr \<Rightarrow> ('k, 'v) OrderedMap \<Rightarrow> ('k, 'v) OrderedMap" where
  "removeFromList a om =
     (let om1 = (case read_prev om a of
            Some p \<Rightarrow> write_next p (read_next om a) om
          | None \<Rightarrow> om\<lparr>head := read_next om a\<rparr>);
          om2 = (case read_next om1 a of
            Some n \<Rightarrow> write_prev n (read_prev om1 a) om1
          | None \<Rightarrow> om1\<lparr>tail := read_prev om1 a\<rparr>)
      in write_next a None (write_prev a None om2))"

definition OM_Delete :: "'k \<Rightarrow> ('k, 'v) OrderedMap \<Rightarrow> ('k, 'v) OrderedMap \<times> bool" where
  "OM_Delete key om =
     (case gm_get (items om) key of
        Some a \<Rightarrow> (removeFromList a (om\<lparr>items := gm_delete key (items om)\<rparr>), True)
      | None \<Rightarrow> (om, False))"

definition OM_Clear :: "('k, 'v) OrderedMap \<Rightarrow> ('k, 'v) OrderedMap" where
  "OM_Clear om = om\<lparr>items := [], head := None, tail := None\<rparr>"

definition OM_Contains :: "('k, 'v) OrderedMap \<Rightarrow> 'k \<Rightarrow> bool" where
  "OM_Contains om key = (OM_Get om key \<noteq> None)"

definition OM_IsEmpty :: "('k, 'v) OrderedMap \<Rightarrow> bool" where
  "OM_IsEmpty om = (OM_Len om = 0)"

definition OM_Front :: "('k, 'v) OrderedMap \<Rightarrow> ('k \<times> 'v) option" where
  "OM_Front om = (case head om of None \<Rightarrow> None
     | Some a \<Rightarrow> map_option (\<lambda>e. (eKey e, eValue e)) (heap om a))"

definition OM_Back :: "('k, 'v) OrderedMap \<Rightarrow> ('k \<times> 'v) option" where
  "OM_Back om = (case tail om of None \<Rightarrow> None
     | Some a \<Rightarrow> map_option (\<lambda>e. (eKey e, eValue e)) (heap om a))"

text \<open>
  The loop \<open>for current != nil { ...; current = current.next }\<close> of \<open>List\<close>, \<open>Find\<close>, \<open>Keys\<close>,
  \<open>Values\<close> and \<open>ForEach\<close>. On a cyclic list it would not end, so it is a partial function:
  \<open>None\<close> is a loop that does not return. The body says whether to go on.
\<close>

partial_function (option) traverse ::
  "(addr \<Rightarrow> ('k, 'v) entry option) \<Rightarrow> ('s \<Rightarrow> 'k \<Rightarrow> 'v \<Rightarrow> 's \<times> bool) \<Rightarrow> addr option \<Rightarrow> 's \<Rightarrow> 's option" where
  "traverse h body current s =
     (case current of None \<Rightarrow> Some s
      | Some a \<Rightarrow> (case h a of None \<Rightarrow> None
          | Some e \<Rightarrow> (if snd (body s (eKey e) (eValue e))
                       then traverse h body (eNext e) (fst (body s (eKey e) (eValue e)))
                       else Some (fst (body s (eKey e) (eValue e))))))"

definition OM_List :: "('k, 'v) OrderedMap \<Rightarrow> ('k \<times> 'v) list option" where
  "OM_List om = traverse (heap om) (\<lambda>result k v. (result @ [(k, v)], True)) (head om) []"

definition OM_Find :: "('k \<Rightarrow> 'v \<Rightarrow> bool) \<Rightarrow> ('k, 'v) OrderedMap \<Rightarrow> ('k \<times> 'v) option option" where
  "OM_Find predicate om =
     traverse (heap om)
       (\<lambda>found k v. if predicate k v then (Some (k, v), False) else (None, True)) (head om) None"

definition OM_Keys :: "('k, 'v) OrderedMap \<Rightarrow> 'k list option" where
  "OM_Keys om = traverse (heap om) (\<lambda>result k v. (result @ [k], True)) (head om) []"

definition OM_Values :: "('k, 'v) OrderedMap \<Rightarrow> 'v list option" where
  "OM_Values om = traverse (heap om) (\<lambda>result k v. (result @ [v], True)) (head om) []"

definition OM_ForEach :: "('s \<Rightarrow> 'k \<Rightarrow> 'v \<Rightarrow> 's) \<Rightarrow> ('k, 'v) OrderedMap \<Rightarrow> 's \<Rightarrow> 's option" where
  "OM_ForEach fn om s = traverse (heap om) (\<lambda>s k v. (fn s k v, True)) (head om) s"

section \<open>Well-formed lists\<close>

definition first_or :: "addr list \<Rightarrow> addr option \<Rightarrow> addr option" where
  "first_or as n = (case as of [] \<Rightarrow> n | b # _ \<Rightarrow> Some b)"

definition last_or :: "addr list \<Rightarrow> addr option \<Rightarrow> addr option" where
  "last_or as p = (if as = [] then p else Some (last as))"

text \<open>\<open>dll h p as n\<close>: the nodes \<open>as\<close> are linked both ways, between \<open>p\<close> before and \<open>n\<close> after them.\<close>

fun dll :: "(addr \<Rightarrow> ('k, 'v) entry option) \<Rightarrow> addr option \<Rightarrow> addr list \<Rightarrow> addr option \<Rightarrow> bool" where
  "dll h p [] n = True"
| "dll h p (a # as) n =
     (case h a of None \<Rightarrow> False
      | Some e \<Rightarrow> ePrev e = p \<and> eNext e = first_or as n \<and> dll h (Some a) as n)"

definition key_at :: "(addr \<Rightarrow> ('k, 'v) entry option) \<Rightarrow> addr \<Rightarrow> 'k" where
  "key_at h a = eKey (the (h a))"

definition value_at :: "(addr \<Rightarrow> ('k, 'v) entry option) \<Rightarrow> addr \<Rightarrow> 'v" where
  "value_at h a = eValue (the (h a))"

definition om_wf :: "('k, 'v) OrderedMap \<Rightarrow> addr list \<Rightarrow> bool" where
  "om_wf om as \<longleftrightarrow>
     distinct as \<and> head om = first_or as None \<and> tail om = last_or as None
     \<and> dll (heap om) None as None \<and> (\<forall>a \<in> set as. a < fresh om)
     \<and> gomap_ok (items om) \<and> mset (items om) = mset (map (\<lambda>a. (key_at (heap om) a, a)) as)"

definition contents :: "('k, 'v) OrderedMap \<Rightarrow> addr list \<Rightarrow> ('k \<times> 'v) list" where
  "contents om as = map (\<lambda>a. (key_at (heap om) a, value_at (heap om) a)) as"

definition represents :: "('k, 'v) OrderedMap \<Rightarrow> ('k \<times> 'v) list \<Rightarrow> bool" where
  "represents om xs \<longleftrightarrow> (\<exists>as. om_wf om as \<and> xs = contents om as)"

section \<open>List segments\<close>

lemma first_or_simps [simp]:
  "first_or [] n = n" "first_or (a # as) n = Some a"
  "first_or (xs @ ys) n = first_or xs (first_or ys n)"
  by (simp_all add: first_or_def split: list.split)

lemma last_or_simps [simp]:
  "last_or [] p = p" "last_or (a # as) p = last_or as (Some a)"
  "last_or (xs @ ys) p = last_or ys (last_or xs p)"
  by (simp_all add: last_or_def)

lemma dll_append [simp]:
  "dll h p (xs @ ys) n \<longleftrightarrow> dll h p xs (first_or ys n) \<and> dll h (last_or xs p) ys n"
  by (induction xs arbitrary: p) (auto split: option.splits)

lemma dll_cong: "(\<And>a. a \<in> set as \<Longrightarrow> h' a = h a) \<Longrightarrow> dll h' p as n = dll h p as n"
  by (induction as arbitrary: p) (auto split: option.splits)

lemma upd_entry_other [simp]: "b \<noteq> a \<Longrightarrow> upd_entry a f h b = h b"
  by (simp add: upd_entry_def)

lemma upd_entry_same [simp]: "upd_entry a f h a = map_option f (h a)"
  by (simp add: upd_entry_def)

lemma dll_upd_other [simp]: "a \<notin> set as \<Longrightarrow> dll (upd_entry a f h) p as n = dll h p as n"
  by (rule dll_cong) (auto simp: upd_entry_def)

lemma dll_fun_upd_other [simp]: "a \<notin> set as \<Longrightarrow> dll (h(a \<mapsto> e)) p as n = dll h p as n"
  by (rule dll_cong) auto

text \<open>Relinking the last node forward, the first node backward, and writing a value.\<close>

lemma dll_relink_last:
  "dll h p (as @ [t]) n \<Longrightarrow> t \<notin> set as \<Longrightarrow> dll (upd_entry t (eNext_update (\<lambda>_. x)) h) p (as @ [t]) x"
  by (auto split: option.splits)

lemma dll_relink_first:
  "dll h p (a # as) n \<Longrightarrow> a \<notin> set as \<Longrightarrow> dll (upd_entry a (ePrev_update (\<lambda>_. x)) h) x (a # as) n"
  by (auto split: option.splits)

lemma dll_write_value:
  "dll (upd_entry a (eValue_update (\<lambda>_. v)) h) p as n = dll h p as n"
proof (induction as arbitrary: p)
  case (Cons b as)
  then show ?case by (cases "b = a"; cases "h b"; simp)
qed simp

lemma key_at_links [simp]:
  "key_at (upd_entry a (ePrev_update (\<lambda>_. x)) h) b = key_at h b"
  "key_at (upd_entry a (eNext_update (\<lambda>_. x)) h) b = key_at h b"
  by (cases "b = a"; cases "h a"; simp add: key_at_def)+

lemma value_at_links [simp]:
  "value_at (upd_entry a (ePrev_update (\<lambda>_. x)) h) b = value_at h b"
  "value_at (upd_entry a (eNext_update (\<lambda>_. x)) h) b = value_at h b"
  by (cases "b = a"; cases "h a"; simp add: value_at_def)+

lemma key_at_write_value [simp]: "key_at (upd_entry a (eValue_update (\<lambda>_. v)) h) b = key_at h b"
  by (cases "b = a"; cases "h a"; simp add: key_at_def)

lemma dll_allocated: "dll h p as n \<Longrightarrow> a \<in> set as \<Longrightarrow> \<exists>e. h a = Some e"
  by (induction as arbitrary: p) (auto split: option.splits)

section \<open>Traversals\<close>

text \<open>What a traversal computes, on the abstract list.\<close>

fun visit :: "('s \<Rightarrow> 'k \<Rightarrow> 'v \<Rightarrow> 's \<times> bool) \<Rightarrow> ('k \<times> 'v) list \<Rightarrow> 's \<Rightarrow> 's" where
  "visit body [] s = s"
| "visit body ((k, v) # xs) s =
     (let (s', continue) = body s k v in if continue then visit body xs s' else s')"

lemma traverse_dll:
  "dll h p as None \<Longrightarrow>
     traverse h body (first_or as None) s = Some (visit body (map (\<lambda>a. (key_at h a, value_at h a)) as) s)"
proof (induction as arbitrary: p s)
  case Nil
  show ?case by (subst traverse.simps) simp
next
  case (Cons a as)
  then obtain e where e: "h a = Some e" "eNext e = first_or as None" "dll h (Some a) as None"
    by (auto split: option.splits)
  show ?case
    by (subst traverse.simps)
      (simp add: e(1,2) Cons.IH [OF e(3)] key_at_def value_at_def case_prod_beta Let_def)
qed

lemma om_wf_traverse:
  "om_wf om as \<Longrightarrow> traverse (heap om) body (head om) s = Some (visit body (contents om as) s)"
  unfolding om_wf_def contents_def using traverse_dll by auto

lemma visit_all: "(\<And>s k v. snd (body s k v)) \<Longrightarrow> visit body xs s = fold (\<lambda>(k, v) s. fst (body s k v)) xs s"
  by (induction xs arbitrary: s) (auto simp: case_prod_beta Let_def)

lemma fold_snoc: "fold (\<lambda>x r. r @ [f x]) xs r = r @ map f xs"
  by (induction xs arbitrary: r) auto

section \<open>Lookups\<close>

lemma om_items_iteration:
  "om_wf om as \<Longrightarrow> iteration_of (map (\<lambda>a. (key_at (heap om) a, a)) as) (items om)"
  by (simp add: om_wf_def iteration_of_def)

lemma om_items_get:
  assumes "om_wf om as"
  shows "gm_get (items om) k = map_of (map (\<lambda>a. (key_at (heap om) a, a)) as) k"
  using iteration_get [OF om_items_iteration [OF assms]] assms by (simp add: om_wf_def)

lemma om_keys_distinct:
  assumes "om_wf om as"
  shows "distinct (map (key_at (heap om)) as)"
proof -
  have "gomap_ok (map (\<lambda>a. (key_at (heap om) a, a)) as)"
    using iteration_ok [OF om_items_iteration [OF assms]] assms by (simp add: om_wf_def)
  then show ?thesis by (simp add: gomap_ok_def comp_def)
qed

lemma om_items_Some:
  "om_wf om as \<Longrightarrow> gm_get (items om) k = Some a \<longleftrightarrow> a \<in> set as \<and> key_at (heap om) a = k"
  using om_keys_distinct [of om as]
  by (subst om_items_get) (auto simp: comp_def map_of_eq_Some_iff)

lemma om_items_None:
  "om_wf om as \<Longrightarrow> gm_get (items om) k = None \<longleftrightarrow> k \<notin> key_at (heap om) ` set as"
  by (subst om_items_get) (auto simp: map_of_eq_None_iff image_image)

lemma contents_keys: "map fst (contents om as) = map (key_at (heap om)) as"
  by (simp add: contents_def)

lemma OM_Get_contents:
  assumes wf: "om_wf om as"
  shows "OM_Get om k = map_of (contents om as) k"
proof (cases "gm_get (items om) k")
  case None
  then have "k \<notin> key_at (heap om) ` set as"
    by (simp only: om_items_None [OF wf] not_False_eq_True)
  then have "map_of (contents om as) k = None"
    by (simp add: map_of_eq_None_iff contents_def image_image)
  with None show ?thesis by (simp add: OM_Get_def)
next
  case (Some a)
  with wf have a: "a \<in> set as" "key_at (heap om) a = k" by (auto simp: om_items_Some)
  with wf obtain e where e: "heap om a = Some e"
    unfolding om_wf_def using dll_allocated by blast
  have "distinct (map fst (contents om as))"
    using om_keys_distinct [OF wf] by (simp add: contents_keys)
  moreover have "(k, value_at (heap om) a) \<in> set (contents om as)"
    using a by (auto simp: contents_def)
  ultimately show ?thesis
    using Some e by (simp add: OM_Get_def value_at_def)
qed

section \<open>Refinement of the writing methods\<close>

lemma alist_update_new: "k \<notin> fst ` set xs \<Longrightarrow> AList.update k v xs = xs @ [(k, v)]"
  by (induction xs) auto

lemma alist_update_at:
  "distinct (map f as) \<Longrightarrow> a \<in> set as \<Longrightarrow>
     AList.update (f a) v (map (\<lambda>b. (f b, g b)) as) = map (\<lambda>b. (f b, if b = a then v else g b)) as"
proof (induction as)
  case (Cons b as)
  show ?case
  proof (cases "b = a")
    case True
    with Cons.prems have "a \<notin> set as" by auto
    with True show ?thesis by auto
  next
    case False
    with Cons.prems have "f b \<noteq> f a" by auto
    with False Cons show ?thesis by simp
  qed
qed simp

lemma alist_delete_at:
  "distinct (map f (xs @ a # ys)) \<Longrightarrow>
     AList.delete (f a) (map (\<lambda>b. (f b, g b)) (xs @ a # ys)) = map (\<lambda>b. (f b, g b)) (xs @ ys)"
  by (induction xs) (auto simp: image_image)

lemma write_value_wf:
  assumes wf: "om_wf om as" and a: "a \<in> set as"
  shows "om_wf (write_value a v om) as"
    and "contents (write_value a v om) as = AList.update (key_at (heap om) a) v (contents om as)"
proof -
  show "om_wf (write_value a v om) as"
    using wf by (simp add: om_wf_def write_value_def dll_write_value)
  obtain e where e: "heap om a = Some e"
    using wf a unfolding om_wf_def using dll_allocated by blast
  have "value_at (heap (write_value a v om)) b = (if b = a then v else value_at (heap om) b)" for b
    using e by (simp add: write_value_def value_at_def)
  then show "contents (write_value a v om) as = AList.update (key_at (heap om) a) v (contents om as)"
    using alist_update_at [OF om_keys_distinct [OF wf] a, of v "value_at (heap om)"]
    by (simp add: contents_def write_value_def)
qed

lemma insert_wf:
  assumes wf: "om_wf om as" and k: "gm_get (items om) k = None"
  shows "om_wf (OM_Set k v om) (as @ [fresh om])"
    and "contents (OM_Set k v om) (as @ [fresh om]) = contents om as @ [(k, v)]"
proof -
  let ?a = "fresh om"
  let ?e = "\<lparr>eKey = k, eValue = v, ePrev = None, eNext = None\<rparr>"
  define h0 where "h0 = (heap om)(?a \<mapsto> ?e)"
  define h1 where "h1 = (case last_or as None of None \<Rightarrow> h0
    | Some t \<Rightarrow> upd_entry ?a (ePrev_update (\<lambda>_. Some t)) (upd_entry t (eNext_update (\<lambda>_. Some ?a)) h0))"
  note base = wf [unfolded om_wf_def]
  have fr: "?a \<notin> set as" using base by auto
  have kk: "k \<notin> fst ` set (items om)" using k by (simp add: map_of_eq_None_iff)
  have om'_eq: "OM_Set k v om = om\<lparr>items := gm_put k ?a (items om), heap := h1, fresh := Suc ?a,
      head := (if as = [] then Some ?a else head om), tail := Some ?a\<rparr>"
    using base k
    by (auto simp: OM_Set_def appendToTail_def write_next_def write_prev_def Let_def h1_def h0_def
        last_or_def)
  have keys: "key_at h1 b = key_at h0 b" and vals: "value_at h1 b = value_at h0 b" for b
    by (simp_all add: h1_def split: option.split)
  have old: "key_at h0 b = key_at (heap om) b" "value_at h0 b = value_at (heap om) b"
    if "b \<in> set as" for b
    using that fr by (auto simp: h0_def key_at_def value_at_def)
  have new: "key_at h0 ?a = k" "value_at h0 ?a = v"
    by (simp_all add: h0_def key_at_def value_at_def)
  have d: "dll h1 None (as @ [?a]) None"
  proof (cases as rule: rev_cases)
    case Nil
    then show ?thesis by (simp add: h1_def h0_def)
  next
    case (snoc bs t)
    have "dll h0 None (bs @ [t]) None"
      using base fr dll_fun_upd_other unfolding snoc h0_def by blast
    then have "dll (upd_entry t (eNext_update (\<lambda>_. Some ?a)) h0) None (bs @ [t]) (Some ?a)"
      by (rule dll_relink_last) (use base snoc in auto)
    moreover have "?a \<notin> set (bs @ [t])" using fr snoc by simp
    ultimately have "dll h1 None (bs @ [t]) (Some ?a)"
      unfolding h1_def snoc by (simp del: dll_append)
    moreover have "dll h1 (Some t) [?a] None"
      using fr snoc by (simp add: h1_def h0_def)
    ultimately have "dll h1 None ((bs @ [t]) @ [?a]) None"
      by (subst dll_append) (simp del: dll_append dll.simps)
    then show ?thesis by (simp only: snoc)
  qed
  have "mset (gm_put k ?a (items om)) = mset (map (\<lambda>a. (key_at h1 a, a)) (as @ [?a]))"
  proof -
    have "map (\<lambda>a. (key_at h1 a, a)) as = map (\<lambda>a. (key_at (heap om) a, a)) as"
      by (simp add: keys old)
    then have "map (\<lambda>a. (key_at h1 a, a)) (as @ [?a]) = map (\<lambda>a. (key_at (heap om) a, a)) as @ [(k, ?a)]"
      by (simp add: keys new)
    then show ?thesis
      using base alist_update_new [OF kk] by (simp only: mset_append)
  qed
  then show "om_wf (OM_Set k v om) (as @ [?a])"
    using base d fr by (auto simp: om_wf_def om'_eq gomap_ok_intros less_Suc_eq last_or_def first_or_def split: list.split)
  show "contents (OM_Set k v om) (as @ [?a]) = contents om as @ [(k, v)]"
    by (simp add: contents_def om'_eq keys vals old new)
qed

lemma OM_Set_represents:
  assumes "represents om xs"
  shows "represents (OM_Set k v om) (AList.update k v xs)"
proof -
  obtain as where wf: "om_wf om as" and xs: "xs = contents om as"
    using assms by (auto simp: represents_def)
  show ?thesis
  proof (cases "gm_get (items om) k")
    case None
    then have "k \<notin> key_at (heap om) ` set as"
      by (simp only: om_items_None [OF wf] not_False_eq_True)
    then have "k \<notin> fst ` set xs" by (simp add: xs contents_def image_image)
    then show ?thesis
      using insert_wf [OF wf None, of v] by (auto simp: represents_def xs alist_update_new)
  next
    case (Some a)
    with wf have a: "a \<in> set as" "key_at (heap om) a = k" by (auto simp: om_items_Some)
    have "OM_Set k v om = write_value a v om" using Some by (simp add: OM_Set_def)
    with write_value_wf [OF wf a(1), of v] a(2) show ?thesis
      by (auto simp: represents_def xs)
  qed
qed

lemma last_or_snoc: "xs \<noteq> [] \<Longrightarrow> last_or xs p = Some (last xs)"
  by (simp add: last_or_def)

text \<open>Unlinking the node in the middle of \<open>xs @ a # ys\<close> joins the two segments.\<close>

lemma dll_unlink:
  assumes d: "dll h None (xs @ a # ys) None" and dist: "distinct (xs @ a # ys)"
  defines "p \<equiv> last_or xs None" and "n \<equiv> first_or ys None"
  defines "h1 \<equiv> (case p of None \<Rightarrow> h | Some q \<Rightarrow> upd_entry q (eNext_update (\<lambda>_. n)) h)"
  defines "h2 \<equiv> (case n of None \<Rightarrow> h1 | Some q \<Rightarrow> upd_entry q (ePrev_update (\<lambda>_. p)) h1)"
  shows "dll h2 None (xs @ ys) None"
proof -
  have dx: "dll h None xs (Some a)" and dy: "dll h (Some a) ys None"
    using d by (auto split: option.splits)
  have x1: "dll h1 None xs n"
  proof (cases xs rule: rev_cases)
    case (snoc zs t)
    with dx dist show ?thesis
      unfolding h1_def p_def using dll_relink_last [of h None zs t "Some a" n] by simp
  qed (simp add: h1_def)
  have y1: "dll h1 (Some a) ys None"
  proof (cases xs rule: rev_cases)
    case (snoc zs t)
    with dy dist show ?thesis by (simp add: h1_def p_def)
  qed (use dy in \<open>simp add: h1_def p_def\<close>)
  show ?thesis
  proof (cases ys)
    case Nil
    with x1 show ?thesis by (simp add: h2_def n_def)
  next
    case (Cons q zs)
    have "dll h2 None xs n" using x1 dist Cons by (simp add: h2_def n_def)
    moreover have "dll h2 p ys None"
      using y1 dist Cons dll_relink_first [of h1 "Some a" q zs None p] by (simp add: h2_def n_def)
    ultimately show ?thesis by (simp add: p_def n_def)
  qed
qed

lemma first_or_None [simp]: "first_or as None = None \<longleftrightarrow> as = []"
  by (cases as) simp_all

lemma last_or_None [simp]: "last_or as None = None \<longleftrightarrow> as = []"
  by (simp add: last_or_def)

lemma mset_remove_entry:
  assumes ok: "gomap_ok m" and eq: "mset m = mset (map (\<lambda>b. (f b, b)) (xs @ a # ys))"
  shows "mset (gm_delete (f a) m) = mset (map (\<lambda>b. (f b, b)) (xs @ ys))"
proof -
  have "mset (gm_delete (f a) m) = filter_mset (\<lambda>(k', _). f a \<noteq> k') (mset m)"
    by (simp add: AList.delete_eq)
  also have "\<dots> = mset (AList.delete (f a) (map (\<lambda>b. (f b, b)) (xs @ a # ys)))"
    by (simp only: eq AList.delete_eq mset_filter)
  also have "\<dots> = mset (map (\<lambda>b. (f b, b)) (xs @ ys))"
  proof -
    have "gomap_ok (map (\<lambda>b. (f b, b)) (xs @ a # ys))"
      using ok iteration_ok [of "map (\<lambda>b. (f b, b)) (xs @ a # ys)" m] eq
      by (simp add: iteration_of_def)
    then have "distinct (map f (xs @ a # ys))" by (simp add: gomap_ok_def comp_def)
    then show ?thesis using alist_delete_at [of f xs a ys "\<lambda>b. b"] by metis
  qed
  finally show ?thesis .
qed

lemma first_or_some: "xs \<noteq> [] \<Longrightarrow> first_or (xs @ ys) n = first_or xs m"
  by (cases xs) simp_all

lemma removeFromList_wf:
  assumes wf: "om_wf om (xs @ a # ys)"
    and om': "om' = removeFromList a (om\<lparr>items := gm_delete (key_at (heap om) a) (items om)\<rparr>)"
  shows "om_wf om' (xs @ ys)" and "contents om' (xs @ ys) = contents om xs @ contents om ys"
proof -
  note base = wf [unfolded om_wf_def]
  define p where "p = last_or xs None"
  define n where "n = first_or ys None"
  define h1 where "h1 = (case p of None \<Rightarrow> heap om | Some q \<Rightarrow> upd_entry q (eNext_update (\<lambda>_. n)) (heap om))"
  define h2 where "h2 = (case n of None \<Rightarrow> h1 | Some q \<Rightarrow> upd_entry q (ePrev_update (\<lambda>_. p)) h1)"
  define h3 where "h3 = upd_entry a (eNext_update (\<lambda>_. None)) (upd_entry a (ePrev_update (\<lambda>_. None)) h2)"
  obtain e where e: "heap om a = Some e" "ePrev e = p" "eNext e = n"
    using base by (auto simp: p_def n_def split: option.splits)
  have pa: "p = Some q \<Longrightarrow> q \<in> set xs" for q
    by (auto simp: p_def last_or_def split: if_splits)
  have na: "p \<noteq> Some a"
    using base pa by auto
  have om'_eq: "om' = om\<lparr>items := gm_delete (key_at (heap om) a) (items om), heap := h3,
      head := (if p = None then n else head om), tail := (if n = None then p else tail om)\<rparr>"
    using e na
    by (auto simp: om' removeFromList_def read_prev_def read_next_def write_prev_def write_next_def
        Let_def h3_def h2_def h1_def split: option.split)
  have keys: "key_at h3 b = key_at (heap om) b" and vals: "value_at h3 b = value_at (heap om) b" for b
    by (simp_all add: h3_def h2_def h1_def split: option.split)
  have "dll h2 None (xs @ ys) None"
    unfolding h2_def h1_def p_def n_def by (rule dll_unlink) (use base in blast)+
  then have d: "dll h3 None (xs @ ys) None"
    using base by (subst dll_cong [of _ _ h2]) (auto simp: h3_def upd_entry_def)
  have "mset (items om') = mset (map (\<lambda>b. (key_at (heap om) b, b)) (xs @ ys))"
    using mset_remove_entry [of "items om" "key_at (heap om)" xs a ys] base by (simp add: om'_eq)
  then show "om_wf om' (xs @ ys)"
    using base d keys
    by (cases xs; cases ys)
      (auto simp: om_wf_def om'_eq gomap_ok_intros p_def n_def last_or_def first_or_def)
  show "contents om' (xs @ ys) = contents om xs @ contents om ys"
    by (simp add: contents_def om'_eq keys vals)
qed

lemma OM_Delete_represents:
  assumes "represents om xs"
  shows "represents (fst (OM_Delete k om)) (AList.delete k xs)"
    and "snd (OM_Delete k om) \<longleftrightarrow> k \<in> fst ` set xs"
proof -
  obtain as where wf: "om_wf om as" and xs: "xs = contents om as"
    using assms by (auto simp: represents_def)
  have "represents (fst (OM_Delete k om)) (AList.delete k xs)
      \<and> (snd (OM_Delete k om) \<longleftrightarrow> k \<in> fst ` set xs)"
  proof (cases "gm_get (items om) k")
    case None
    then have "k \<notin> key_at (heap om) ` set as"
      by (simp only: om_items_None [OF wf] not_False_eq_True)
    then have "k \<notin> fst ` set xs" by (simp add: xs contents_def image_image)
    then show ?thesis using None assms by (simp add: OM_Delete_def)
  next
    case (Some a)
    with wf have a: "a \<in> set as" "key_at (heap om) a = k" by (auto simp: om_items_Some)
    then obtain bs cs where as: "as = bs @ a # cs" by (meson split_list)
    let ?om' = "removeFromList a (om\<lparr>items := gm_delete k (items om)\<rparr>)"
    note rm = removeFromList_wf [OF wf [unfolded as], of ?om', unfolded a(2), OF refl]
    have "AList.delete k xs = contents om (bs @ cs)"
      using alist_delete_at [of "key_at (heap om)" bs a cs "value_at (heap om)"]
        om_keys_distinct [OF wf] a(2)
      by (simp only: xs as contents_def)
    then have "represents ?om' (AList.delete k xs)"
      using rm unfolding represents_def by (auto simp: contents_def)
    moreover have "k \<in> fst ` set xs" using a by (auto simp: xs contents_def image_image)
    ultimately show ?thesis using Some by (simp add: OM_Delete_def)
  qed
  then show "represents (fst (OM_Delete k om)) (AList.delete k xs)"
    "snd (OM_Delete k om) \<longleftrightarrow> k \<in> fst ` set xs"
    by simp_all
qed

section \<open>Refinement of the whole structure\<close>

lemma NewOrderedMap_represents: "represents NewOrderedMap []"
  unfolding represents_def
  by (rule exI [of _ "[]"]) (simp add: om_wf_def NewOrderedMap_def contents_def)

lemma OM_Clear_represents: "represents (OM_Clear om) []"
  unfolding represents_def
  by (rule exI [of _ "[]"]) (simp add: om_wf_def OM_Clear_def contents_def)

lemma represents_traverse:
  "represents om xs \<Longrightarrow> traverse (heap om) body (head om) s = Some (visit body xs s)"
  by (auto simp: represents_def om_wf_traverse)

lemma represents_ok: "represents om xs \<Longrightarrow> gomap_ok xs"
  unfolding represents_def gomap_ok_def by (auto simp: contents_keys om_keys_distinct)

lemma represents_List: "represents om xs \<Longrightarrow> OM_List om = Some xs"
  by (simp add: OM_List_def represents_traverse visit_all fold_snoc [where f = "\<lambda>x. x"] case_prod_beta')

lemma represents_Keys: "represents om xs \<Longrightarrow> OM_Keys om = Some (map fst xs)"
  by (simp add: OM_Keys_def represents_traverse visit_all fold_snoc case_prod_beta')

lemma represents_Values: "represents om xs \<Longrightarrow> OM_Values om = Some (map snd xs)"
  by (simp add: OM_Values_def represents_traverse visit_all fold_snoc case_prod_beta')

lemma represents_ForEach:
  "represents om xs \<Longrightarrow> OM_ForEach fn om s = Some (fold (\<lambda>(k, v) s. fn s k v) xs s)"
  by (simp add: OM_ForEach_def represents_traverse visit_all)

lemma visit_find:
  "visit (\<lambda>found k v. if p k v then (Some (k, v), False) else (None, True)) xs None =
     find (\<lambda>(k, v). p k v) xs"
  by (induction xs) auto

lemma represents_Find: "represents om xs \<Longrightarrow> OM_Find p om = Some (find (\<lambda>(k, v). p k v) xs)"
  by (simp add: OM_Find_def represents_traverse visit_find)

lemma represents_Get: "represents om xs \<Longrightarrow> OM_Get om k = map_of xs k"
  by (auto simp: represents_def OM_Get_contents)

lemma represents_Len: "represents om xs \<Longrightarrow> OM_Len om = int (length xs)"
  unfolding represents_def OM_Len_def om_wf_def contents_def
  by (auto dest: arg_cong [where f = size])

lemma represents_Front_Back:
  assumes "represents om xs"
  shows "OM_Front om = (case xs of [] \<Rightarrow> None | x # _ \<Rightarrow> Some x)"
    and "OM_Back om = (if xs = [] then None else Some (last xs))"
proof -
  obtain as where wf: "om_wf om as" and xs: "xs = contents om as"
    using assms by (auto simp: represents_def)
  note base = wf [unfolded om_wf_def]
  show "OM_Front om = (case xs of [] \<Rightarrow> None | x # _ \<Rightarrow> Some x)"
    using base by (cases as)
      (auto simp: OM_Front_def xs contents_def key_at_def value_at_def split: option.splits)
  show "OM_Back om = (if xs = [] then None else Some (last xs))"
    using base by (cases as rule: rev_cases)
      (auto simp: OM_Back_def xs contents_def key_at_def value_at_def split: option.splits)
qed

text \<open>An ordered map is a key-value store too.\<close>

definition OM_ok :: "('k, 'v) OrderedMap \<Rightarrow> bool" where
  "OM_ok om \<longleftrightarrow> (\<exists>xs. represents om xs)"

lemma OM_Get_map: "represents om xs \<Longrightarrow> OM_Get om = map_of xs"
  by (simp add: represents_Get fun_eq_iff)

lemma map_of_OM_Set: "represents om xs \<Longrightarrow> OM_Get (OM_Set k v om) = (OM_Get om)(k \<mapsto> v)"
  using OM_Get_map [OF OM_Set_represents] OM_Get_map by (metis gm_get_put)

lemma map_of_OM_Delete: "represents om xs \<Longrightarrow> OM_Get (fst (OM_Delete k om)) = (OM_Get om)(k := None)"
  using OM_Get_map [OF OM_Delete_represents(1)] OM_Get_map by (metis gm_get_delete)

interpretation ordered_map: kv_store NewOrderedMap OM_Set OM_Get "\<lambda>k om. fst (OM_Delete k om)" OM_Len OM_ok
proof unfold_locales
  fix m :: "('a, 'b) OrderedMap" and k :: 'a and v :: 'b
  show "OM_ok NewOrderedMap" using NewOrderedMap_represents by (auto simp: OM_ok_def)
  show "OM_Get NewOrderedMap k = None" by (simp add: OM_Get_map [OF NewOrderedMap_represents])
  assume "OM_ok m"
  then obtain xs where r: "represents m xs" by (auto simp: OM_ok_def)
  show "OM_ok (OM_Set k v m)" "OM_ok (fst (OM_Delete k m))"
    using OM_Set_represents [OF r] OM_Delete_represents(1) [OF r] by (auto simp: OM_ok_def)
  show "OM_Get (OM_Set k v m) = (OM_Get m)(k \<mapsto> v)" "OM_Get (fst (OM_Delete k m)) = (OM_Get m)(k := None)"
    by (rule map_of_OM_Set [OF r] map_of_OM_Delete [OF r])+
  show "OM_Len m = int (card (dom (OM_Get m)))" "finite (dom (OM_Get m))"
    using represents_Len [OF r] OM_Get_map [OF r] gomap_card [OF represents_ok [OF r]]
    by (simp_all add: finite_dom_map_of)
qed

section \<open>Runs of operations\<close>

text \<open>A sequence of method calls, on the pointer structure and on the abstract list.\<close>

datatype ('k, 'v) om_op = OpSet 'k 'v | OpDelete 'k | OpClear

fun om_step :: "('k, 'v) om_op \<Rightarrow> ('k, 'v) OrderedMap \<Rightarrow> ('k, 'v) OrderedMap" where
  "om_step (OpSet k v) om = OM_Set k v om"
| "om_step (OpDelete k) om = fst (OM_Delete k om)"
| "om_step OpClear om = OM_Clear om"

fun spec_step :: "('k, 'v) om_op \<Rightarrow> ('k \<times> 'v) list \<Rightarrow> ('k \<times> 'v) list" where
  "spec_step (OpSet k v) xs = AList.update k v xs"
| "spec_step (OpDelete k) xs = AList.delete k xs"
| "spec_step OpClear xs = []"

definition om_run :: "('k, 'v) om_op list \<Rightarrow> ('k, 'v) OrderedMap" where
  "om_run ops = fold om_step ops NewOrderedMap"

definition spec_run :: "('k, 'v) om_op list \<Rightarrow> ('k \<times> 'v) list" where
  "spec_run ops = fold spec_step ops []"

lemma om_step_represents: "represents om xs \<Longrightarrow> represents (om_step op om) (spec_step op xs)"
  by (cases op) (simp_all add: OM_Set_represents OM_Delete_represents OM_Clear_represents)

lemma om_run_represents: "represents (om_run ops) (spec_run ops)"
proof -
  have "represents om xs \<Longrightarrow> represents (fold om_step ops om) (fold spec_step ops xs)"
    for om :: "('a, 'b) OrderedMap" and xs
    by (induction ops arbitrary: om xs) (auto simp: om_step_represents)
  then show ?thesis
    by (simp add: om_run_def spec_run_def NewOrderedMap_represents)
qed

lemmas represents_observers = represents_List represents_Keys represents_Values represents_Get
  represents_Len represents_Front_Back represents_Find

text \<open>
  C7. After any sequence of \<open>Set\<close>, \<open>Delete\<close> and \<open>Clear\<close> calls the doubly linked list and the index
  map of \<open>OrderedMap\<close> stand for the association list that the same calls build (a new key goes to
  the end, an existing key keeps its place): every traversal returns, \<open>List\<close>, \<open>Keys\<close> and
  \<open>Values\<close> give its entries in insertion order, and \<open>Get\<close>, \<open>Find\<close>, \<open>Len\<close>, \<open>Front\<close> and \<open>Back\<close> agree with it.
\<close>

theorem ordered_map_refines:
  "OM_List (om_run ops) = Some (spec_run ops)
   \<and> OM_Keys (om_run ops) = Some (map fst (spec_run ops))
   \<and> OM_Values (om_run ops) = Some (map snd (spec_run ops))
   \<and> OM_Find p (om_run ops) = Some (find (\<lambda>(k, v). p k v) (spec_run ops))
   \<and> OM_Get (om_run ops) k = map_of (spec_run ops) k
   \<and> OM_Len (om_run ops) = int (length (spec_run ops))
   \<and> OM_Front (om_run ops) = (case spec_run ops of [] \<Rightarrow> None | x # _ \<Rightarrow> Some x)
   \<and> OM_Back (om_run ops) = (if spec_run ops = [] then None else Some (last (spec_run ops)))"
  using represents_observers [OF om_run_represents [of ops]] by blast

end
