(* ===== verification/BoundedQueue.thy ===== *)
theory BoundedQueue
  imports GoPrelude
begin

text \<open>
  The bounded queue of \<open>internal/structure/queue.go\<close>: a slice, a capacity, a closed flag and one
  condition variable shared by the blocked producers and the blocked consumers. Every method runs
  under the queue's mutex; a blocking method gives the mutex up only inside \<open>cond.Wait\<close>. The model
  therefore cuts a method into turns, from taking the mutex to returning or to waiting, and a
  system of goroutines is a step relation whose steps are such turns in any order.
\<close>

section \<open>The queue and the turns of its methods\<close>

record 'a Queue =
  q_items :: "'a list"
  q_capacity :: int
  q_closed :: bool

text \<open>What a turn does to the condition variable before it returns.\<close>

datatype notify = Quiet | Signal | Broadcast

text \<open>A turn yields the queue, the notification, and the return value, or \<open>None\<close> if it waits.\<close>

type_synonym ('a, 'r) turn = "'a Queue \<times> notify \<times> 'r option"

text \<open>\<open>make\<close> panics on a negative capacity.\<close>

definition NewQueue :: "int \<Rightarrow> 'a Queue outcome" where
  "NewQueue cap = (if cap < 0 then Panic
     else Return \<lparr>q_items = [], q_capacity = cap, q_closed = False\<rparr>)"

definition Queue_Size :: "'a Queue \<Rightarrow> int" where
  "Queue_Size q = int (length (q_items q))"

definition Queue_Capacity :: "'a Queue \<Rightarrow> int" where
  "Queue_Capacity q = q_capacity q"

definition Queue_IsEmpty :: "'a Queue \<Rightarrow> bool" where
  "Queue_IsEmpty q = (int (length (q_items q)) = 0)"

definition Queue_IsFull :: "'a Queue \<Rightarrow> bool" where
  "Queue_IsFull q = (int (length (q_items q)) \<ge> q_capacity q)"

definition Queue_IsClosed :: "'a Queue \<Rightarrow> bool" where
  "Queue_IsClosed q = q_closed q"

definition Enqueue :: "'a \<Rightarrow> 'a Queue \<Rightarrow> ('a, bool) turn" where
  "Enqueue item q =
     (if q_closed q then (q, Quiet, Some False)
      else if int (length (q_items q)) \<ge> q_capacity q then (q, Quiet, Some False)
      else (q\<lparr>q_items := q_items q @ [item]\<rparr>, Signal, Some True))"

text \<open>
  The loop of \<open>EnqueueBlocking\<close>, entered at the start and again after every \<open>Wait\<close>. \<open>timed\<close> is
  \<open>timeout > 0\<close> and \<open>expired\<close> what \<open>time.Now().After(deadline)\<close> yields in this turn.
\<close>

definition EnqueueBlocking_loop :: "'a \<Rightarrow> bool \<Rightarrow> bool \<Rightarrow> 'a Queue \<Rightarrow> ('a, bool) turn" where
  "EnqueueBlocking_loop item timed expired q =
     (if int (length (q_items q)) \<ge> q_capacity q \<and> \<not> q_closed q
      then (if timed \<and> expired then (q, Quiet, Some False) else (q, Quiet, None))
      else if q_closed q then (q, Quiet, Some False)
      else (q\<lparr>q_items := q_items q @ [item]\<rparr>, Signal, Some True))"

definition EnqueueBlocking :: "'a \<Rightarrow> bool \<Rightarrow> bool \<Rightarrow> 'a Queue \<Rightarrow> ('a, bool) turn" where
  "EnqueueBlocking item timed expired q =
     (if q_closed q then (q, Quiet, Some False) else EnqueueBlocking_loop item timed expired q)"

definition Dequeue :: "'a Queue \<Rightarrow> ('a, 'a option) turn" where
  "Dequeue q =
     (case q_items q of
        [] \<Rightarrow> (q, Quiet, Some None)
      | item # rest \<Rightarrow> (q\<lparr>q_items := rest\<rparr>, Signal, Some (Some item)))"

definition DequeueBlocking_loop :: "bool \<Rightarrow> bool \<Rightarrow> 'a Queue \<Rightarrow> ('a, 'a option) turn" where
  "DequeueBlocking_loop timed expired q =
     (if q_items q = [] \<and> \<not> q_closed q
      then (if timed \<and> expired then (q, Quiet, Some None) else (q, Quiet, None))
      else (case q_items q of
              [] \<Rightarrow> (q, Quiet, Some None)
            | item # rest \<Rightarrow> (q\<lparr>q_items := rest\<rparr>, Signal, Some (Some item))))"

definition DequeueBlocking :: "bool \<Rightarrow> bool \<Rightarrow> 'a Queue \<Rightarrow> ('a, 'a option) turn" where
  "DequeueBlocking timed expired q = DequeueBlocking_loop timed expired q"

definition Queue_Close :: "'a Queue \<Rightarrow> ('a, unit) turn" where
  "Queue_Close q = (q\<lparr>q_closed := True\<rparr>, Broadcast, Some ())"

definition Queue_Clear :: "'a Queue \<Rightarrow> ('a, unit) turn" where
  "Queue_Clear q = (q\<lparr>q_items := []\<rparr>, Broadcast, Some ())"

lemmas queue_defs = Enqueue_def EnqueueBlocking_def EnqueueBlocking_loop_def Dequeue_def
  DequeueBlocking_def DequeueBlocking_loop_def Queue_Close_def Queue_Clear_def

section \<open>A system of goroutines on one queue\<close>

text \<open>The calls a goroutine can make; the flag of a blocking call says whether it has a timeout.\<close>

datatype 'a call =
  CallEnqueue 'a | CallEnqueueBlocking 'a bool | CallDequeue | CallDequeueBlocking bool
| CallClose | CallClear

datatype 'a reply = Accepted 'a bool | Got "'a option" | Done

definition map_turn :: "('r \<Rightarrow> 's) \<Rightarrow> ('a, 'r) turn \<Rightarrow> ('a, 's) turn" where
  "map_turn f t = (case t of (q, n, r) \<Rightarrow> (q, n, map_option f r))"

fun enter_call :: "'a call \<Rightarrow> bool \<Rightarrow> 'a Queue \<Rightarrow> ('a, 'a reply) turn" where
  "enter_call (CallEnqueue x) expired q = map_turn (Accepted x) (Enqueue x q)"
| "enter_call (CallEnqueueBlocking x timed) expired q =
     map_turn (Accepted x) (EnqueueBlocking x timed expired q)"
| "enter_call CallDequeue expired q = map_turn Got (Dequeue q)"
| "enter_call (CallDequeueBlocking timed) expired q = map_turn Got (DequeueBlocking timed expired q)"
| "enter_call CallClose expired q = map_turn (\<lambda>_. Done) (Queue_Close q)"
| "enter_call CallClear expired q = map_turn (\<lambda>_. Done) (Queue_Clear q)"

text \<open>A goroutine that comes back from \<open>Wait\<close> goes on in its loop; only blocking calls wait.\<close>

fun resume_call :: "'a call \<Rightarrow> bool \<Rightarrow> 'a Queue \<Rightarrow> ('a, 'a reply) turn" where
  "resume_call (CallEnqueueBlocking x timed) expired q =
     map_turn (Accepted x) (EnqueueBlocking_loop x timed expired q)"
| "resume_call (CallDequeueBlocking timed) expired q =
     map_turn Got (DequeueBlocking_loop timed expired q)"
| "resume_call c expired q = enter_call c expired q"

text \<open>
  The state of the system: the queue, the calls waiting on the condition variable (oldest first),
  the calls that have been notified and compete for the mutex, and two histories: the items
  accepted and the items handed out so far.
\<close>

record 'a system =
  queue :: "'a Queue"
  waiting :: "'a call list"
  woken :: "'a call list"
  accepted :: "'a list"
  delivered :: "'a list"

text \<open>
  \<open>sync.Cond\<close>: \<open>Signal\<close> wakes one waiter, if there is any, \<open>Broadcast\<close> all of them; a
  notification that finds no waiter is lost.
\<close>

inductive notifies :: "notify \<Rightarrow> 'a call list \<Rightarrow> 'a call list \<Rightarrow> 'a call list \<Rightarrow> bool" where
  quiet: "notifies Quiet ws ws []"
| broadcast: "notifies Broadcast ws [] ws"
| signal_none: "notifies Signal [] [] []"
| signal_one: "notifies Signal (xs @ c # ys) (xs @ ys) [c]"

fun accept_reply :: "'a reply option \<Rightarrow> 'a list" where
  "accept_reply (Some (Accepted x True)) = [x]"
| "accept_reply _ = []"

fun deliver_reply :: "'a reply option \<Rightarrow> 'a list" where
  "deliver_reply (Some (Got (Some x))) = [x]"
| "deliver_reply _ = []"

text \<open>The end of a turn of the call \<open>c\<close>: it returns after notifying, or it joins the waiters.\<close>

inductive end_turn :: "'a system \<Rightarrow> 'a call \<Rightarrow> ('a, 'a reply) turn \<Rightarrow> 'a system \<Rightarrow> bool" where
  returns: "notifies n (waiting s) ws new \<Longrightarrow>
     end_turn s c (q, n, Some r)
       (s\<lparr>queue := q, waiting := ws, woken := woken s @ new,
          accepted := accepted s @ accept_reply (Some r),
          delivered := delivered s @ deliver_reply (Some r)\<rparr>)"
| waits: "end_turn s c (q, n, None) (s\<lparr>queue := q, waiting := waiting s @ [c]\<rparr>)"

text \<open>A step: some goroutine makes a new call (of a kind \<open>ok\<close> allows), or a woken one goes on.\<close>

inductive queue_step :: "('a call \<Rightarrow> bool) \<Rightarrow> 'a system \<Rightarrow> 'a system \<Rightarrow> bool" for ok where
  new_call: "ok c \<Longrightarrow> end_turn s c (enter_call c expired (queue s)) s' \<Longrightarrow> queue_step ok s s'"
| resume: "woken s = xs @ c # ys \<Longrightarrow>
     end_turn (s\<lparr>woken := xs @ ys\<rparr>) c (resume_call c expired (queue s)) s' \<Longrightarrow> queue_step ok s s'"

definition initial_system :: "int \<Rightarrow> 'a system" where
  "initial_system cap =
     \<lparr>queue = \<lparr>q_items = [], q_capacity = cap, q_closed = False\<rparr>, waiting = [], woken = [],
      accepted = [], delivered = []\<rparr>"

inductive reachable :: "int \<Rightarrow> ('a call \<Rightarrow> bool) \<Rightarrow> 'a system \<Rightarrow> bool" for cap ok where
  start: "reachable cap ok (initial_system cap)"
| step: "reachable cap ok s \<Longrightarrow> queue_step ok s s' \<Longrightarrow> reachable cap ok s'"

inductive_cases end_turnE: "end_turn s c t s'"
inductive_cases notifiesE: "notifies n ws ws' new"
inductive_simps notifies_Quiet [simp]: "notifies Quiet ws ws' new"
inductive_simps notifies_Broadcast [simp]: "notifies Broadcast ws ws' new"

section \<open>What one turn does\<close>

definition turn_effect :: "'a Queue \<Rightarrow> ('a, 'a reply) turn \<Rightarrow> bool" where
  "turn_effect q t \<longleftrightarrow> (case t of (q', n, r) \<Rightarrow>
     q_capacity q' = q_capacity q
     \<and> (q_items q' = q_items q @ accept_reply r \<and> deliver_reply r = []
          \<and> (accept_reply r \<noteq> [] \<longrightarrow> int (length (q_items q)) < q_capacity q \<and> \<not> q_closed q
               \<and> length (accept_reply r) = 1)
        \<or> q_items q = deliver_reply r @ q_items q' \<and> accept_reply r = []
        \<or> q_items q' = [] \<and> accept_reply r = [] \<and> deliver_reply r = []))"

lemma enter_call_effect: "turn_effect q (enter_call c expired q)"
  by (cases c) (auto simp: turn_effect_def queue_defs map_turn_def split: list.splits)

lemma resume_call_effect: "turn_effect q (resume_call c expired q)"
  by (cases c) (auto simp: turn_effect_def queue_defs map_turn_def split: list.splits)

lemma waiting_turn_keeps_queue:
  "enter_call c expired q = (q', n, None) \<Longrightarrow> q' = q \<and> n = Quiet"
  "resume_call c expired q = (q', n, None) \<Longrightarrow> q' = q \<and> n = Quiet"
  by (cases c; auto simp: queue_defs map_turn_def split: list.splits if_splits)+

section \<open>Safety: capacity and order\<close>

definition queue_inv :: "int \<Rightarrow> 'a system \<Rightarrow> bool" where
  "queue_inv cap s \<longleftrightarrow>
     q_capacity (queue s) = cap \<and> int (length (q_items (queue s))) \<le> cap
     \<and> subseq (delivered s @ q_items (queue s)) (accepted s)"

lemma end_turn_inv:
  assumes step: "end_turn s c t s'" and eff: "turn_effect (queue s) t" and inv: "queue_inv cap s"
  shows "queue_inv cap s'"
  using step
proof cases
  case (returns n ws new q r)
  have sub: "subseq (delivered s @ q_items (queue s)) (accepted s)"
    and len: "int (length (q_items (queue s))) \<le> cap" "q_capacity (queue s) = cap"
    using inv by (auto simp: queue_inv_def)
  consider (put) "q_items q = q_items (queue s) @ accept_reply (Some r)" "deliver_reply (Some r) = []"
      "accept_reply (Some r) \<noteq> [] \<longrightarrow> int (length (q_items (queue s))) < cap \<and> length (accept_reply (Some r)) = 1"
    | (take) "q_items (queue s) = deliver_reply (Some r) @ q_items q" "accept_reply (Some r) = []"
    | (clear) "q_items q = []" "accept_reply (Some r) = []" "deliver_reply (Some r) = []"
    using eff len returns(1,2) by (auto simp: turn_effect_def simp del: accept_reply.simps deliver_reply.simps)
  then have "subseq ((delivered s @ deliver_reply (Some r)) @ q_items q) (accepted s @ accept_reply (Some r))
      \<and> int (length (q_items q)) \<le> cap"
  proof cases
    case put
    have "subseq ((delivered s @ q_items (queue s)) @ accept_reply (Some r)) (accepted s @ accept_reply (Some r))"
      using sub by (rule list_emb_append_mono) simp
    with put len show ?thesis
      by (cases "accept_reply (Some r) = []") auto
  next
    case take
    with sub len show ?thesis by simp
  next
    case clear
    then show ?thesis using sub len by (auto dest: list_emb_appendD intro: subseq_order.trans)
  qed
  moreover have "q_capacity q = cap" using eff len returns(1,2) by (simp add: turn_effect_def)
  ultimately show ?thesis using returns(1,2) by (simp add: queue_inv_def)
next
  case (waits q n)
  with eff inv show ?thesis
    by (auto simp: turn_effect_def queue_inv_def dest: list_emb_appendD intro: subseq_order.trans)
qed

lemma queue_step_inv: "queue_step ok s s' \<Longrightarrow> queue_inv cap s \<Longrightarrow> queue_inv cap s'"
proof (induction rule: queue_step.induct)
  case (new_call c s expired s')
  then show ?case using end_turn_inv enter_call_effect by blast
next
  case (resume s xs c ys expired s')
  have "queue_inv cap (s\<lparr>woken := xs @ ys\<rparr>)" using resume.prems by (simp add: queue_inv_def)
  moreover have "turn_effect (queue (s\<lparr>woken := xs @ ys\<rparr>)) (resume_call c expired (queue s))"
    by (simp add: resume_call_effect)
  ultimately show ?case using end_turn_inv resume.hyps(2) by blast
qed

lemma queue_inv_initial: "0 \<le> cap \<Longrightarrow> queue_inv cap (initial_system cap)"
  by (simp add: queue_inv_def initial_system_def)

lemma reachable_inv: "reachable cap ok s \<Longrightarrow> 0 \<le> cap \<Longrightarrow> queue_inv cap s"
  by (induction rule: reachable.induct) (blast intro: queue_inv_initial queue_step_inv)+

text \<open>
  C10. However the goroutines' turns interleave, the queue never holds more than its capacity, and
  the items handed out, followed by those still queued, are a subsequence of the items accepted:
  nothing is invented, duplicated or reordered (only \<open>Clear\<close> drops items).
\<close>

theorem queue_fifo_safe:
  assumes "reachable cap ok s" and "0 \<le> cap"
  shows "Queue_Size (queue s) \<le> Queue_Capacity (queue s)
    \<and> Queue_Capacity (queue s) = cap
    \<and> subseq (delivered s @ q_items (queue s)) (accepted s)"
  using reachable_inv [OF assms] by (simp add: queue_inv_def Queue_Size_def Queue_Capacity_def)

section \<open>Wake-ups\<close>

text \<open>Rules for building concrete runs: a new call, and the oldest woken call going on.\<close>

lemma run_call:
  "reachable cap ok s \<Longrightarrow> ok c \<Longrightarrow> end_turn s c (enter_call c expired (queue s)) s' \<Longrightarrow>
     reachable cap ok s'"
  by (blast intro: reachable.step queue_step.new_call)

lemma run_woken:
  assumes "reachable cap ok s" and "woken s = c # ys"
    and "end_turn (s\<lparr>woken := ys\<rparr>) c (resume_call c expired (queue s)) s'"
  shows "reachable cap ok s'"
proof (rule reachable.step [OF assms(1)])
  show "queue_step ok s s'"
    by (rule queue_step.resume [where xs = "[]" and c = c and ys = ys and expired = expired])
      (simp_all add: assms)
qed

lemma end_turn_waits:
  "t = (q, n, None) \<Longrightarrow> s' = s\<lparr>queue := q, waiting := waiting s @ [c]\<rparr> \<Longrightarrow> end_turn s c t s'"
  by (simp add: end_turn.waits)

lemma end_turn_returns:
  "t = (q, n, Some r) \<Longrightarrow> notifies n (waiting s) ws new \<Longrightarrow>
     s' = s\<lparr>queue := q, waiting := ws, woken := woken s @ new,
            accepted := accepted s @ accept_reply (Some r),
            delivered := delivered s @ deliver_reply (Some r)\<rparr> \<Longrightarrow> end_turn s c t s'"
  by (simp only: end_turn.returns)

lemma notifies_first: "notifies Signal (c # ys) ys [c]"
  using notifies.signal_one [of "[]" c ys] by simp

definition run_state :: "'a list \<Rightarrow> 'a call list \<Rightarrow> 'a call list \<Rightarrow> 'a list \<Rightarrow> 'a list \<Rightarrow> 'a system" where
  "run_state is ws wk ac de =
     \<lparr>queue = \<lparr>q_items = is, q_capacity = 1, q_closed = False\<rparr>,
      waiting = ws, woken = wk, accepted = ac, delivered = de\<rparr>"

lemma run_state_reaches_stuck:
  fixes x y :: 'a
  defines "D \<equiv> CallDequeueBlocking True :: 'a call" and "P \<equiv> \<lambda>v :: 'a. CallEnqueueBlocking v True"
  shows "reachable 1 (\<lambda>_. True) (run_state [] [P y, D] [] [x] [x])"
proof -
  note defs = run_state_def D_def P_def queue_defs map_turn_def
  have s0: "reachable 1 (\<lambda>_. True) (run_state [] [] [] [] [] :: 'a system)"
    using reachable.start [of 1 "\<lambda>_. True"] by (simp add: initial_system_def run_state_def)
  have s1: "reachable 1 (\<lambda>_. True) (run_state [] [D] [] [] [])"
    by (rule run_call [OF s0, of D False], simp) (rule end_turn_waits, simp_all add: defs)
  have s2: "reachable 1 (\<lambda>_. True) (run_state [] [D, D] [] [] [])"
    by (rule run_call [OF s1, of D False], simp) (rule end_turn_waits, simp_all add: defs)
  have s3: "reachable 1 (\<lambda>_. True) (run_state [x] [D] [D] [x] [])"
    by (rule run_call [OF s2, of "P x" False], simp)
      (rule end_turn_returns [where ws = "[D]" and new = "[D]" and n = Signal and r = "Accepted x True"],
        simp_all add: defs notifies_first)
  have s4: "reachable 1 (\<lambda>_. True) (run_state [x] [D, P y] [D] [x] [])"
    by (rule run_call [OF s3, of "P y" False], simp) (rule end_turn_waits, simp_all add: defs)
  have s5: "reachable 1 (\<lambda>_. True) (run_state [] [P y] [D] [x] [x])"
    by (rule run_woken [OF s4, of D "[]" False], simp add: run_state_def)
      (rule end_turn_returns [where ws = "[P y]" and new = "[D]" and n = Signal and r = "Got (Some x)"],
        simp_all add: defs notifies_first)
  show ?thesis
    by (rule run_woken [OF s5, of D "[]" False], simp add: run_state_def)
      (rule end_turn_waits, simp_all add: defs)
qed

theorem queue_fifo_safe_witness:
  "let s = run_state [] [CallEnqueueBlocking 6 True, CallDequeueBlocking True] [] [5] [5 :: nat]
   in Queue_Size (queue s) \<le> Queue_Capacity (queue s) \<and> subseq (delivered s @ q_items (queue s)) (accepted s)"
  unfolding Let_def using queue_fifo_safe [OF run_state_reaches_stuck [of "6 :: nat" 5]] by simp

text \<open>
  C33. One condition variable for both kinds of waiters loses wake-ups: with capacity 1, two blocked
  consumers and two producers reach a state where the queue is open and empty, a producer still
  waits for room in \<open>EnqueueBlocking\<close>, and no goroutine has been notified, so that nobody runs
  until some other call is made, although a turn of the producer would now succeed. Both waiting
  calls have a timeout, which does not wake them.
\<close>

theorem queue_lost_wakeup:
  "\<exists>s. reachable 1 (\<lambda>_. True) s \<and> \<not> Queue_IsClosed (queue s) \<and> \<not> Queue_IsFull (queue s)
     \<and> CallEnqueueBlocking y True \<in> set (waiting s) \<and> woken s = []
     \<and> snd (snd (resume_call (CallEnqueueBlocking y True) True (queue s))) = Some (Accepted y True)"
proof (intro exI conjI)
  show "reachable 1 (\<lambda>_. True) (run_state [] [CallEnqueueBlocking y True, CallDequeueBlocking True] [] [x] [x])"
    for x by (rule run_state_reaches_stuck)
qed (simp_all add: run_state_def Queue_IsClosed_def Queue_IsFull_def queue_defs map_turn_def)

text \<open>
  With consumers only among the blocking callers (producers use \<open>Enqueue\<close>, as in the statistics
  code) no wake-up is lost. The invariant: while somebody waits, every queued item has a notified
  consumer of its own, and the queue is open.
\<close>

definition consumer_call :: "'a call \<Rightarrow> bool" where
  "consumer_call c \<longleftrightarrow> (\<exists>timed. c = CallDequeueBlocking timed)"

definition no_blocking_producer :: "'a call \<Rightarrow> bool" where
  "no_blocking_producer c \<longleftrightarrow> (\<forall>x timed. c \<noteq> CallEnqueueBlocking x timed)"

definition wake_inv :: "'a system \<Rightarrow> bool" where
  "wake_inv s \<longleftrightarrow> (\<forall>c \<in> set (waiting s) \<union> set (woken s). consumer_call c)
     \<and> (waiting s \<noteq> [] \<longrightarrow> \<not> q_closed (queue s) \<and> length (q_items (queue s)) \<le> length (woken s))"

text \<open>The shape of the notifications, as the invariant needs it.\<close>

lemma notifies_Signal:
  "notifies Signal ws ws' new \<Longrightarrow>
     set ws' \<union> set new = set ws \<and> (ws' \<noteq> [] \<longrightarrow> length new = 1 \<and> ws \<noteq> [])"
  by (auto elim: notifiesE)

definition turn_wakes :: "'a Queue \<Rightarrow> nat \<Rightarrow> ('a, 'a reply) turn \<Rightarrow> bool" where
  "turn_wakes q used t \<longleftrightarrow> (case t of (q', n, r) \<Rightarrow>
     (r = None \<longrightarrow> q_items q' = [] \<and> \<not> q_closed q')
     \<and> (n = Broadcast
        \<or> q_closed q' = q_closed q
          \<and> (n = Signal \<and> length (q_items q') + used \<le> length (q_items q) + 1
             \<or> n = Quiet \<and> (length (q_items q') + used \<le> length (q_items q) \<or> q_items q' = [] \<or> q_closed q))))"

lemma enter_turn_wakes:
  "no_blocking_producer c \<Longrightarrow> turn_wakes q 0 (enter_call c expired q)"
  by (cases c) (auto simp: turn_wakes_def no_blocking_producer_def queue_defs map_turn_def split: list.splits if_splits)

lemma resume_turn_wakes:
  "consumer_call c \<Longrightarrow> turn_wakes q 1 (resume_call c expired q)"
  by (auto simp: turn_wakes_def consumer_call_def queue_defs map_turn_def split: list.splits if_splits)

lemma enter_waits_consumer:
  "no_blocking_producer c \<Longrightarrow> enter_call c expired q = (q', n, None) \<Longrightarrow> consumer_call c"
  by (cases c) (auto simp: no_blocking_producer_def consumer_call_def queue_defs map_turn_def
      split: list.splits if_splits)

lemma end_turn_wake_inv:
  assumes step: "end_turn s c t s'"
    and wakes: "turn_wakes (queue s) used t"
    and cons: "\<forall>d \<in> set (waiting s) \<union> set (woken s). consumer_call d"
    and inv: "waiting s \<noteq> [] \<Longrightarrow> \<not> q_closed (queue s) \<and> length (q_items (queue s)) \<le> length (woken s) + used"
    and waiter: "snd (snd t) = None \<Longrightarrow> consumer_call c"
  shows "wake_inv s'"
  using step
proof cases
  case (returns n ws new q r)
  then show ?thesis
    using wakes cons inv
    by (cases n) (auto simp: turn_wakes_def wake_inv_def dest!: notifies_Signal)
next
  case (waits q n)
  then show ?thesis using wakes cons waiter by (auto simp: turn_wakes_def wake_inv_def)
qed

lemma queue_step_wake_inv:
  assumes "queue_step no_blocking_producer s s'" and inv: "wake_inv s"
  shows "wake_inv s'"
  using assms(1)
proof cases
  case (new_call c expired)
  show ?thesis
  proof (rule end_turn_wake_inv [OF new_call(2) enter_turn_wakes [OF new_call(1)]])
    show "consumer_call c" if "snd (snd (enter_call c expired (queue s))) = None"
      using that enter_waits_consumer [OF new_call(1)] by (metis prod.collapse)
  qed (use inv in \<open>auto simp: wake_inv_def\<close>)
next
  case (resume xs c ys expired)
  have c: "consumer_call c" using inv resume(1) by (simp add: wake_inv_def)
  show ?thesis
    by (rule end_turn_wake_inv [OF resume(2), of 1])
      (use inv resume(1) c in \<open>auto simp: wake_inv_def resume_turn_wakes [OF c, simplified]\<close>)
qed

lemma reachable_wake_inv: "reachable cap no_blocking_producer s \<Longrightarrow> wake_inv s"
  by (induction rule: reachable.induct)
    (simp add: wake_inv_def initial_system_def, rule queue_step_wake_inv)

text \<open>
  When no goroutine blocks in \<open>EnqueueBlocking\<close>, no wake-up is lost: whenever a consumer
  waits, the queue is open and every queued item has its own consumer already notified, so a
  consumer never waits forever beside an item.
\<close>

theorem queue_consumers_woken:
  assumes "reachable cap no_blocking_producer s" and "waiting s \<noteq> []"
  shows "\<not> Queue_IsClosed (queue s) \<and> Queue_Size (queue s) \<le> int (length (woken s))
     \<and> (\<forall>c \<in> set (waiting s). \<exists>timed. c = CallDequeueBlocking timed)"
  using reachable_wake_inv [OF assms(1)] assms(2)
  by (auto simp: wake_inv_def Queue_IsClosed_def Queue_Size_def consumer_call_def)

lemma consumer_waits_reachable:
  "reachable 1 no_blocking_producer (run_state [] [CallDequeueBlocking True] [] [] [])"
proof (rule run_call)
  show "reachable 1 no_blocking_producer (run_state [] [] [] [] [])"
    using reachable.start [of 1 no_blocking_producer] by (simp add: initial_system_def run_state_def)
  show "end_turn (run_state [] [] [] [] []) (CallDequeueBlocking True)
      (enter_call (CallDequeueBlocking True) False (queue (run_state [] [] [] [] [])))
      (run_state [] [CallDequeueBlocking True] [] [] [])"
    by (rule end_turn_waits) (simp_all add: run_state_def queue_defs map_turn_def)
qed (simp add: no_blocking_producer_def)

theorem queue_consumers_woken_witness:
  "Queue_Size (queue (run_state [] [CallDequeueBlocking True] [] [] [] :: nat system)) \<le> 0"
  using queue_consumers_woken [OF consumer_waits_reachable [where 'a = nat]] by (simp add: run_state_def)

end
