(* ===== verification/Float64.thy ===== *)
theory Float64
  imports GoPrelude Complex_Main
begin

text \<open>
  Go's \<open>float64\<close>: a finite value is the rational number it denotes, and every operation rounds
  the exact result to 53 binary digits, ties to even, as IEEE 754 prescribes. The exponent is
  unbounded: with the magnitudes of this program (64-bit counts divided by or multiplied with
  64-bit nanosecond counts) no result overflows or becomes subnormal. The two zeros are not told
  apart; the program never divides by a computed zero of negative sign.
\<close>

section \<open>Rounding to 53 bits\<close>

fun bitlen :: "nat \<Rightarrow> nat" where
  "bitlen n = (if n = 0 then 0 else Suc (bitlen (n div 2)))"

declare bitlen.simps [simp del]

lemma bitlen_bounds: "0 < n \<Longrightarrow> 2 ^ (bitlen n - 1) \<le> n \<and> n < 2 ^ bitlen n \<and> 0 < bitlen n"
proof (induction n rule: bitlen.induct)
  case (1 n)
  show ?case
  proof (cases "n div 2 = 0")
    case True
    with "1.prems" have "n = 1" by simp
    then show ?thesis by (simp add: bitlen.simps)
  next
    case False
    with "1.IH" "1.prems" have IH: "2 ^ (bitlen (n div 2) - 1) \<le> n div 2" "n div 2 < 2 ^ bitlen (n div 2)"
        "0 < bitlen (n div 2)" by auto
    have "(2 :: nat) ^ bitlen (n div 2) = 2 * 2 ^ (bitlen (n div 2) - 1)"
      using IH(3) by (metis power_eq_if not_gr_zero)
    with IH have "2 ^ bitlen (n div 2) \<le> n" "n < 2 * 2 ^ bitlen (n div 2)" by linarith+
    with "1.prems" show ?thesis by (simp add: bitlen.simps [of n])
  qed
qed

text \<open>The exponent \<open>e\<close> of a positive rational: \<open>2 ^ e \<le> x < 2 ^ (e + 1)\<close>.\<close>

definition exponent :: "rat \<Rightarrow> int" where
  "exponent x = (let (a, b) = quotient_of x;
                     e = int (bitlen (nat a)) - int (bitlen (nat b))
                 in if 2 powi e \<le> x then e else e - 1)"

lemma exponent_bounds:
  assumes "0 < x"
  shows "2 powi (exponent x) \<le> x" and "x < 2 powi (exponent x + 1)"
proof -
  obtain a b where q: "quotient_of x = (a, b)" by (meson surj_pair)
  then have b: "0 < b" and x: "x = of_int a / of_int b"
    by (auto simp: quotient_of_denom_pos intro: quotient_of_div)
  with assms have a: "0 < a" by (simp add: zero_less_divide_iff)
  define m n where "m = bitlen (nat a)" and "n = bitlen (nat b)"
  have A: "2 ^ (m - 1) \<le> nat a" "nat a < 2 ^ m" "0 < m"
    and B: "2 ^ (n - 1) \<le> nat b" "nat b < 2 ^ n" "0 < n"
    using a b bitlen_bounds [of "nat a"] bitlen_bounds [of "nat b"] by (simp_all add: m_def n_def)
  have A': "2 powi (int m - 1) \<le> (of_int a :: rat)" "(of_int a :: rat) < 2 powi int m"
    and B': "2 powi (int n - 1) \<le> (of_int b :: rat)" "(of_int b :: rat) < 2 powi int n"
  proof -
    have conv: "(2 :: rat) powi (int k - 1) = of_int (2 ^ (k - 1))" "(2 :: rat) powi int k = of_int (2 ^ k)"
      if "0 < k" for k :: nat
      using that by (simp_all add: power_int_def nat_diff_distrib')
    have i: "(2 :: int) ^ (m - 1) \<le> a" "a < (2 :: int) ^ m" "(2 :: int) ^ (n - 1) \<le> b" "b < (2 :: int) ^ n"
      using A B a b by (simp_all add: nat_le_iff nat_less_iff zless_nat_eq_int_zless le_nat_iff)
    show "2 powi (int m - 1) \<le> (of_int a :: rat)" "(of_int a :: rat) < 2 powi int m"
      "2 powi (int n - 1) \<le> (of_int b :: rat)" "(of_int b :: rat) < 2 powi int n"
      using i A(3) B(3) by (simp_all only: conv of_int_le_iff of_int_less_iff)
  qed
  define e where "e = int m - int n"
  have pos: "0 < (of_int b :: rat)" using b by simp
  have hi: "x < 2 powi (e + 1)"
  proof -
    have "(of_int a :: rat) < 2 powi (e + 1) * 2 powi (int n - 1)"
      using A'(2) by (simp add: e_def power_int_add [symmetric])
    also have "\<dots> \<le> 2 powi (e + 1) * of_int b" using B'(1) by (simp add: mult_left_mono)
    finally show ?thesis using pos by (simp add: x pos_divide_less_eq)
  qed
  have lo: "2 powi (e - 1) \<le> x"
  proof -
    have "2 powi (e - 1) * of_int b \<le> 2 powi (e - 1) * (2 :: rat) powi int n" using B'(2) by (simp add: mult_left_mono)
    also have "\<dots> = 2 powi (int m - 1)"
      using power_int_add [of "2 :: rat" "e - 1" "int n"] by (simp add: e_def del: power_int_of_nat)
    also have "\<dots> \<le> of_int a" by (rule A'(1))
    finally show ?thesis using pos by (simp add: x pos_le_divide_eq)
  qed
  have e: "exponent x = (if 2 powi e \<le> x then e else e - 1)"
    by (simp add: exponent_def q m_def n_def e_def Let_def)
  show "2 powi (exponent x) \<le> x" "x < 2 powi (exponent x + 1)"
    using e hi lo by (auto split: if_splits)
qed

lemma exponent_mono:
  assumes "0 < x" and "x \<le> y"
  shows "exponent x \<le> exponent y"
proof (rule ccontr)
  assume "\<not> ?thesis"
  then have "(2 :: rat) powi (exponent y + 1) \<le> 2 powi exponent x" by (simp add: power_int_increasing)
  with exponent_bounds [of x] exponent_bounds [of y] assms show False by linarith
qed

lemma exponent_unique:
  assumes "2 powi e \<le> x" and "x < 2 powi (e + 1)"
  shows "exponent x = e"
proof -
  have x: "0 < x" using assms(1) less_le_trans [of 0 "2 powi e" x] by simp
  have "\<not> exponent x < e"
  proof
    assume "exponent x < e"
    then have "(2 :: rat) powi (exponent x + 1) \<le> 2 powi e" by (simp add: power_int_increasing)
    with exponent_bounds(2) [OF x] assms(1) show False by linarith
  qed
  moreover have "\<not> e < exponent x"
  proof
    assume "e < exponent x"
    then have "(2 :: rat) powi (e + 1) \<le> 2 powi exponent x" by (simp add: power_int_increasing)
    with exponent_bounds(1) [OF x] assms(2) show False by linarith
  qed
  ultimately show ?thesis by simp
qed

text \<open>The numbers with exponent \<open>e\<close> are the multiples of \<open>2 ^ (e - 52)\<close> from \<open>2 ^ 52\<close> to \<open>2 ^ 53\<close> times it.\<close>

lemma ulp_scale:
  "of_int (2 ^ 52) * 2 powi (e - 52) = (2 :: rat) powi e"
  "of_int (2 ^ 53) * 2 powi (e - 52) = (2 :: rat) powi (e + 1)"
  using power_int_add [of "2 :: rat" 52 "e - 52"] power_int_add [of "2 :: rat" 53 "e - 52"]
  by (simp_all add: add.commute)

text \<open>Rounding to an integer, ties to even.\<close>

definition round_even :: "rat \<Rightarrow> int" where
  "round_even x = (let f = \<lfloor>x\<rfloor>; d = x - of_int f
     in if d < 1 / 2 then f else if d > 1 / 2 then f + 1 else if even f then f else f + 1)"

lemma round_even_of_int [simp]: "round_even (of_int n) = n"
  by (simp add: round_even_def)

lemma round_even_floor: "\<lfloor>x\<rfloor> \<le> round_even x" "round_even x \<le> \<lfloor>x\<rfloor> + 1"
  by (simp_all add: round_even_def Let_def)

lemma round_even_mono: "x \<le> y \<Longrightarrow> round_even x \<le> round_even y"
proof -
  assume le: "x \<le> y"
  then have fl: "\<lfloor>x\<rfloor> \<le> \<lfloor>y\<rfloor>" by (rule floor_mono)
  show ?thesis
  proof (cases "\<lfloor>x\<rfloor> = \<lfloor>y\<rfloor>")
    case True
    with le show ?thesis by (auto simp: round_even_def Let_def)
  next
    case False
    with fl have "\<lfloor>x\<rfloor> + 1 \<le> \<lfloor>y\<rfloor>" by simp
    with round_even_floor show ?thesis by (meson order.trans)
  qed
qed

definition round_pos :: "rat \<Rightarrow> rat" where
  "round_pos x = (let u = 2 powi (exponent x - 52) in of_int (round_even (x / u)) * u)"

definition round53 :: "rat \<Rightarrow> rat" where
  "round53 x = (if x = 0 then 0 else if 0 < x then round_pos x else - round_pos (- x))"

lemma round_pos_bounds:
  assumes "0 < x"
  shows "2 powi exponent x \<le> round_pos x" and "round_pos x \<le> 2 powi (exponent x + 1)"
proof -
  define e where "e = exponent x"
  define u :: rat where "u = 2 powi (e - 52)"
  have u: "0 < u" by (simp add: u_def)
  have lo: "of_int (2 ^ 52) * u = 2 powi e" and hi: "of_int (2 ^ 53) * u = 2 powi (e + 1)"
    using ulp_scale [of e] by (simp_all only: u_def)
  have "of_int (2 ^ 52) \<le> x / u" "x / u \<le> of_int (2 ^ 53)"
    using exponent_bounds [OF assms] lo hi u unfolding e_def [symmetric]
    by (simp_all add: pos_le_divide_eq pos_divide_le_eq)
  then have "2 ^ 52 \<le> round_even (x / u)" "round_even (x / u) \<le> 2 ^ 53"
    using round_even_mono round_even_of_int by metis+
  then have "of_int (2 ^ 52) * u \<le> of_int (round_even (x / u)) * u"
    "of_int (round_even (x / u)) * u \<le> of_int (2 ^ 53) * u"
    using u by (simp_all only: mult_le_cancel_right_pos of_int_le_iff)
  then show "2 powi exponent x \<le> round_pos x" "round_pos x \<le> 2 powi (exponent x + 1)"
    unfolding lo hi by (simp_all only: round_pos_def Let_def e_def u_def)
qed

lemma round_pos_positive: "0 < x \<Longrightarrow> 0 < round_pos x"
  using round_pos_bounds(1) [of x] less_le_trans [of 0 "2 powi exponent x" "round_pos x"] by simp

lemma round_pos_mono:
  assumes "0 < x" and "x \<le> y"
  shows "round_pos x \<le> round_pos y"
proof (cases "exponent x = exponent y")
  case True
  have "x / 2 powi (exponent y - 52) \<le> y / 2 powi (exponent y - 52)"
    using assms(2) by (simp add: divide_right_mono)
  then show ?thesis
    using True by (simp add: round_pos_def Let_def round_even_mono mult_right_mono)
next
  case False
  with exponent_mono [OF assms] have "exponent x + 1 \<le> exponent y" by simp
  then have "(2 :: rat) powi (exponent x + 1) \<le> 2 powi exponent y" by (simp add: power_int_increasing)
  with round_pos_bounds(2) [OF assms(1)] round_pos_bounds(1) [of y] assms show ?thesis by simp
qed

lemma round53_mono: "x \<le> y \<Longrightarrow> round53 x \<le> round53 y"
proof -
  assume le: "x \<le> y"
  consider "0 < x" | "y < 0" | "x \<le> 0" "0 \<le> y" by linarith
  then show ?thesis
  proof cases
    case 1
    with le round_pos_mono show ?thesis by (simp add: round53_def)
  next
    case 2
    with le round_pos_mono [of "- y" "- x"] show ?thesis by (simp add: round53_def)
  next
    case 3
    have "round53 x \<le> 0" "0 \<le> round53 y"
      using 3 round_pos_positive [of "- x"] round_pos_positive [of y] by (auto simp: round53_def)
    then show ?thesis by simp
  qed
qed

lemma round53_0 [simp]: "round53 0 = 0"
  by (simp add: round53_def)

lemma round53_uminus: "round53 (- x) = - round53 x"
  by (simp add: round53_def)

text \<open>The values a \<open>float64\<close> holds, and that rounding leaves them alone.\<close>

definition representable :: "rat \<Rightarrow> bool" where
  "representable x \<longleftrightarrow> round53 x = x"

lemma round_pos_fixed:
  assumes "2 ^ 52 \<le> k" and "k < 2 ^ 53"
  shows "round_pos (of_int k * 2 powi (e - 52)) = of_int k * 2 powi (e - 52)"
proof -
  define u :: rat where "u = 2 powi (e - 52)"
  have u: "0 < u" by (simp add: u_def)
  have lo: "of_int (2 ^ 52) * u = 2 powi e" and hi: "of_int (2 ^ 53) * u = 2 powi (e + 1)"
    using ulp_scale [of e] by (simp_all only: u_def)
  have "of_int (2 ^ 52) * u \<le> of_int k * u" "of_int k * u < of_int (2 ^ 53) * u"
    using assms u by (simp_all only: mult_le_cancel_right_pos mult_less_cancel_right_pos of_int_le_iff of_int_less_iff)
  then have "exponent (of_int k * u) = e"
    using lo hi by (intro exponent_unique) simp_all
  then show ?thesis using u by (simp add: round_pos_def Let_def u_def)
qed

lemma round_pos_power: "round_pos (2 powi e) = 2 powi e"
  using round_pos_fixed [of "2 ^ 52" e] power_int_add [of "2 :: rat" 52 "e - 52"] by simp

lemma round_pos_idem:
  assumes "0 < x"
  shows "round_pos (round_pos x) = round_pos x"
proof -
  define e k where "e = exponent x" and "k = round_even (x / 2 powi (exponent x - 52))"
  have r: "round_pos x = of_int k * 2 powi (e - 52)"
    by (simp add: round_pos_def Let_def e_def k_def)
  have lo: "of_int (2 ^ 52) * 2 powi (e - 52) = (2 :: rat) powi e"
    and hi: "of_int (2 ^ 53) * 2 powi (e - 52) = (2 :: rat) powi (e + 1)"
    using ulp_scale [of e] by simp_all
  have "of_int (2 ^ 52) * 2 powi (e - 52) \<le> of_int k * (2 :: rat) powi (e - 52)"
    "of_int k * (2 :: rat) powi (e - 52) \<le> of_int (2 ^ 53) * 2 powi (e - 52)"
    using round_pos_bounds [OF assms] by (simp_all only: lo hi r e_def [symmetric])
  then have "of_int (2 ^ 52) \<le> (of_int k :: rat)" "(of_int k :: rat) \<le> of_int (2 ^ 53)"
    by (simp_all only: mult_le_cancel_right_pos zero_less_power_int zero_less_numeral)
  then have k: "2 ^ 52 \<le> k" "k \<le> 2 ^ 53" by (simp_all only: of_int_le_iff)
  show ?thesis
  proof (cases "k = 2 ^ 53")
    case True
    then have "round_pos x = 2 powi (e + 1)" using hi r by (simp only:)
    then show ?thesis using round_pos_power by simp
  next
    case False
    with k have "k < 2 ^ 53" by simp
    then show ?thesis using k(1) r round_pos_fixed by (simp only:)
  qed
qed

lemma representable_round53 [simp]: "representable (round53 x)"
  using round_pos_idem [of x] round_pos_idem [of "- x"] round_pos_positive [of x] round_pos_positive [of "- x"]
  by (auto simp: representable_def round53_def)

lemma representable_0 [simp]: "representable 0"
  by (simp add: representable_def)

lemma representable_1 [simp]: "representable 1"
  using round_pos_power [of 0] by (simp add: representable_def round53_def)

lemma round53_pos_mono: "0 \<le> x \<Longrightarrow> 0 \<le> round53 x"
  using round53_mono [of 0 x] by simp

text \<open>Integers of at most 53 bits are representable.\<close>

lemma round53_small_nat:
  assumes "0 < k" and "k \<le> 2 ^ 53"
  shows "round_pos (of_int k) = of_int k"
proof (cases "k = 2 ^ 53")
  case True
  then show ?thesis using round_pos_power [of 53] by simp
next
  case False
  define e where "e = exponent (of_int k)"
  have b: "2 powi e \<le> (of_int k :: rat)" "(of_int k :: rat) < 2 powi (e + 1)"
    using exponent_bounds [of "of_int k"] assms(1) by (simp_all add: e_def)
  have "exponent (2 powi 0) \<le> e" using exponent_mono [of "2 powi 0" "of_int k"] assms(1) by (simp add: e_def)
  then have e0: "0 \<le> e" using exponent_unique [of 0 "2 powi 0"] by simp
  have "(of_int k :: rat) < of_int (2 ^ 53)" using False assms(2) by (simp only: of_int_less_iff)
  with b(1) have "(2 :: rat) powi e < 2 powi 53" by simp
  then have e52: "e \<le> 52" using power_int_increasing [of 53 e "2 :: rat"] by linarith
  define j where "j = nat (52 - e)"
  have j: "int j = 52 - e" using e52 by (simp add: j_def)
  have scaled: "(of_int (k * 2 ^ j) :: rat) * 2 powi (e - 52) = of_int k"
  proof -
    have "(2 :: rat) ^ j * 2 powi (e - 52) = 2 powi (int j) * 2 powi (e - 52)" by simp
    also have "\<dots> = 2 powi (int j + (e - 52))" by (rule power_int_add [symmetric]) simp
    also have "\<dots> = 1" by (simp add: j)
    finally show ?thesis by simp
  qed
  have "of_int (2 ^ 52) * 2 powi (e - 52) \<le> (of_int (k * 2 ^ j) :: rat) * 2 powi (e - 52)"
    "(of_int (k * 2 ^ j) :: rat) * 2 powi (e - 52) < of_int (2 ^ 53) * 2 powi (e - 52)"
    using b by (simp_all only: scaled ulp_scale)
  then have "of_int (2 ^ 52) \<le> (of_int (k * 2 ^ j) :: rat)" "(of_int (k * 2 ^ j) :: rat) < of_int (2 ^ 53)"
    by (simp_all only: mult_le_cancel_right_pos mult_less_cancel_right_pos zero_less_power_int zero_less_numeral)
  then have "2 ^ 52 \<le> k * 2 ^ j" "k * 2 ^ j < 2 ^ 53" by (simp_all only: of_int_le_iff of_int_less_iff)
  from round_pos_fixed [OF this, of e] show ?thesis unfolding scaled .
qed

lemma round53_small_int: "0 \<le> k \<Longrightarrow> k \<le> 2 ^ 53 \<Longrightarrow> round53 (of_int k) = of_int k"
  using round53_small_nat [of k] by (cases "k = 0") (simp_all add: round53_def)

section \<open>Values and operations\<close>

datatype float64 = Fin rat | PInf | NInf | NaN

definition float_of_int :: "int \<Rightarrow> float64" where
  "float_of_int n = Fin (round53 (of_int n))"

fun fneg :: "float64 \<Rightarrow> float64" where
  "fneg (Fin a) = Fin (- a)"
| "fneg PInf = NInf"
| "fneg NInf = PInf"
| "fneg NaN = NaN"

fun fadd :: "float64 \<Rightarrow> float64 \<Rightarrow> float64" where
  "fadd NaN y = NaN"
| "fadd x NaN = NaN"
| "fadd (Fin a) (Fin b) = Fin (round53 (a + b))"
| "fadd (Fin a) y = y"
| "fadd x (Fin b) = x"
| "fadd PInf NInf = NaN"
| "fadd NInf PInf = NaN"
| "fadd x y = x"

definition fsub :: "float64 \<Rightarrow> float64 \<Rightarrow> float64" where
  "fsub x y = fadd x (fneg y)"

text \<open>An infinity of the sign of \<open>q\<close>; the product of zero and an infinity is not a number.\<close>

definition finf :: "rat \<Rightarrow> float64" where
  "finf q = (if 0 < q then PInf else if q < 0 then NInf else NaN)"

fun fmul :: "float64 \<Rightarrow> float64 \<Rightarrow> float64" where
  "fmul NaN y = NaN"
| "fmul x NaN = NaN"
| "fmul (Fin a) (Fin b) = Fin (round53 (a * b))"
| "fmul (Fin a) PInf = finf a"
| "fmul (Fin a) NInf = finf (- a)"
| "fmul PInf (Fin b) = finf b"
| "fmul NInf (Fin b) = finf (- b)"
| "fmul PInf PInf = PInf"
| "fmul PInf NInf = NInf"
| "fmul NInf PInf = NInf"
| "fmul NInf NInf = PInf"

text \<open>Division by a zero (positive in this program) gives an infinity of the dividend's sign.\<close>

fun fdiv :: "float64 \<Rightarrow> float64 \<Rightarrow> float64" where
  "fdiv NaN y = NaN"
| "fdiv x NaN = NaN"
| "fdiv (Fin a) (Fin b) = (if b = 0 then finf a else Fin (round53 (a / b)))"
| "fdiv (Fin a) y = Fin 0"
| "fdiv PInf (Fin b) = (if b = 0 then PInf else finf b)"
| "fdiv NInf (Fin b) = (if b = 0 then NInf else finf (- b))"
| "fdiv x y = NaN"

fun fless :: "float64 \<Rightarrow> float64 \<Rightarrow> bool" where
  "fless NaN y = False"
| "fless x NaN = False"
| "fless (Fin a) (Fin b) = (a < b)"
| "fless NInf y = (y \<noteq> NInf)"
| "fless x PInf = (x \<noteq> PInf)"
| "fless x y = False"

fun fleq :: "float64 \<Rightarrow> float64 \<Rightarrow> bool" where
  "fleq NaN y = False"
| "fleq x NaN = False"
| "fleq (Fin a) (Fin b) = (a \<le> b)"
| "fleq NInf y = True"
| "fleq x PInf = True"
| "fleq x y = False"

text \<open>\<open>Duration.Seconds\<close>: the whole seconds plus the remaining nanoseconds over 1e9.\<close>

definition duration_seconds :: "duration \<Rightarrow> float64" where
  "duration_seconds d =
     fadd (float_of_int (go_div d Second))
       (fdiv (float_of_int (go_mod d Second)) (Fin (10 ^ 9)))"

text \<open>A value held by a \<open>float64\<close> variable is a special value or a representable number.\<close>

fun wf_float :: "float64 \<Rightarrow> bool" where
  "wf_float (Fin a) = representable a"
| "wf_float _ = True"

lemma wf_float_of_int [simp]: "wf_float (float_of_int n)"
  by (simp add: float_of_int_def)

lemma float_of_int_0 [simp]: "float_of_int 0 = Fin 0"
  by (simp add: float_of_int_def)

lemma float_of_int_nonneg: "0 \<le> n \<Longrightarrow> \<exists>a. float_of_int n = Fin a \<and> 0 \<le> a"
  by (simp add: float_of_int_def round53_pos_mono)

end
