(* ===== verification/Limiters.thy ===== *)
theory Limiters
  imports GoMaps Float64
begin

text \<open>
  The rate limiting strategies of \<open>gateway/flow_control\<close>: \<open>fixed_window.go\<close>,
  \<open>sliding_window.go\<close>, \<open>leaky_bucket.go\<close> and \<open>token_bucket.go\<close>, and the interface
  \<open>LimiterStrategy\<close> they implement. Every method runs under the limiter's mutex. A call reads the
  clock several times: \<open>now i\<close> is the \<open>i\<close>-th \<open>time.Now()\<close> of that call.
\<close>

type_synonym readings = "nat \<Rightarrow> time"

text \<open>The clock never goes back, neither within a call nor from one call to the next.\<close>

definition mono_readings :: "readings \<Rightarrow> bool" where
  "mono_readings now \<longleftrightarrow> (\<forall>i. now i \<le> now (Suc i))"

fun clock_runs :: "time \<Rightarrow> readings list \<Rightarrow> bool" where
  "clock_runs t [] = True"
| "clock_runs t (now # nows) = (t \<le> now 0 \<and> now 0 \<le> now 1 \<and> now 1 \<le> now 2 \<and> clock_runs (now 2) nows)"

text \<open>The answers of a sequence of calls, and the instants of the calls that were allowed.\<close>

fun run_allow :: "(readings \<Rightarrow> 's \<Rightarrow> 's \<times> bool) \<Rightarrow> readings list \<Rightarrow> 's \<Rightarrow> bool list \<times> 's" where
  "run_allow allow [] s = ([], s)"
| "run_allow allow (now # nows) s =
     (let (s', ok) = allow now s; (oks, s'') = run_allow allow nows s' in (ok # oks, s''))"

definition allowed_at :: "(readings \<Rightarrow> time) \<Rightarrow> readings list \<Rightarrow> bool list \<Rightarrow> time list" where
  "allowed_at rd nows oks = map (rd \<circ> fst) (filter snd (zip nows oks))"

lemma allowed_at_simps [simp]:
  "allowed_at rd [] oks = []"
  "allowed_at rd (now # nows) (ok # oks) = (if ok then rd now # allowed_at rd nows oks else allowed_at rd nows oks)"
  by (simp_all add: allowed_at_def)

definition count_in :: "time \<Rightarrow> time \<Rightarrow> time list \<Rightarrow> nat" where
  "count_in a b ts = length (filter (\<lambda>t. a < t \<and> t \<le> b) ts)"

lemma count_in_simps [simp]:
  "count_in a b [] = 0"
  "count_in a b (t # ts) = (if a < t \<and> t \<le> b then Suc (count_in a b ts) else count_in a b ts)"
  by (simp_all add: count_in_def)

section \<open>Fixed window\<close>

record FixedWindowLimiter =
  fw_limit :: int
  fw_window :: duration
  fw_count :: int
  fw_resetTime :: time
  fw_lastAccess :: time

definition NewFixedWindowLimiter :: "int \<Rightarrow> duration \<Rightarrow> readings \<Rightarrow> FixedWindowLimiter" where
  "NewFixedWindowLimiter limit window now =
     \<lparr>fw_limit = limit, fw_window = window, fw_count = 0,
      fw_resetTime = time_add (now 0) window, fw_lastAccess = now 1\<rparr>"

definition FixedWindow_Allow :: "readings \<Rightarrow> FixedWindowLimiter \<Rightarrow> FixedWindowLimiter \<times> bool" where
  "FixedWindow_Allow now l =
     (let l = l\<lparr>fw_lastAccess := now 0\<rparr>;
          l = (if time_after (now 1) (fw_resetTime l)
               then l\<lparr>fw_count := 0, fw_resetTime := time_add (now 2) (fw_window l)\<rparr> else l)
      in if fw_count l < fw_limit l then (l\<lparr>fw_count := fw_count l + 1\<rparr>, True) else (l, False))"

definition FixedWindow_LastAccess :: "FixedWindowLimiter \<Rightarrow> time" where
  "FixedWindow_LastAccess l = fw_lastAccess l"

definition fw_inv :: "FixedWindowLimiter \<Rightarrow> bool" where
  "fw_inv l \<longleftrightarrow> 0 \<le> fw_count l \<and> (0 \<le> fw_limit l \<longrightarrow> fw_count l \<le> fw_limit l)"

lemma fw_inv_new: "fw_inv (NewFixedWindowLimiter limit window now)"
  by (simp add: fw_inv_def NewFixedWindowLimiter_def)

lemma fw_inv_allow: "fw_inv l \<Longrightarrow> fw_inv (fst (FixedWindow_Allow now l))"
  by (auto simp: fw_inv_def FixedWindow_Allow_def Let_def)

lemma fw_last_allow: "FixedWindow_LastAccess (fst (FixedWindow_Allow now l)) = now 0"
  by (simp add: FixedWindow_LastAccess_def FixedWindow_Allow_def Let_def)

lemma fw_allow_fields:
  "FixedWindow_Allow now l = (l', ok) \<Longrightarrow> fw_limit l' = fw_limit l \<and> fw_window l' = fw_window l"
  by (auto simp: FixedWindow_Allow_def Let_def split: if_splits)

text \<open>A call in the current window, and a call that starts a new one.\<close>

lemma fw_allow_same:
  "FixedWindow_Allow now l = (l', ok) \<Longrightarrow> now 1 \<le> fw_resetTime l \<Longrightarrow>
     fw_resetTime l' = fw_resetTime l \<and> fw_count l' = fw_count l + (if ok then 1 else 0)
     \<and> ok = (fw_count l < fw_limit l)"
  by (auto simp: FixedWindow_Allow_def Let_def time_after_def split: if_splits)

lemma fw_allow_reset:
  "FixedWindow_Allow now l = (l', ok) \<Longrightarrow> fw_resetTime l < now 1 \<Longrightarrow>
     fw_resetTime l' = now 2 + fw_window l \<and> fw_count l' = (if ok then 1 else 0) \<and> ok = (0 < fw_limit l)"
  by (auto simp: FixedWindow_Allow_def Let_def time_after_def time_add_def split: if_splits)

text \<open>The instants counted for a fixed window: the clock reading that decides on the reset.\<close>

definition fw_allowed :: "readings list \<Rightarrow> FixedWindowLimiter \<Rightarrow> time list" where
  "fw_allowed nows l = allowed_at (\<lambda>now. now 1) nows (fst (run_allow FixedWindow_Allow nows l))"

lemma fw_allowed_simps:
  "fw_allowed [] l = []"
  "FixedWindow_Allow now l = (l', ok) \<Longrightarrow>
     fw_allowed (now # nows) l = (if ok then now 1 # fw_allowed nows l' else fw_allowed nows l')"
  by (simp_all add: fw_allowed_def split: prod.split)

lemma fw_allowed_after: "clock_runs t nows \<Longrightarrow> u \<in> set (fw_allowed nows l) \<Longrightarrow> t \<le> u"
proof (induction nows arbitrary: t l)
  case (Cons now nows)
  obtain l' ok where a: "FixedWindow_Allow now l = (l', ok)" by (meson surj_pair)
  from Cons.prems have clk: "t \<le> now 0" "now 0 \<le> now 1" "now 1 \<le> now 2" "clock_runs (now 2) nows" by auto
  from Cons.prems(2) consider "u = now 1" | "u \<in> set (fw_allowed nows l')"
    by (auto simp: fw_allowed_simps(2) [OF a] split: if_splits)
  then show ?case
  proof cases
    case 2
    with Cons.IH [OF clk(4)] clk show ?thesis by fastforce
  qed (use clk in simp)
qed (simp add: fw_allowed_simps)

lemma fw_allowed_late:
  assumes "clock_runs t nows" and "b < t"
  shows "count_in a b (fw_allowed nows l) = 0"
  using fw_allowed_after [OF assms(1)] assms(2) by (fastforce simp: count_in_def filter_empty_conv)

text \<open>While the window lasts beyond \<open>b\<close>, only what is left of the limit is allowed up to \<open>b\<close>.\<close>

lemma fw_no_reset_bound:
  "clock_runs t nows \<Longrightarrow> b \<le> fw_resetTime l \<Longrightarrow> fw_count l \<le> fw_limit l \<Longrightarrow>
     int (count_in a b (fw_allowed nows l)) \<le> fw_limit l - fw_count l"
proof (induction nows arbitrary: t l)
  case (Cons now nows)
  obtain l' ok where al: "FixedWindow_Allow now l = (l', ok)" by (meson surj_pair)
  from Cons.prems have clk: "clock_runs (now 2) nows" "now 1 \<le> now 2" by auto
  show ?case
  proof (cases "now 1 \<le> b")
    case True
    with Cons.prems have s: "fw_resetTime l' = fw_resetTime l" "ok = (fw_count l < fw_limit l)"
      "fw_count l' = fw_count l + (if ok then 1 else 0)" "fw_limit l' = fw_limit l"
      using fw_allow_same [OF al] fw_allow_fields [OF al] by auto
    then have "int (count_in a b (fw_allowed nows l')) \<le> fw_limit l' - fw_count l'"
      using Cons.prems by (intro Cons.IH [OF clk(1)]) auto
    with s show ?thesis by (auto simp: fw_allowed_simps(2) [OF al] split: if_splits)
  next
    case False
    then have "count_in a b (fw_allowed nows l') = 0"
      using clk by (intro fw_allowed_late) auto
    with False Cons.prems show ?thesis by (auto simp: fw_allowed_simps(2) [OF al])
  qed
qed (simp add: fw_allowed_simps)

lemma fw_late_start_bound:
  "clock_runs t nows \<Longrightarrow> (nows \<noteq> [] \<longrightarrow> a < hd nows 1) \<Longrightarrow> 0 \<le> fw_count l \<Longrightarrow> fw_count l \<le> fw_limit l \<Longrightarrow>
     int (count_in a (a + fw_window l) (fw_allowed nows l)) \<le> 2 * fw_limit l - fw_count l"
proof (induction nows arbitrary: t l)
  case (Cons now nows)
  obtain l' ok where al: "FixedWindow_Allow now l = (l', ok)" by (meson surj_pair)
  from Cons.prems have clk: "clock_runs (now 2) nows" "now 1 \<le> now 2" "a < now 1" "nows \<noteq> [] \<longrightarrow> a < hd nows 1"
    by (auto simp: neq_Nil_conv)
  have f: "fw_limit l' = fw_limit l" "fw_window l' = fw_window l"
    using fw_allow_fields [OF al] by auto
  show ?case
  proof (cases "fw_resetTime l < now 1")
    case True
    note r = fw_allow_reset [OF al True]
    have "int (count_in a (a + fw_window l) (fw_allowed nows l')) \<le> fw_limit l' - fw_count l'"
      using r clk f Cons.prems by (intro fw_no_reset_bound [OF clk(1)]) auto
    with r f Cons.prems show ?thesis by (auto simp: fw_allowed_simps(2) [OF al] split: if_splits)
  next
    case False
    then have s: "ok = (fw_count l < fw_limit l)" "fw_count l' = fw_count l + (if ok then 1 else 0)"
      using fw_allow_same [OF al] by auto
    have "int (count_in a (a + fw_window l') (fw_allowed nows l')) \<le> 2 * fw_limit l' - fw_count l'"
      using s f Cons.prems clk by (intro Cons.IH [OF clk(1)]) auto
    with s f show ?thesis by (auto simp: fw_allowed_simps(2) [OF al] split: if_splits)
  qed
qed (simp add: fw_allowed_simps)

lemma fw_burst_bound:
  "clock_runs t nows \<Longrightarrow> 0 \<le> fw_count l \<Longrightarrow> fw_count l \<le> fw_limit l \<Longrightarrow>
     int (count_in a (a + fw_window l) (fw_allowed nows l)) \<le> 2 * fw_limit l"
proof (induction nows arbitrary: t l)
  case (Cons now nows)
  obtain l' ok where al: "FixedWindow_Allow now l = (l', ok)" by (meson surj_pair)
  show ?case
  proof (cases "a < now 1")
    case True
    then show ?thesis using Cons.prems fw_late_start_bound [OF Cons.prems(1), of a l] by simp
  next
    case False
    have "int (count_in a (a + fw_window l') (fw_allowed nows l')) \<le> 2 * fw_limit l'"
      using Cons.prems fw_inv_allow [of l now] al
      by (intro Cons.IH [of "now 2"]) (auto simp: fw_inv_def dest: fw_allow_fields)
    with False show ?thesis using fw_allow_fields [OF al] by (simp add: fw_allowed_simps(2) [OF al])
  qed
qed (simp add: fw_allowed_simps)

text \<open>
  C25. A fixed window limiter never allows more than twice its limit within any time span of one
  window, and never more than its limit while one window lasts; the count stays between 0 and the
  limit, whatever the calls.
\<close>

theorem fixed_window_bounds:
  assumes "clock_runs t nows" and "0 \<le> limit" and "l = NewFixedWindowLimiter limit window now"
  shows "int (count_in a (a + window) (fw_allowed nows l)) \<le> 2 * limit
    \<and> int (count_in a (now 0 + window) (fw_allowed nows l)) \<le> limit
    \<and> 0 \<le> fw_count (snd (run_allow FixedWindow_Allow nows l))
    \<and> fw_count (snd (run_allow FixedWindow_Allow nows l)) \<le> limit"
proof -
  have l: "fw_count l = 0" "fw_limit l = limit" "fw_window l = window" "fw_resetTime l = now 0 + window"
    by (simp_all add: assms(3) NewFixedWindowLimiter_def time_add_def)
  have "fw_inv l' \<and> fw_limit l' = limit" if "run_allow FixedWindow_Allow nows l0 = (oks, l')"
    "fw_inv l0" "fw_limit l0 = limit" for nows l0 oks l'
    using that
  proof (induction nows arbitrary: l0 oks)
    case (Cons nw nows)
    obtain l1 ok where al: "FixedWindow_Allow nw l0 = (l1, ok)" by (meson surj_pair)
    with Cons.prems have "fw_inv l1" "fw_limit l1 = limit"
      using fw_inv_allow [of l0 nw] fw_allow_fields [OF al] by auto
    with Cons.IH Cons.prems(1) al show ?case by (auto split: prod.splits)
  qed simp
  from this [of nows l] have "fw_inv (snd (run_allow FixedWindow_Allow nows l))"
    "fw_limit (snd (run_allow FixedWindow_Allow nows l)) = limit"
    using l assms(3) fw_inv_new by (metis prod.collapse)+
  moreover have "int (count_in a (a + window) (fw_allowed nows l)) \<le> 2 * limit"
    using fw_burst_bound [OF assms(1), of l a] l assms(2) by simp
  moreover have "int (count_in a (now 0 + window) (fw_allowed nows l)) \<le> limit"
    using fw_no_reset_bound [OF assms(1), of "now 0 + window" l a] l assms(2) by simp
  ultimately show ?thesis using assms(2) by (simp add: fw_inv_def)
qed

theorem fixed_window_bounds_witness:
  "let calls = [\<lambda>_. 9, \<lambda>_. 9, \<lambda>_. 9, \<lambda>_. 11, \<lambda>_. 11, \<lambda>_. 11];
       l = NewFixedWindowLimiter 2 10 (\<lambda>_. 0)
   in fw_allowed calls l = [9, 9, 11, 11] \<and> int (count_in 2 (2 + 10) (fw_allowed calls l)) \<le> 2 * 2"
  unfolding Let_def
  using fixed_window_bounds [of 0 "[\<lambda>_. 9, \<lambda>_. 9, \<lambda>_. 9, \<lambda>_. 11, \<lambda>_. 11, \<lambda>_. 11]" 2
      "NewFixedWindowLimiter 2 10 (\<lambda>_. 0)" 10 "\<lambda>_. 0" 2]
  by (simp add: fw_allowed_def FixedWindow_Allow_def NewFixedWindowLimiter_def Let_def time_defs)

section \<open>Sliding window\<close>

record SlidingWindowLimiter =
  sw_limit :: int
  sw_window :: duration
  sw_records :: "time list"
  sw_lastAccess :: time

definition NewSlidingWindowLimiter :: "int \<Rightarrow> duration \<Rightarrow> readings \<Rightarrow> SlidingWindowLimiter" where
  "NewSlidingWindowLimiter limit window now =
     \<lparr>sw_limit = limit, sw_window = window, sw_records = [], sw_lastAccess = now 0\<rparr>"

text \<open>The loop over the records: \<open>i\<close> is the index of the head, \<open>valid\<close> the variable \<open>validIdx\<close>.\<close>

fun valid_index :: "time \<Rightarrow> nat \<Rightarrow> nat \<Rightarrow> time list \<Rightarrow> nat" where
  "valid_index cutoff i valid [] = valid"
| "valid_index cutoff i valid (t # ts) =
     (if time_after t cutoff then i else valid_index cutoff (Suc i) (Suc i) ts)"

definition SlidingWindow_Allow :: "readings \<Rightarrow> SlidingWindowLimiter \<Rightarrow> SlidingWindowLimiter \<times> bool" where
  "SlidingWindow_Allow now l =
     (let l = l\<lparr>sw_lastAccess := now 0\<rparr>;
          cutoff = time_add (now 0) (wrap64 (- sw_window l));
          valid = valid_index cutoff 0 0 (sw_records l);
          l = (if 0 < valid then l\<lparr>sw_records := drop valid (sw_records l)\<rparr> else l)
      in if int (length (sw_records l)) < sw_limit l
         then (l\<lparr>sw_records := sw_records l @ [now 0]\<rparr>, True) else (l, False))"

definition SlidingWindow_LastAccess :: "SlidingWindowLimiter \<Rightarrow> time" where
  "SlidingWindow_LastAccess l = sw_lastAccess l"

lemma valid_index_takeWhile:
  "valid_index cutoff i i ts = i + length (takeWhile (\<lambda>t. \<not> time_after t cutoff) ts)"
  by (induction ts arbitrary: i) auto

lemma drop_valid_index:
  "drop (valid_index cutoff 0 0 ts) ts = dropWhile (\<lambda>t. \<not> time_after t cutoff) ts"
  by (simp add: valid_index_takeWhile dropWhile_eq_drop)

lemma sorted_dropWhile_filter:
  "sorted ts \<Longrightarrow> dropWhile (\<lambda>t. \<not> c < t) ts = filter (\<lambda>t. c < t) (ts :: time list)"
proof (induction ts)
  case (Cons t ts)
  then show ?case by (cases "c < t") (auto simp: filter_id_conv less_le_trans)
qed simp

text \<open>The window is one that \<open>-window\<close> does not overflow for.\<close>

definition window_ok :: "duration \<Rightarrow> bool" where
  "window_ok w \<longleftrightarrow> 0 \<le> w \<and> w \<le> int_max"

lemma wrap64_neg_window: "window_ok w \<Longrightarrow> wrap64 (- w) = - w"
  by (rule wrap64_id) (simp add: window_ok_def in_int64_def int_min_def int_max_def)

definition recent :: "duration \<Rightarrow> time \<Rightarrow> time list \<Rightarrow> time list" where
  "recent w now ts = filter (\<lambda>t. now - w < t) ts"

lemma sw_allow_eq:
  assumes "sorted (sw_records l)" and "window_ok (sw_window l)"
  shows "SlidingWindow_Allow now l =
    (let rs = recent (sw_window l) (now 0) (sw_records l)
     in if int (length rs) < sw_limit l
        then (l\<lparr>sw_lastAccess := now 0, sw_records := rs @ [now 0]\<rparr>, True)
        else (l\<lparr>sw_lastAccess := now 0, sw_records := rs\<rparr>, False))"
proof -
  define c where "c = now 0 - sw_window l"
  define v where "v = valid_index c 0 0 (sw_records l)"
  have "(if 0 < v then drop v (sw_records l) else sw_records l) = filter (\<lambda>t. c < t) (sw_records l)"
    using drop_valid_index [of c "sw_records l"] sorted_dropWhile_filter [OF assms(1), of c]
    by (cases "v = 0") (simp_all add: time_after_def v_def)
  then have rs: "v = 0 \<Longrightarrow> recent (sw_window l) (now 0) (sw_records l) = sw_records l"
    "0 < v \<Longrightarrow> recent (sw_window l) (now 0) (sw_records l) = drop v (sw_records l)"
    by (simp_all add: recent_def c_def)
  have cut: "time_add (now 0) (wrap64 (- sw_window l)) = c"
    using wrap64_neg_window [OF assms(2)] by (simp add: time_add_def c_def)
  show ?thesis
    unfolding SlidingWindow_Allow_def Let_def
    by (cases "v = 0") (simp_all add: cut v_def [symmetric] rs del: length_drop)
qed

text \<open>The reference: a call at \<open>t\<close> is allowed iff fewer than \<open>limit\<close> were in the window ending at \<open>t\<close>.\<close>

fun sliding_spec :: "int \<Rightarrow> duration \<Rightarrow> time list \<Rightarrow> time list \<Rightarrow> bool list" where
  "sliding_spec limit window history [] = []"
| "sliding_spec limit window history (t # ts) =
     (let ok = int (length (recent window t history)) < limit
      in ok # sliding_spec limit window (if ok then history @ [t] else history) ts)"

text \<open>The records stand for a history when they agree on every window that ends now or later.\<close>

definition sw_stands_for :: "time \<Rightarrow> SlidingWindowLimiter \<Rightarrow> time list \<Rightarrow> bool" where
  "sw_stands_for t l history \<longleftrightarrow> sorted (sw_records l) \<and> (\<forall>r \<in> set (sw_records l). r \<le> t)
     \<and> recent (sw_window l) t (sw_records l) = recent (sw_window l) t history"

lemma recent_mono:
  assumes "recent w t xs = recent w t ys" and "t \<le> t'"
  shows "recent w t' xs = recent w t' ys"
proof -
  have "recent w t' zs = recent w t' (recent w t zs)" for zs
    using assms(2) by (auto simp: recent_def intro!: filter_cong)
  then show ?thesis using assms(1) by metis
qed

lemma sw_allow_stands:
  assumes st: "sw_stands_for t l history" and t: "t \<le> now 0" and w: "window_ok (sw_window l)"
    and al: "SlidingWindow_Allow now l = (l', ok)"
  shows "ok = (int (length (recent (sw_window l) (now 0) history)) < sw_limit l)"
    and "sw_stands_for (now 0) l' (if ok then history @ [now 0] else history)"
    and "sw_limit l' = sw_limit l" and "sw_window l' = sw_window l" and "sw_lastAccess l' = now 0"
proof -
  let ?rs = "recent (sw_window l) (now 0) (sw_records l)"
  have eq: "?rs = recent (sw_window l) (now 0) history"
    using st recent_mono [OF _ t, of "sw_window l" "sw_records l" history] by (simp add: sw_stands_for_def)
  have idem: "recent (sw_window l) (now 0) ?rs = ?rs" by (simp add: recent_def)
  have le: "\<forall>r \<in> set ?rs. r \<le> now 0" using st t by (auto simp: sw_stands_for_def recent_def)
  have sorted: "sorted ?rs" using st by (simp add: sw_stands_for_def recent_def sorted_wrt_filter)
  have al': "(l', ok) = (if int (length ?rs) < sw_limit l
       then (l\<lparr>sw_lastAccess := now 0, sw_records := ?rs @ [now 0]\<rparr>, True)
       else (l\<lparr>sw_lastAccess := now 0, sw_records := ?rs\<rparr>, False))"
    using al sw_allow_eq [of l now] st w by (simp only: sw_stands_for_def Let_def)
  then show ok: "ok = (int (length (recent (sw_window l) (now 0) history)) < sw_limit l)"
    by (simp only: eq prod.inject split: if_splits)
  show "sw_limit l' = sw_limit l" "sw_window l' = sw_window l" "sw_lastAccess l' = now 0"
    using al' by (simp_all split: if_splits)
  have l': "sw_window l' = sw_window l" "sw_records l' = (if ok then ?rs @ [now 0] else ?rs)"
    using al' by (simp_all split: if_splits)
  have app: "recent (sw_window l) (now 0) (zs @ [now 0])
      = recent (sw_window l) (now 0) zs @ recent (sw_window l) (now 0) [now 0]" for zs
    by (simp add: recent_def)
  show "sw_stands_for (now 0) l' (if ok then history @ [now 0] else history)"
    unfolding sw_stands_for_def l'
    using le sorted by (cases ok) (simp_all add: sorted_append app idem [unfolded eq] eq)
qed

definition sw_answers :: "readings list \<Rightarrow> SlidingWindowLimiter \<Rightarrow> bool list" where
  "sw_answers nows l = fst (run_allow SlidingWindow_Allow nows l)"

lemma sw_answers_spec:
  "sw_stands_for t l history \<Longrightarrow> clock_runs t nows \<Longrightarrow> window_ok (sw_window l) \<Longrightarrow>
     sw_answers nows l = sliding_spec (sw_limit l) (sw_window l) history (map (\<lambda>now. now 0) nows)"
proof (induction nows arbitrary: t l history)
  case (Cons now nows)
  obtain l' ok where al: "SlidingWindow_Allow now l = (l', ok)" by (meson surj_pair)
  have t: "t \<le> now 0" and clk: "clock_runs (now 2) nows" and le: "now 0 \<le> now 2"
    using Cons.prems(2) by auto
  note st = sw_allow_stands [OF Cons.prems(1) t Cons.prems(3) al]
  have clk0: "clock_runs (now 0) nows" using clk le by (cases nows) auto
  have "sw_answers nows l' = sliding_spec (sw_limit l) (sw_window l)
      (if ok then history @ [now 0] else history) (map (\<lambda>now. now 0) nows)"
    using Cons.IH [OF st(2) clk0] st(3,4) Cons.prems(3) by simp
  with al st(1) show ?case by (simp add: sw_answers_def Let_def case_prod_unfold)
qed (simp add: sw_answers_def)

lemma sw_new_stands: "sw_stands_for t (NewSlidingWindowLimiter limit window now) []"
  by (simp add: sw_stands_for_def NewSlidingWindowLimiter_def recent_def)

text \<open>The reference never allows more than the limit in a window, wherever the window ends.\<close>

fun spec_allowed :: "time list \<Rightarrow> bool list \<Rightarrow> time list" where
  "spec_allowed (t # ts) (ok # oks) = (if ok then t # spec_allowed ts oks else spec_allowed ts oks)"
| "spec_allowed _ _ = []"

lemma count_in_append [simp]: "count_in a b (xs @ ys) = count_in a b xs + count_in a b ys"
  by (simp add: count_in_def)

lemma count_in_recent:
  assumes "t \<le> b"
  shows "\<forall>h \<in> set hs. h \<le> t \<Longrightarrow> count_in (b - w) b hs \<le> length (recent w t hs)"
  using assms by (induction hs) (auto simp: recent_def)

lemma sliding_spec_bound:
  "sorted (t # ts) \<Longrightarrow> \<forall>h \<in> set history. h \<le> t \<Longrightarrow> 0 \<le> limit \<Longrightarrow>
     \<forall>b. int (count_in (b - w) b history) \<le> limit \<Longrightarrow>
     int (count_in (b - w) b (history @ spec_allowed ts (sliding_spec limit w history ts))) \<le> limit"
proof (induction ts arbitrary: t history)
  case (Cons u ts)
  show ?case
  proof (cases "int (length (recent w u history)) < limit")
    case True
    have hu: "\<forall>h \<in> set history. h \<le> u" using Cons.prems by auto
    have "int (count_in (c - w) c (history @ [u])) \<le> limit" for c
      using count_in_recent [OF _ hu, of c w] True Cons.prems(4) by (cases "u \<le> c") fastforce+
    then have "int (count_in (b - w) b ((history @ [u]) @ spec_allowed ts (sliding_spec limit w (history @ [u]) ts))) \<le> limit"
      using Cons.prems hu by (intro Cons.IH [of u]) auto
    with True show ?thesis by (simp add: Let_def)
  next
    case False
    have "int (count_in (b - w) b (history @ spec_allowed ts (sliding_spec limit w history ts))) \<le> limit"
      using Cons.prems by (intro Cons.IH [of u]) auto
    with False show ?thesis by (simp add: Let_def)
  qed
qed simp

lemma clock_runs_sorted: "clock_runs t nows \<Longrightarrow> sorted (t # map (\<lambda>now. now 0) nows)"
proof (induction nows arbitrary: t)
  case (Cons now nows)
  then have "sorted (now 2 # map (\<lambda>now. now 0) nows)" "t \<le> now 0" "now 0 \<le> now 2" by auto
  then show ?case by fastforce
qed simp

text \<open>
  C24. A sliding window limiter is the exact reference: a call at \<open>t\<close> is allowed iff fewer than
  \<open>limit\<close> allowed calls lie in the window that ends at \<open>t\<close>; so no window of the configured length,
  wherever it ends, holds more than \<open>limit\<close> allowed calls.
\<close>

theorem sliding_window_exact:
  assumes "clock_runs t nows" and "window_ok window" and "0 \<le> limit"
  shows "sw_answers nows (NewSlidingWindowLimiter limit window now)
       = sliding_spec limit window [] (map (\<lambda>now. now 0) nows)
    \<and> int (count_in (b - window) b (spec_allowed (map (\<lambda>now. now 0) nows)
         (sw_answers nows (NewSlidingWindowLimiter limit window now)))) \<le> limit"
proof -
  have "sw_answers nows (NewSlidingWindowLimiter limit window now)
       = sliding_spec limit window [] (map (\<lambda>now. now 0) nows)"
    using sw_answers_spec [OF sw_new_stands assms(1), of limit window now] assms(2)
    by (simp add: NewSlidingWindowLimiter_def)
  then show ?thesis
    using sliding_spec_bound [OF clock_runs_sorted [OF assms(1)], of "[]" limit window b] assms(3) by simp
qed

theorem sliding_window_exact_witness:
  "let calls = [\<lambda>_. 1, \<lambda>_. 9, \<lambda>_. 10, \<lambda>_. 11, \<lambda>_. 12];
       l = NewSlidingWindowLimiter 2 10 (\<lambda>_. 0)
   in sw_answers calls l = [True, True, False, True, False]
      \<and> sw_answers calls l = sliding_spec 2 10 [] [1, 9, 10, 11, 12]"
  unfolding Let_def
  using sliding_window_exact [of 0 "[\<lambda>_. 1, \<lambda>_. 9, \<lambda>_. 10, \<lambda>_. 11, \<lambda>_. 12]" 10 2 "\<lambda>_. 0"]
  by (simp add: window_ok_def int_max_def recent_def)

section \<open>Leaky bucket\<close>

record LeakyBucketLimiter =
  lb_capacity :: float64
  lb_rate :: float64
  lb_water :: float64
  lb_lastLeak :: time
  lb_lastAccess :: time

definition NewLeakyBucketLimiter :: "int \<Rightarrow> duration \<Rightarrow> readings \<Rightarrow> LeakyBucketLimiter" where
  "NewLeakyBucketLimiter limit window now =
     \<lparr>lb_capacity = float_of_int limit, lb_rate = fdiv (float_of_int limit) (duration_seconds window),
      lb_water = Fin 0, lb_lastLeak = now 0, lb_lastAccess = now 1\<rparr>"

definition LeakyBucket_Allow :: "readings \<Rightarrow> LeakyBucketLimiter \<Rightarrow> LeakyBucketLimiter \<times> bool" where
  "LeakyBucket_Allow now l =
     (let l = l\<lparr>lb_lastAccess := now 0\<rparr>;
          elapsed = duration_seconds (time_sub (now 0) (lb_lastLeak l));
          leaked = fmul elapsed (lb_rate l);
          l = (if fless (Fin 0) leaked
               then let water = fsub (lb_water l) leaked;
                        water = (if fless water (Fin 0) then Fin 0 else water)
                    in l\<lparr>lb_water := water, lb_lastLeak := now 0\<rparr>
               else l)
      in if fleq (fadd (lb_water l) (Fin 1)) (lb_capacity l)
         then (l\<lparr>lb_water := fadd (lb_water l) (Fin 1)\<rparr>, True) else (l, False))"

definition LeakyBucket_LastAccess :: "LeakyBucketLimiter \<Rightarrow> time" where
  "LeakyBucket_LastAccess l = lb_lastAccess l"

text \<open>The water is a finite number between 0 and the capacity, and one that rounding keeps.\<close>

definition lb_inv :: "LeakyBucketLimiter \<Rightarrow> bool" where
  "lb_inv l \<longleftrightarrow> (\<exists>c w. lb_capacity l = Fin c \<and> lb_water l = Fin w \<and> representable w
     \<and> 0 \<le> w \<and> (0 \<le> c \<longrightarrow> w \<le> c))"

lemma lb_inv_new: "lb_inv (NewLeakyBucketLimiter limit window now)"
  by (simp add: lb_inv_def NewLeakyBucketLimiter_def float_of_int_def)

lemma leak_water:
  assumes "representable w" and "0 \<le> w" and "fless (Fin 0) leaked"
  shows "\<exists>w'. (let water = fsub (Fin w) leaked in if fless water (Fin 0) then Fin 0 else water) = Fin w'
     \<and> representable w' \<and> 0 \<le> w' \<and> w' \<le> w"
proof (cases leaked)
  case (Fin b)
  with assms(3) have "w - b \<le> w" by simp
  then have "round53 (w - b) \<le> round53 w" by (rule round53_mono)
  then have "round53 (w - b) \<le> w" using assms(1) by (simp add: representable_def)
  with Fin assms show ?thesis by (auto simp: fsub_def Let_def)
qed (use assms in \<open>auto simp: fsub_def\<close>)

lemma lb_inv_allow:
  assumes "lb_inv l"
  shows "lb_inv (fst (LeakyBucket_Allow now l))"
proof -
  obtain c w where l: "lb_capacity l = Fin c" "lb_water l = Fin w" "representable w" "0 \<le> w"
    "0 \<le> c \<longrightarrow> w \<le> c" using assms by (auto simp: lb_inv_def)
  define leaked where "leaked = fmul (duration_seconds (time_sub (now 0) (lb_lastLeak l))) (lb_rate l)"
  define water where "water = (if fless (Fin 0) leaked
    then let water = fsub (Fin w) leaked in if fless water (Fin 0) then Fin 0 else water else Fin w)"
  obtain w' where w': "water = Fin w'" "representable w'" "0 \<le> w'" "w' \<le> w"
    using leak_water [OF l(3,4), of leaked] l(3,4)
    by (cases "fless (Fin 0) leaked") (auto simp: water_def Let_def)
  have "fst (LeakyBucket_Allow now l) =
      (let l' = (if fless (Fin 0) leaked then l\<lparr>lb_lastAccess := now 0, lb_water := water, lb_lastLeak := now 0\<rparr>
                 else l\<lparr>lb_lastAccess := now 0\<rparr>)
       in if fleq (fadd (Fin w') (Fin 1)) (Fin c) then l'\<lparr>lb_water := fadd (Fin w') (Fin 1)\<rparr> else l')"
    using w'(1) l(1,2)
    by (simp add: LeakyBucket_Allow_def leaked_def [symmetric] water_def Let_def split: if_splits)
  moreover have "0 \<le> round53 (w' + 1)" using w'(3) by (simp add: round53_pos_mono)
  ultimately show ?thesis using w' l by (auto simp: lb_inv_def Let_def water_def split: if_splits)
qed

lemma lb_last_allow: "LeakyBucket_LastAccess (fst (LeakyBucket_Allow now l)) = now 0"
  by (simp add: LeakyBucket_LastAccess_def LeakyBucket_Allow_def Let_def)

section \<open>Token bucket\<close>

text \<open>
  The token bucket wraps \<open>rate.Limiter\<close> of \<open>golang.org/x/time/rate\<close>, code that is not part of the
  repository: its constructor and its \<open>Allow\<close> (which reads the clock itself) are the parameters
  \<open>new_limiter\<close> and \<open>limiter_allow\<close> of the definitions.
\<close>

record 'r TokenBucketLimiter =
  tb_limiter :: 'r
  tb_lastAccess :: time

definition NewTokenBucketLimiter ::
    "(float64 \<Rightarrow> int \<Rightarrow> 'r) \<Rightarrow> int \<Rightarrow> duration \<Rightarrow> readings \<Rightarrow> 'r TokenBucketLimiter" where
  "NewTokenBucketLimiter new_limiter limit window now =
     \<lparr>tb_limiter = new_limiter (fdiv (float_of_int limit) (duration_seconds window)) limit,
      tb_lastAccess = now 0\<rparr>"

definition TokenBucket_Allow ::
    "(time \<Rightarrow> 'r \<Rightarrow> 'r \<times> bool) \<Rightarrow> readings \<Rightarrow> 'r TokenBucketLimiter \<Rightarrow> 'r TokenBucketLimiter \<times> bool" where
  "TokenBucket_Allow limiter_allow now l =
     (let l = l\<lparr>tb_lastAccess := now 0\<rparr>;
          (r, ok) = limiter_allow (now 1) (tb_limiter l)
      in (l\<lparr>tb_limiter := r\<rparr>, ok))"

definition TokenBucket_LastAccess :: "'r TokenBucketLimiter \<Rightarrow> time" where
  "TokenBucket_LastAccess l = tb_lastAccess l"

section \<open>The interface LimiterStrategy\<close>

datatype 'r strategy =
  FixedWindow FixedWindowLimiter | SlidingWindow SlidingWindowLimiter
| LeakyBucket LeakyBucketLimiter | TokenBucket "'r TokenBucketLimiter"

fun Strategy_Allow ::
    "(time \<Rightarrow> 'r \<Rightarrow> 'r \<times> bool) \<Rightarrow> readings \<Rightarrow> 'r strategy \<Rightarrow> 'r strategy \<times> bool" where
  "Strategy_Allow la now (FixedWindow l) = map_prod FixedWindow id (FixedWindow_Allow now l)"
| "Strategy_Allow la now (SlidingWindow l) = map_prod SlidingWindow id (SlidingWindow_Allow now l)"
| "Strategy_Allow la now (LeakyBucket l) = map_prod LeakyBucket id (LeakyBucket_Allow now l)"
| "Strategy_Allow la now (TokenBucket l) = map_prod TokenBucket id (TokenBucket_Allow la now l)"

fun Strategy_LastAccess :: "'r strategy \<Rightarrow> time" where
  "Strategy_LastAccess (FixedWindow l) = FixedWindow_LastAccess l"
| "Strategy_LastAccess (SlidingWindow l) = SlidingWindow_LastAccess l"
| "Strategy_LastAccess (LeakyBucket l) = LeakyBucket_LastAccess l"
| "Strategy_LastAccess (TokenBucket l) = TokenBucket_LastAccess l"

fun strategy_inv :: "'r strategy \<Rightarrow> bool" where
  "strategy_inv (FixedWindow l) = fw_inv l"
| "strategy_inv (SlidingWindow l) = True"
| "strategy_inv (LeakyBucket l) = lb_inv l"
| "strategy_inv (TokenBucket l) = True"

text \<open>
  What a client of the interface relies on: \<open>Allow\<close> keeps the strategy's own invariant and
  \<open>LastAccess\<close> is the first clock reading of the last \<open>Allow\<close>.
\<close>

locale limiter_strategy =
  fixes allow :: "readings \<Rightarrow> 's \<Rightarrow> 's \<times> bool"
    and last_access :: "'s \<Rightarrow> time"
    and ok_state :: "'s \<Rightarrow> bool"
  assumes ok_allow: "ok_state s \<Longrightarrow> ok_state (fst (allow now s))"
    and last_allow: "last_access (fst (allow now s)) = now 0"
begin

lemma ok_run: "ok_state s \<Longrightarrow> ok_state (snd (run_allow allow nows s))"
  by (induction nows arbitrary: s) (auto simp: case_prod_unfold Let_def ok_allow)

lemma last_run: "last_access (snd (run_allow allow nows s)) = (if nows = [] then last_access s else last nows 0)"
  by (induction nows arbitrary: s) (simp_all add: case_prod_unfold Let_def last_allow)

end

interpretation strategy: limiter_strategy "Strategy_Allow la" Strategy_LastAccess strategy_inv
proof
  show "strategy_inv (fst (Strategy_Allow la now s))" if "strategy_inv s" for s now
    using that by (cases s) (simp_all add: fw_inv_allow lb_inv_allow)
  show "Strategy_LastAccess (fst (Strategy_Allow la now s)) = now 0" for now s
    by (cases s) (simp_all add: fw_last_allow lb_last_allow SlidingWindow_LastAccess_def
        SlidingWindow_Allow_def TokenBucket_LastAccess_def TokenBucket_Allow_def Let_def case_prod_unfold)
qed

interpretation leaky: limiter_strategy LeakyBucket_Allow LeakyBucket_LastAccess lb_inv
  by standard (simp_all add: lb_inv_allow lb_last_allow)

text \<open>Calls at the instant of the last leak: no time has passed, so nothing leaks.\<close>

lemma no_time_no_leak: "\<not> fless (Fin 0) (fmul (duration_seconds (time_sub t t)) r)"
  by (cases r) (auto simp: duration_seconds_def time_sub_def int_min_def int_max_def go_div_def
      go_mod_def Second_def finf_def)

lemma lb_burst_run:
  assumes "0 \<le> limit" and "limit < 2 ^ 53" and "\<And>i. now i = t"
  shows "lb_capacity l = float_of_int limit \<Longrightarrow> lb_water l = Fin (of_int (int k)) \<Longrightarrow> int k \<le> limit \<Longrightarrow>
     lb_lastLeak l = t \<Longrightarrow>
     fst (run_allow LeakyBucket_Allow (replicate n now) l) = map (\<lambda>i. int (k + i) < limit) [0..<n]"
proof (induction n arbitrary: l k)
  case (Suc n)
  have nl: "\<not> fless (Fin 0) (fmul (duration_seconds (time_sub (now 0) (lb_lastLeak l))) (lb_rate l))"
    using no_time_no_leak assms(3) Suc.prems(4) by simp
  have cap: "lb_capacity l = Fin (of_int limit)"
    using Suc.prems(1) round53_small_int [of limit] assms(1,2) by (simp add: float_of_int_def)
  define k' where "k' = (if int k < limit then Suc k else k)"
  obtain l' where al: "LeakyBucket_Allow now l = (l', int k < limit)"
      "lb_capacity l' = lb_capacity l" "lb_water l' = Fin (of_int (int k'))" "lb_lastLeak l' = t"
  proof (cases "int k < limit")
    case True
    have w: "fadd (lb_water l) (Fin 1) = Fin (of_int (int (Suc k)))"
      using Suc.prems(2) True assms(2) round53_small_int [of "int (Suc k)"] by (simp add: add.commute)
    have "(of_int (int (Suc k)) :: rat) \<le> of_int limit" using True by (simp only: of_int_le_iff)
    with True nl cap Suc.prems w that [of "l\<lparr>lb_lastAccess := now 0, lb_water := Fin (of_int (int k'))\<rparr>"]
    show ?thesis by (simp add: LeakyBucket_Allow_def Let_def k'_def)
  next
    case False
    have w: "fleq (fadd (lb_water l) (Fin 1)) (lb_capacity l) = False"
    proof -
      have "(of_int (int k) :: rat) = of_int limit" using False Suc.prems(3) by simp
      then have "fadd (lb_water l) (Fin 1) = Fin (of_int (limit + 1))"
        using Suc.prems(2) round53_small_int [of "limit + 1"] assms(1,2) by simp
      then show ?thesis by (simp add: cap)
    qed
    with False nl cap Suc.prems that [of "l\<lparr>lb_lastAccess := now 0\<rparr>"]
    show ?thesis by (simp add: LeakyBucket_Allow_def Let_def k'_def)
  qed
  have "fst (run_allow LeakyBucket_Allow (replicate n now) l') = map (\<lambda>i. int (k' + i) < limit) [0..<n]"
    using Suc.IH [of l' k'] al Suc.prems by (simp add: k'_def split: if_splits)
  moreover have "map (\<lambda>i. int (k + i) < limit) [0..<Suc n] = (int k < limit) # map (\<lambda>i. int (k' + i) < limit) [0..<n]"
    by (auto simp: map_upt_Suc k'_def simp del: upt_Suc)
  ultimately show ?case using al(1) by (simp add: Let_def case_prod_unfold del: upt_Suc)
qed simp

text \<open>
  Whatever the calls and however the clock runs, a leaky bucket's water stays a finite number
  between 0 and the capacity, in the rounded arithmetic of \<open>float64\<close>; and of the calls made at the
  very instant of its creation it allows exactly the first \<open>limit\<close>.
\<close>

theorem leaky_bucket_water:
  assumes "0 \<le> limit" and "limit < 2 ^ 53"
  shows "(\<exists>w. lb_water (snd (run_allow LeakyBucket_Allow nows (NewLeakyBucketLimiter limit window now))) = Fin w
       \<and> 0 \<le> w \<and> w \<le> of_int limit)
    \<and> fst (run_allow LeakyBucket_Allow (replicate n (\<lambda>_. now 0)) (NewLeakyBucketLimiter limit window now))
       = map (\<lambda>i. int i < limit) [0..<n]"
proof -
  let ?l = "\<lambda>l0. snd (run_allow LeakyBucket_Allow nows l0)"
  have cap: "lb_capacity (?l l0) = lb_capacity l0" for l0
  proof (induction nows arbitrary: l0)
    case (Cons nw nows)
    have "lb_capacity (fst (LeakyBucket_Allow nw l0)) = lb_capacity l0"
      by (simp add: LeakyBucket_Allow_def Let_def)
    with Cons show ?case by (simp add: Let_def case_prod_unfold)
  qed simp
  have "lb_inv (?l (NewLeakyBucketLimiter limit window now))" by (rule leaky.ok_run [OF lb_inv_new])
  then have "\<exists>w. lb_water (?l (NewLeakyBucketLimiter limit window now)) = Fin w \<and> 0 \<le> w \<and> w \<le> of_int limit"
    using cap [of "NewLeakyBucketLimiter limit window now"] assms round53_small_int [of limit]
    by (auto simp: lb_inv_def NewLeakyBucketLimiter_def float_of_int_def)
  moreover have "fst (run_allow LeakyBucket_Allow (replicate n (\<lambda>_. now 0)) (NewLeakyBucketLimiter limit window now))
       = map (\<lambda>i. int i < limit) [0..<n]"
    using lb_burst_run [OF assms, of "\<lambda>_. now 0" "now 0" "NewLeakyBucketLimiter limit window now" 0 n] assms(1)
    by (simp add: NewLeakyBucketLimiter_def)
  ultimately show ?thesis by blast
qed

theorem leaky_bucket_water_witness:
  "fst (run_allow LeakyBucket_Allow [\<lambda>_. 5, \<lambda>_. 5, \<lambda>_. 5] (NewLeakyBucketLimiter 2 Second (\<lambda>_. 5)))
     = [True, True, False]"
  using leaky_bucket_water [of 2 "[]" Second "\<lambda>_. 5" 3] by (simp add: numeral_3_eq_3)

end
