(* ===== verification/GoHttp.thy ===== *)
theory GoHttp
  imports GoMaps
begin

text \<open>
  The part of the packages \<open>net/http\<close> and \<open>net/url\<close> that the gateway uses: header maps with their
  canonical keys, and the fields of URLs, requests and responses that its code reads or writes.
  An \<open>http.Header\<close> is a Go map from a canonical key to the list of its values.
\<close>

section \<open>Canonical header keys\<close>

text \<open>The bytes of a header field name (RFC 7230 tokens), as \<open>net/textproto\<close> accepts them.\<close>

definition tokenCode :: "nat \<Rightarrow> bool" where
  "tokenCode n \<longleftrightarrow> (48 \<le> n \<and> n \<le> 57) \<or> (65 \<le> n \<and> n \<le> 90) \<or> (97 \<le> n \<and> n \<le> 122)
     \<or> n \<in> {33, 35, 36, 37, 38, 39, 42, 43, 45, 46, 94, 95, 96, 124, 126}"

definition isTokenByte :: "char \<Rightarrow> bool" where
  "isTokenByte c = tokenCode (of_char c)"

fun canonLoop :: "bool \<Rightarrow> string \<Rightarrow> string" where
  "canonLoop upper [] = []"
| "canonLoop upper (c # cs) =
     (if upper then toUpperChar c else toLowerChar c) # canonLoop (c = CHR ''-'') cs"

text \<open>\<open>CanonicalMIMEHeaderKey\<close>: a key with an invalid byte is left as it is.\<close>

definition canonicalKey :: "string \<Rightarrow> string" where
  "canonicalKey k = (if list_all isTokenByte k then canonLoop True k else k)"

lemma of_char_of_small: "n < 256 \<Longrightarrow> (of_char (char_of (n :: nat)) :: nat) = n"
  by (simp add: of_char_of)

lemma nat_toUpperChar:
  "(of_char (toUpperChar c) :: nat) =
     (if 97 \<le> (of_char c :: nat) \<and> of_char c \<le> (122 :: nat) then of_char c - 32 else of_char c)"
  by (cases "97 \<le> (of_char c :: nat) \<and> of_char c \<le> (122 :: nat)")
    (simp_all only: toUpperChar_def Let_def if_True if_False simp_thms, rule of_char_of_small, linarith)

lemma nat_toLowerChar:
  "(of_char (toLowerChar c) :: nat) =
     (if 65 \<le> (of_char c :: nat) \<and> of_char c \<le> (90 :: nat) then of_char c + 32 else of_char c)"
  by (cases "65 \<le> (of_char c :: nat) \<and> of_char c \<le> (90 :: nat)")
    (simp_all only: toLowerChar_def Let_def if_True if_False simp_thms, rule of_char_of_small, linarith)

lemma char_eq_nat: "c = d \<longleftrightarrow> (of_char c :: nat) = of_char d"
  by (metis char_of_char)

lemma tokenCode_letter:
  "65 \<le> n \<Longrightarrow> n \<le> 90 \<Longrightarrow> tokenCode n" "97 \<le> n \<Longrightarrow> n \<le> 122 \<Longrightarrow> tokenCode n"
  by (simp_all add: tokenCode_def)

lemma isTokenByte_case:
  "isTokenByte (toUpperChar c) = isTokenByte c" "isTokenByte (toLowerChar c) = isTokenByte c"
proof -
  show "isTokenByte (toUpperChar c) = isTokenByte c"
  proof (cases "97 \<le> (of_char c :: nat) \<and> of_char c \<le> (122 :: nat)")
    case True
    then have "65 \<le> of_char c - (32 :: nat)" "of_char c - (32 :: nat) \<le> 90" by linarith+
    with True show ?thesis by (simp add: isTokenByte_def nat_toUpperChar tokenCode_letter)
  next
    case False
    then show ?thesis unfolding isTokenByte_def nat_toUpperChar by (simp only: if_False)
  qed
  show "isTokenByte (toLowerChar c) = isTokenByte c"
  proof (cases "65 \<le> (of_char c :: nat) \<and> of_char c \<le> (90 :: nat)")
    case True
    then show ?thesis by (simp add: isTokenByte_def nat_toLowerChar tokenCode_letter)
  next
    case False
    then show ?thesis unfolding isTokenByte_def nat_toLowerChar by (simp only: if_False)
  qed
qed

lemma case_dash:
  "toUpperChar c = CHR ''-'' \<longleftrightarrow> c = CHR ''-''" "toLowerChar c = CHR ''-'' \<longleftrightarrow> c = CHR ''-''"
proof -
  have dash: "(of_char CHR ''-'' :: nat) = 45" by simp
  show "toUpperChar c = CHR ''-'' \<longleftrightarrow> c = CHR ''-''"
    unfolding char_eq_nat nat_toUpperChar dash by presburger
  show "toLowerChar c = CHR ''-'' \<longleftrightarrow> c = CHR ''-''"
    unfolding char_eq_nat nat_toLowerChar dash by presburger
qed

lemma case_idem:
  "toUpperChar (toUpperChar c) = toUpperChar c" "toLowerChar (toLowerChar c) = toLowerChar c"
  unfolding char_eq_nat nat_toUpperChar nat_toLowerChar by presburger+

lemma canonLoop_token: "list_all isTokenByte (canonLoop u k) = list_all isTokenByte k"
  by (induction k arbitrary: u) (simp_all add: isTokenByte_case)

lemma canonLoop_idem: "canonLoop u (canonLoop u k) = canonLoop u k"
  by (induction k arbitrary: u) (simp_all add: case_dash case_idem)

lemma canonicalKey_idem [simp]: "canonicalKey (canonicalKey k) = canonicalKey k"
  by (simp add: canonicalKey_def canonLoop_token canonLoop_idem)

section \<open>Header maps\<close>

type_synonym Header = "(string, string list) gomap"

definition hdr_get :: "Header \<Rightarrow> string \<Rightarrow> string" where
  "hdr_get h k = (case gm_get h (canonicalKey k) of Some (v # _) \<Rightarrow> v | _ \<Rightarrow> [])"

definition hdr_values :: "Header \<Rightarrow> string \<Rightarrow> string list" where
  "hdr_values h k = (case gm_get h (canonicalKey k) of Some vs \<Rightarrow> vs | None \<Rightarrow> [])"

definition hdr_set :: "string \<Rightarrow> string \<Rightarrow> Header \<Rightarrow> Header" where
  "hdr_set k v h = gm_put (canonicalKey k) [v] h"

definition hdr_add :: "string \<Rightarrow> string \<Rightarrow> Header \<Rightarrow> Header" where
  "hdr_add k v h = gm_put (canonicalKey k) (hdr_values h k @ [v]) h"

definition hdr_del :: "string \<Rightarrow> Header \<Rightarrow> Header" where
  "hdr_del k h = gm_delete (canonicalKey k) h"

lemma hdr_get_values: "hdr_get h k = (case hdr_values h k of [] \<Rightarrow> [] | v # _ \<Rightarrow> v)"
  by (simp add: hdr_get_def hdr_values_def split: option.splits list.splits)

lemma hdr_values_set:
  "hdr_values (hdr_set k v h) k' = (if canonicalKey k' = canonicalKey k then [v] else hdr_values h k')"
  by (simp add: hdr_values_def hdr_set_def update_conv')

lemma hdr_values_add:
  "hdr_values (hdr_add k v h) k' =
     (if canonicalKey k' = canonicalKey k then hdr_values h k @ [v] else hdr_values h k')"
  by (auto simp: hdr_values_def hdr_add_def update_conv')

lemma hdr_values_del:
  "hdr_values (hdr_del k h) k' = (if canonicalKey k' = canonicalKey k then [] else hdr_values h k')"
  by (simp add: hdr_values_def hdr_del_def delete_conv')

lemma hdr_get_set:
  "hdr_get (hdr_set k v h) k' = (if canonicalKey k' = canonicalKey k then v else hdr_get h k')"
  by (simp add: hdr_get_values hdr_values_set)

lemma hdr_get_del:
  "hdr_get (hdr_del k h) k' = (if canonicalKey k' = canonicalKey k then [] else hdr_get h k')"
  by (simp add: hdr_get_values hdr_values_del)

lemma hdr_get_add:
  "hdr_get (hdr_add k v h) k' =
     (if canonicalKey k' = canonicalKey k then (case hdr_values h k of [] \<Rightarrow> v | w # _ \<Rightarrow> w)
      else hdr_get h k')"
  by (simp add: hdr_get_values hdr_values_add split: list.splits)

lemmas hdr_laws = hdr_values_set hdr_values_add hdr_values_del hdr_get_set hdr_get_del hdr_get_add

declare canonicalKey_def [go_simps] isTokenByte_def [go_simps] tokenCode_def [go_simps] hdr_get_def [go_simps]
  hdr_values_def [go_simps] hdr_set_def [go_simps] hdr_add_def [go_simps] hdr_del_def [go_simps]

section \<open>URLs, requests and responses\<close>

record URL =
  u_scheme :: string
  u_opaque :: string
  u_host :: string
  u_path :: string
  u_query :: string

record Request =
  r_method :: string
  r_host :: string
  r_remote :: string
  r_proto :: string
  r_url :: "URL option"
  r_header :: Header
  r_body :: string
  r_length :: int

text \<open>A response; \<open>resp_body\<close> is the body not yet read, \<open>resp_length\<close> the \<open>ContentLength\<close> field.\<close>

record Response =
  resp_status :: int
  resp_header :: Header
  resp_body :: string
  resp_length :: int
  resp_request :: Request

definition empty_url :: URL where
  "empty_url = \<lparr>u_scheme = [], u_opaque = [], u_host = [], u_path = [], u_query = []\<rparr>"

definition req_get :: "Request \<Rightarrow> string \<Rightarrow> string" where
  "req_get r k = hdr_get (r_header r) k"

definition req_set :: "string \<Rightarrow> string \<Rightarrow> Request \<Rightarrow> Request" where
  "req_set k v r = r\<lparr>r_header := hdr_set k v (r_header r)\<rparr>"

definition req_del :: "string \<Rightarrow> Request \<Rightarrow> Request" where
  "req_del k r = r\<lparr>r_header := hdr_del k (r_header r)\<rparr>"

lemma req_get_set [simp]:
  "req_get (req_set k v r) k' = (if canonicalKey k' = canonicalKey k then v else req_get r k')"
  by (simp add: req_get_def req_set_def hdr_get_set)

lemma req_get_del [simp]:
  "req_get (req_del k r) k' = (if canonicalKey k' = canonicalKey k then [] else req_get r k')"
  by (simp add: req_get_def req_del_def hdr_get_del)

lemma req_set_fields [simp]:
  "r_method (req_set k v r) = r_method r" "r_host (req_set k v r) = r_host r"
  "r_remote (req_set k v r) = r_remote r" "r_url (req_set k v r) = r_url r"
  "r_body (req_set k v r) = r_body r" "r_length (req_set k v r) = r_length r" "r_proto (req_set k v r) = r_proto r"
  by (simp_all add: req_set_def)

lemma req_del_fields [simp]:
  "r_method (req_del k r) = r_method r" "r_host (req_del k r) = r_host r"
  "r_remote (req_del k r) = r_remote r" "r_url (req_del k r) = r_url r"
  "r_body (req_del k r) = r_body r" "r_length (req_del k r) = r_length r" "r_proto (req_del k r) = r_proto r"
  by (simp_all add: req_del_def)

text \<open>\<open>resp_set\<close>, \<open>resp_add\<close>, \<open>resp_del\<close>: the header operations on a response.\<close>

definition resp_get :: "Response \<Rightarrow> string \<Rightarrow> string" where
  "resp_get r k = hdr_get (resp_header r) k"

definition resp_set :: "string \<Rightarrow> string \<Rightarrow> Response \<Rightarrow> Response" where
  "resp_set k v r = r\<lparr>resp_header := hdr_set k v (resp_header r)\<rparr>"

definition resp_add :: "string \<Rightarrow> string \<Rightarrow> Response \<Rightarrow> Response" where
  "resp_add k v r = r\<lparr>resp_header := hdr_add k v (resp_header r)\<rparr>"

definition resp_del :: "string \<Rightarrow> Response \<Rightarrow> Response" where
  "resp_del k r = r\<lparr>resp_header := hdr_del k (resp_header r)\<rparr>"

lemma resp_values:
  "hdr_values (resp_header (resp_set k v r)) k' =
     (if canonicalKey k' = canonicalKey k then [v] else hdr_values (resp_header r) k')"
  "hdr_values (resp_header (resp_add k v r)) k' =
     (if canonicalKey k' = canonicalKey k then hdr_values (resp_header r) k @ [v] else hdr_values (resp_header r) k')"
  "hdr_values (resp_header (resp_del k r)) k' =
     (if canonicalKey k' = canonicalKey k then [] else hdr_values (resp_header r) k')"
  by (simp_all add: resp_set_def resp_add_def resp_del_def hdr_laws)

lemmas resp_defs = resp_get_def resp_set_def resp_add_def resp_del_def

declare req_get_def [go_simps] req_set_def [go_simps] req_del_def [go_simps] resp_defs [go_simps]

section \<open>Response writers\<close>

text \<open>
  An \<open>http.ResponseWriter\<close> of the server: the header map, the status and header already sent, and
  the body written so far. The first \<open>WriteHeader\<close> sends the header map as it is then; later changes
  of the map or of the status have no effect, and \<open>Write\<close> sends status 200 if nothing was sent.
\<close>

record ResponseWriter =
  rw_header :: Header
  rw_sent :: "(int \<times> Header) option"
  rw_body :: string

definition new_writer :: ResponseWriter where
  "new_writer = \<lparr>rw_header = [], rw_sent = None, rw_body = []\<rparr>"

definition rw_set :: "string \<Rightarrow> string \<Rightarrow> ResponseWriter \<Rightarrow> ResponseWriter" where
  "rw_set k v w = w\<lparr>rw_header := hdr_set k v (rw_header w)\<rparr>"

definition rw_WriteHeader :: "int \<Rightarrow> ResponseWriter \<Rightarrow> ResponseWriter" where
  "rw_WriteHeader code w = (if rw_sent w = None then w\<lparr>rw_sent := Some (code, rw_header w)\<rparr> else w)"

definition rw_Write :: "string \<Rightarrow> ResponseWriter \<Rightarrow> ResponseWriter" where
  "rw_Write data w = (let w = rw_WriteHeader 200 w in w\<lparr>rw_body := rw_body w @ data\<rparr>)"

lemmas rw_defs = new_writer_def rw_set_def rw_WriteHeader_def rw_Write_def

end
