(* ===== verification/Config.thy ===== *)
theory Config
  imports GoMaps
begin

text \<open>
  The configuration of \<open>internal/config\<close>: the structures of \<open>gw_config.go\<close>, \<open>app_config.go\<close>,
  \<open>config.go\<close>, \<open>frontend_config.go\<close>, \<open>backend_config.go\<close> and \<open>custom_service_config.go\<close> with all
  their fields, the default configuration, the loaders and the merge of the files. Reading a file
  and the decoders of the packages json and toml are parameters: a decoder yields the decoded value
  and whether it reported an error.
\<close>

section \<open>The configuration structures\<close>

record ProxyConfig =
  px_flushInterval :: int
  px_bufSize :: int
  px_transport :: string
  px_proxyMode :: string
  px_maxConnsPerHost :: int
  px_idleConnTimeout :: int

record CertConfig =
  crt_domains :: "string list"
  crt_certFile :: string
  crt_keyFile :: string

record TLSConfig =
  tls_certMap :: "(string, CertConfig) gomap"
  tls_autoTLS :: bool

record DomainConfig =
  dom_domains :: "string list"
  dom_useTLS :: bool
  dom_autoRedirect :: bool
  dom_useWebsocket :: bool
  dom_hSTSMaxAge :: int
  dom_hSTSSubdomains :: bool
  dom_hSTSPreload :: bool

record ServerConfig =
  srv_name :: string
  srv_host :: string
  srv_port :: int
  srv_useHttp2 :: bool
  srv_protocol :: string
  srv_enabled :: bool
  srv_maxRequestBody :: int
  srv_tLS :: "TLSConfig option"
  srv_domainConfig :: "DomainConfig list"
  srv_serviceDomains :: "string list"
  srv_service :: string
  srv_readTimeout :: int
  srv_writeTimeout :: int
  srv_idleTimeout :: int
  srv_readHeaderTimeout :: int
  srv_maxHeaderBytes :: int

record BreakConfig =
  brk_bucket :: int
  brk_maxError :: int
  brk_reset :: int

record RateLimit =
  lim_requests :: int
  lim_window :: string
  lim_unit :: string
  lim_mode :: string

record FlowControlRule =
  fr_name :: string
  fr_enabled :: bool
  fr_priority :: int
  fr_matchType :: string
  fr_matchValue :: string
  fr_headerKey :: string
  fr_limits :: "RateLimit list"
  fr_action :: string
  fr_description :: string

record FlowRecordConfig =
  frc_enabled :: bool
  frc_recordBlocked :: bool
  frc_recordAllowed :: bool
  frc_storageType :: string
  frc_retentionPeriod :: string

record FlowControlConfig =
  fcc_enabled :: bool
  fcc_globalLimit :: RateLimit
  fcc_rules :: "FlowControlRule list"
  fcc_recording :: FlowRecordConfig

record SanitizerConfig =
  san_enabled :: bool

record DomainCheck =
  dck_enabled :: bool

record GzipConfig =
  gz_enabled :: bool
  gz_level :: int
  gz_types :: "string list"
  gz_threshold :: int

record TraceConfig =
  trc_enabled :: bool
  trc_traceId :: string

record CorsConfig =
  crs_enabled :: bool
  crs_method :: "string list"
  crs_origin :: "string list"
  crs_header :: "string list"

record ImageProtectConfig =
  imp_enabled :: bool
  imp_imageType :: "string list"
  imp_allowReferer :: "string list"

record MiddlewareConfig =
  mw_gzip :: GzipConfig
  mw_noCache :: bool
  mw_secureHeader :: bool
  mw_trace :: TraceConfig
  mw_cORS :: CorsConfig
  mw_sanitizer :: SanitizerConfig
  mw_domainCheck :: DomainCheck
  mw_imageProtect :: ImageProtectConfig

record HTTP3Config =
  h3_enabled :: bool
  h3_maxConnections :: int
  h3_idleTimeout :: int
  h3_keepAlive :: int

record WebSocketConfig =
  ws_enabled :: bool
  ws_pingInterval :: int
  ws_pongTimeout :: int
  ws_maxMessageSize :: int
  ws_bufferSize :: int

record CacheConfig =
  cch_enabled :: bool
  cch_size :: int
  cch_tTL :: int
  cch_strategy :: string

record AutoCertConfig =
  acf_email :: string
  acf_domains :: "string list"

record GrpcProxyConfig =
  grc_enabled :: bool
  grc_hosts :: "string list"
  grc_grpcHeader :: string
  grc_grpcAddr :: string

record FeatureConfig =
  ft_hTTP3 :: HTTP3Config
  ft_webSocket :: WebSocketConfig
  ft_cache :: CacheConfig
  ft_autoCert :: AutoCertConfig
  ft_grpcProxy :: GrpcProxyConfig
  ft_flowControl :: FlowControlConfig
  ft_break :: BreakConfig

record MongoConfig =
  mgo_uRL :: string
  mgo_database :: string
  mgo_timeout :: int

record InfluxConfig =
  ifx_enabled :: bool
  ifx_uRL :: string
  ifx_token :: string
  ifx_org :: string
  ifx_bucket :: string
  ifx_password :: string

record DatabaseConfig =
  db_mongo :: MongoConfig
  db_influx :: InfluxConfig

record MonitorConfig =
  mon_enabled :: bool
  mon_port :: int
  mon_path :: string
  mon_interval :: int
  mon_prometheus :: bool

record SecurityConfig =
  sec_strictMode :: bool
  sec_allowIPs :: "string list"
  sec_denyIPs :: "string list"
  sec_rateLimit :: int
  sec_hSTS :: bool
  sec_hSTSSubdomain :: bool
  sec_hSTSPreload :: bool
  sec_xssProtection :: bool
  sec_iFrameProtection :: bool
  sec_sameSite :: bool

record FrontProxyConfig =
  fpc_grpcAddr :: string
  fpc_frontendFlag :: string
  fpc_frontendHost :: string
  fpc_frontendPort :: int

record ProxyHeader =
  ph_traceId :: string
  ph_frontendHostHeader :: string
  ph_forwardHostHeader :: string
  ph_backendHeader :: string
  ph_proxyApp :: string

record LogConfig =
  lg_logLevel :: string
  lg_logFile :: string
  lg_color :: bool

record ModuleConfig =
  md_name :: string
  md_path :: string
  md_type :: string

record SequenceConfig =
  seq_enabled :: bool
  seq_interval :: int

record StatConfig =
  st_dBFile :: string
  st_useDB :: bool
  st_compatible :: bool
  st_enabled :: bool
  st_host :: string
  st_port :: int
  st_enableStat :: bool
  st_syncDuration :: int
  st_saveDuration :: int
  st_saveFile :: string
  st_geoFile :: string
  st_domainFile :: string
  st_geoDB :: string
  st_sequence :: SequenceConfig

record PProf =
  pp_enable :: bool
  pp_port :: int

record FrontCacheConfig =
  fca_enable :: bool
  fca_dir :: string
  fca_expire :: int
  fca_matcher :: "string list"

record BackendConfig =
  be_aPI :: string
  be_service :: string
  be_useRewrite :: bool
  be_rewrite :: string

record FrontServerConfig =
  fs_type :: string
  fs_name :: string
  fs_root :: string
  fs_index :: string
  fs_tryFile :: string
  fs_access :: bool
  fs_compress :: bool
  fs_alias :: "(string, string) gomap"
  fs_backends :: "BackendConfig list"

record ErrorConfig =
  ec_notFound :: string
  ec_internalServerError :: string

record CustomHeaderConfig =
  chc_name :: string
  chc_value :: string

record PxyFrontConfig =
  pf_host :: string
  pf_port :: int
  pf_balancer :: string
  pf_cache :: FrontCacheConfig
  pf_internalFlag :: string
  pf_internalLocalFlag :: string
  pf_internalBackendFlag :: string
  pf_cacheHeader :: string
  pf_servers :: "FrontServerConfig list"
  pf_error :: ErrorConfig
  pf_customHeaders :: "CustomHeaderConfig list"

record BackendResponse =
  brs_path :: string
  brs_code :: int
  brs_msg :: string
  brs_headers :: "(string, string) gomap"

record BackendServer =
  bs_serviceName :: string
  bs_host :: string
  bs_port :: int
  bs_response :: "BackendResponse list"

record PxyBackendConfig =
  pb_enabled :: bool
  pb_servers :: "BackendServer list"

record Upstream =
  up_host :: string
  up_port :: int

record CustomServiceConfig =
  cs_domain :: string
  cs_upstream :: "Upstream list"

record PxyCustomServiceConfig =
  pcs_enable :: bool
  pcs_customService :: "CustomServiceConfig list"

record Syncer =
  sy_jobSyncDomainsMap :: int
  sy_jobSyncDomainPorts :: int

record AppConfig =
  ac_pxyBackendFile :: string
  ac_pxyFrontendFile :: string
  ac_domainMap :: string
  ac_coreProxy :: ProxyConfig
  ac_servers :: "ServerConfig list"
  ac_middleware :: MiddlewareConfig
  ac_features :: FeatureConfig
  ac_database :: DatabaseConfig
  ac_security :: SecurityConfig
  ac_proxyHeader :: ProxyHeader
  ac_log :: LogConfig
  ac_module :: "ModuleConfig list"
  ac_stat :: StatConfig
  ac_customHeader :: "(string, string) gomap"
  ac_syncer :: Syncer
  ac_debug :: bool
  ac_pProf :: PProf
  ac_maxCores :: int
  ac_pxyBackend :: PxyBackendConfig
  ac_pxyFrontend :: PxyFrontConfig

record Config =
  cfg_coreProxy :: ProxyConfig
  cfg_servers :: "ServerConfig list"
  cfg_middleware :: MiddlewareConfig
  cfg_features :: FeatureConfig
  cfg_database :: DatabaseConfig
  cfg_security :: SecurityConfig
  cfg_proxyHeader :: ProxyHeader
  cfg_log :: LogConfig
  cfg_module :: "ModuleConfig list"
  cfg_stat :: StatConfig
  cfg_customHeader :: "(string, string) gomap"
  cfg_syncer :: Syncer
  cfg_debug :: bool
  cfg_pProf :: PProf
  cfg_maxCores :: int
  cfg_pxyBackend :: PxyBackendConfig
  cfg_pxyFrontend :: PxyFrontConfig
  cfg_pxyCustomService :: PxyCustomServiceConfig

section \<open>Zero values\<close>

definition zero_ProxyConfig :: ProxyConfig where
  "zero_ProxyConfig = \<lparr>px_flushInterval = 0, px_bufSize = 0, px_transport = [], px_proxyMode = [],
     px_maxConnsPerHost = 0, px_idleConnTimeout = 0\<rparr>"

definition zero_ServerConfig :: ServerConfig where
  "zero_ServerConfig = \<lparr>srv_name = [], srv_host = [], srv_port = 0, srv_useHttp2 = False, srv_protocol = [],
     srv_enabled = False, srv_maxRequestBody = 0, srv_tLS = None, srv_domainConfig = [],
     srv_serviceDomains = [], srv_service = [], srv_readTimeout = 0, srv_writeTimeout = 0,
     srv_idleTimeout = 0, srv_readHeaderTimeout = 0, srv_maxHeaderBytes = 0\<rparr>"

definition zero_RateLimit :: RateLimit where
  "zero_RateLimit = \<lparr>lim_requests = 0, lim_window = [], lim_unit = [], lim_mode = []\<rparr>"

definition zero_FlowRecordConfig :: FlowRecordConfig where
  "zero_FlowRecordConfig = \<lparr>frc_enabled = False, frc_recordBlocked = False, frc_recordAllowed = False,
     frc_storageType = [], frc_retentionPeriod = []\<rparr>"

definition zero_FlowControlConfig :: FlowControlConfig where
  "zero_FlowControlConfig = \<lparr>fcc_enabled = False, fcc_globalLimit = zero_RateLimit, fcc_rules = [],
     fcc_recording = zero_FlowRecordConfig\<rparr>"

definition zero_MiddlewareConfig :: MiddlewareConfig where
  "zero_MiddlewareConfig =
     \<lparr>mw_gzip = \<lparr>gz_enabled = False, gz_level = 0, gz_types = [], gz_threshold = 0\<rparr>,
      mw_noCache = False, mw_secureHeader = False,
      mw_trace = \<lparr>trc_enabled = False, trc_traceId = []\<rparr>,
      mw_cORS = \<lparr>crs_enabled = False, crs_method = [], crs_origin = [], crs_header = []\<rparr>,
      mw_sanitizer = \<lparr>san_enabled = False\<rparr>, mw_domainCheck = \<lparr>dck_enabled = False\<rparr>,
      mw_imageProtect = \<lparr>imp_enabled = False, imp_imageType = [], imp_allowReferer = []\<rparr>\<rparr>"

definition zero_FeatureConfig :: FeatureConfig where
  "zero_FeatureConfig =
     \<lparr>ft_hTTP3 = \<lparr>h3_enabled = False, h3_maxConnections = 0, h3_idleTimeout = 0, h3_keepAlive = 0\<rparr>,
      ft_webSocket = \<lparr>ws_enabled = False, ws_pingInterval = 0, ws_pongTimeout = 0, ws_maxMessageSize = 0,
        ws_bufferSize = 0\<rparr>,
      ft_cache = \<lparr>cch_enabled = False, cch_size = 0, cch_tTL = 0, cch_strategy = []\<rparr>,
      ft_autoCert = \<lparr>acf_email = [], acf_domains = []\<rparr>,
      ft_grpcProxy = \<lparr>grc_enabled = False, grc_hosts = [], grc_grpcHeader = [], grc_grpcAddr = []\<rparr>,
      ft_flowControl = zero_FlowControlConfig,
      ft_break = \<lparr>brk_bucket = 0, brk_maxError = 0, brk_reset = 0\<rparr>\<rparr>"

definition zero_SecurityConfig :: SecurityConfig where
  "zero_SecurityConfig = \<lparr>sec_strictMode = False, sec_allowIPs = [], sec_denyIPs = [], sec_rateLimit = 0,
     sec_hSTS = False, sec_hSTSSubdomain = False, sec_hSTSPreload = False, sec_xssProtection = False,
     sec_iFrameProtection = False, sec_sameSite = False\<rparr>"

definition zero_StatConfig :: StatConfig where
  "zero_StatConfig = \<lparr>st_dBFile = [], st_useDB = False, st_compatible = False, st_enabled = False,
     st_host = [], st_port = 0, st_enableStat = False, st_syncDuration = 0, st_saveDuration = 0,
     st_saveFile = [], st_geoFile = [], st_domainFile = [], st_geoDB = [],
     st_sequence = \<lparr>seq_enabled = False, seq_interval = 0\<rparr>\<rparr>"

definition zero_PxyFrontConfig :: PxyFrontConfig where
  "zero_PxyFrontConfig = \<lparr>pf_host = [], pf_port = 0, pf_balancer = [],
     pf_cache = \<lparr>fca_enable = False, fca_dir = [], fca_expire = 0, fca_matcher = []\<rparr>,
     pf_internalFlag = [], pf_internalLocalFlag = [], pf_internalBackendFlag = [], pf_cacheHeader = [],
     pf_servers = [], pf_error = \<lparr>ec_notFound = [], ec_internalServerError = []\<rparr>, pf_customHeaders = []\<rparr>"

definition zero_PxyBackendConfig :: PxyBackendConfig where
  "zero_PxyBackendConfig = \<lparr>pb_enabled = False, pb_servers = []\<rparr>"

definition zero_PxyCustomServiceConfig :: PxyCustomServiceConfig where
  "zero_PxyCustomServiceConfig = \<lparr>pcs_enable = False, pcs_customService = []\<rparr>"

section \<open>The default configuration\<close>

definition GetDefaultConfig :: AppConfig where
  "GetDefaultConfig =
     \<lparr>ac_pxyBackendFile = [], ac_pxyFrontendFile = [], ac_domainMap = [],
      ac_coreProxy = zero_ProxyConfig,
      ac_servers =
       [zero_ServerConfig\<lparr>srv_name := ''http-server'', srv_host := ''0.0.0.0'', srv_port := 80,
          srv_protocol := ''http'', srv_enabled := True, srv_maxRequestBody := 32 * 1024 * 1024\<rparr>,
        zero_ServerConfig\<lparr>srv_name := ''https-server'', srv_host := ''0.0.0.0'', srv_port := 443,
          srv_protocol := ''https'', srv_enabled := False, srv_maxRequestBody := 32 * 1024 * 1024,
          srv_tLS := Some \<lparr>tls_certMap = [(''renj.io'', \<lparr>crt_domains = [[]],
            crt_certFile = ''/path/to/cert.pem'', crt_keyFile = ''/path/to/key.pem''\<rparr>)], tls_autoTLS = False\<rparr>\<rparr>],
      ac_middleware = zero_MiddlewareConfig\<lparr>mw_gzip := \<lparr>gz_enabled = True, gz_level = 6,
        gz_types = [''text/html'', ''text/css'', ''text/javascript'', ''application/json''], gz_threshold = 0\<rparr>\<rparr>,
      ac_features = zero_FeatureConfig
       \<lparr>ft_hTTP3 := \<lparr>h3_enabled = False, h3_maxConnections = 1000, h3_idleTimeout = 60, h3_keepAlive = 30\<rparr>,
        ft_webSocket := \<lparr>ws_enabled = False, ws_pingInterval = 10, ws_pongTimeout = 10,
          ws_maxMessageSize = 1048576, ws_bufferSize = 1024\<rparr>,
        ft_cache := \<lparr>cch_enabled = True, cch_size = 1000, cch_tTL = 60, cch_strategy = ''lru''\<rparr>\<rparr>,
      ac_database =
       \<lparr>db_mongo = \<lparr>mgo_uRL = ''mongodb://localhost:27017'', mgo_database = ''sandwich'', mgo_timeout = 10\<rparr>,
        db_influx = \<lparr>ifx_enabled = False, ifx_uRL = ''http://localhost:8086'', ifx_token = [],
          ifx_org = ''sandwich'', ifx_bucket = ''metrics'', ifx_password = []\<rparr>\<rparr>,
      ac_security = zero_SecurityConfig\<lparr>sec_rateLimit := 1000\<rparr>,
      ac_proxyHeader = \<lparr>ph_traceId = ''X-Gateway-Trace-Id'', ph_frontendHostHeader = ''X-Proxy-Internal-Host'',
        ph_forwardHostHeader = [], ph_backendHeader = ''X-Proxy-Internal-Local'', ph_proxyApp = ''X-Proxy-Backend''\<rparr>,
      ac_log = \<lparr>lg_logLevel = [], lg_logFile = [], lg_color = False\<rparr>,
      ac_module = [],
      ac_stat = zero_StatConfig\<lparr>st_dBFile := ''stat.db'', st_sequence := \<lparr>seq_enabled = True, seq_interval = 3600\<rparr>\<rparr>,
      ac_customHeader = [(''Proxy-Server'', ''Hamburger''), (''Proxy-Copyright'', ''renj.io'')],
      ac_syncer = \<lparr>sy_jobSyncDomainsMap = 0, sy_jobSyncDomainPorts = 0\<rparr>,
      ac_debug = False,
      ac_pProf = \<lparr>pp_enable = False, pp_port = 0\<rparr>,
      ac_maxCores = 0,
      ac_pxyBackend = zero_PxyBackendConfig,
      ac_pxyFrontend = zero_PxyFrontConfig\<rparr>"

section \<open>Loading and merging\<close>

text \<open>\<open>filepath.Ext\<close>: from the last dot of the last path element.\<close>

definition pathExt :: "string \<Rightarrow> string" where
  "pathExt path =
     (let base = takeWhile (\<lambda>c. c \<noteq> CHR ''/'') (rev path)
      in if CHR ''.'' \<in> set base then CHR ''.'' # rev (takeWhile (\<lambda>c. c \<noteq> CHR ''.'') base) else [])"

text \<open>The decoders of one structure: for JSON and for TOML, value and error flag.\<close>

type_synonym 'c decoder = "string \<Rightarrow> 'c \<times> bool"

definition LoadFrontConfig ::
    "(string \<Rightarrow> string option) \<Rightarrow> PxyFrontConfig decoder \<Rightarrow> PxyFrontConfig decoder \<Rightarrow> string \<Rightarrow> PxyFrontConfig \<times> bool" where
  "LoadFrontConfig read_file json toml file =
     (case read_file file of
        None \<Rightarrow> (zero_PxyFrontConfig, True)
      | Some contents \<Rightarrow>
          if pathExt file = ''.json'' then json contents
          else if pathExt file = ''.toml'' then toml contents
          else json contents)"

definition LoadBackendConfig ::
    "(string \<Rightarrow> string option) \<Rightarrow> PxyBackendConfig decoder \<Rightarrow> PxyBackendConfig decoder \<Rightarrow> string \<Rightarrow> PxyBackendConfig \<times> bool" where
  "LoadBackendConfig read_file json toml file =
     (case read_file file of
        None \<Rightarrow> (zero_PxyBackendConfig, True)
      | Some contents \<Rightarrow>
          if pathExt file = ''.json'' then json contents
          else if pathExt file = ''.toml'' then toml contents
          else (zero_PxyBackendConfig, snd (json contents)))"

text \<open>\<open>LoadConfig\<close> returns no configuration when the file cannot be read.\<close>

definition LoadConfig ::
    "(string \<Rightarrow> string option) \<Rightarrow> AppConfig decoder \<Rightarrow> AppConfig decoder \<Rightarrow> string \<Rightarrow> AppConfig option \<times> bool" where
  "LoadConfig read_file json toml file =
     (case read_file file of
        None \<Rightarrow> (None, True)
      | Some contents \<Rightarrow>
          map_prod Some id
            (if pathExt file = ''.json'' then json contents
             else if pathExt file = ''.toml'' then toml contents
             else json contents))"

text \<open>\<open>load_front\<close> and \<open>load_back\<close> are the two loaders above, applied to a file name.\<close>

definition Merge ::
    "(string \<Rightarrow> PxyFrontConfig \<times> bool) \<Rightarrow> (string \<Rightarrow> PxyBackendConfig \<times> bool) \<Rightarrow> AppConfig option \<Rightarrow> Config option" where
  "Merge load_front load_back app =
     (case app of
        None \<Rightarrow> None
      | Some a \<Rightarrow>
         (let conf = \<lparr>cfg_coreProxy = ac_coreProxy a, cfg_servers = ac_servers a, cfg_middleware = ac_middleware a,
                cfg_features = ac_features a, cfg_database = ac_database a, cfg_security = ac_security a,
                cfg_proxyHeader = ac_proxyHeader a, cfg_log = ac_log a, cfg_module = ac_module a,
                cfg_stat = ac_stat a, cfg_customHeader = ac_customHeader a, cfg_syncer = ac_syncer a,
                cfg_debug = ac_debug a, cfg_pProf = ac_pProf a, cfg_maxCores = ac_maxCores a,
                cfg_pxyBackend = ac_pxyBackend a, cfg_pxyFrontend = ac_pxyFrontend a,
                cfg_pxyCustomService = zero_PxyCustomServiceConfig\<rparr>;
              conf = (if ac_pxyFrontendFile a \<noteq> []
                then (let (fc, err) = load_front (ac_pxyFrontendFile a)
                      in if \<not> err then conf\<lparr>cfg_pxyFrontend := fc\<rparr> else conf) else conf);
              conf = (if ac_pxyBackendFile a \<noteq> []
                then (let (bc, err) = load_back (ac_pxyBackendFile a)
                      in if \<not> err then conf\<lparr>cfg_pxyBackend := bc\<rparr> else conf) else conf)
          in Some conf))"

text \<open>\<open>SyncerTime.Get\<close>: a stored number of seconds, or the default as it is given.\<close>

definition SyncerTime_Get :: "int \<Rightarrow> duration \<Rightarrow> duration" where
  "SyncerTime_Get s default_value = (if s = 0 then default_value else wrap64 (s * Second))"

text \<open>
  \<open>Merge\<close>: a front or back end file that loads replaces the inline section, one that does not
  load is ignored; no configuration file can enable the custom services; and a back end file whose
  extension is neither \<open>.json\<close> nor \<open>.toml\<close> is parsed for errors only, so that an empty section
  replaces the inline one.
\<close>

theorem merge_sections:
  assumes "Merge (LoadFrontConfig rd fjson ftoml) (LoadBackendConfig rd bjson btoml) (Some a) = Some conf"
  shows "\<not> pcs_enable (cfg_pxyCustomService conf)
    \<and> (cfg_pxyFrontend conf = (case LoadFrontConfig rd fjson ftoml (ac_pxyFrontendFile a) of (fc, err) \<Rightarrow>
         if ac_pxyFrontendFile a = [] \<or> err then ac_pxyFrontend a else fc))
    \<and> (ac_pxyBackendFile a = [] \<or> rd (ac_pxyBackendFile a) = None \<longrightarrow> cfg_pxyBackend conf = ac_pxyBackend a)
    \<and> (ac_pxyBackendFile a \<noteq> [] \<and> rd (ac_pxyBackendFile a) = Some text
         \<and> pathExt (ac_pxyBackendFile a) \<notin> {''.json'', ''.toml''} \<and> \<not> snd (bjson text)
       \<longrightarrow> cfg_pxyBackend conf = zero_PxyBackendConfig)"
proof -
  have "cfg_pxyCustomService conf = zero_PxyCustomServiceConfig"
    "cfg_pxyFrontend conf = (case LoadFrontConfig rd fjson ftoml (ac_pxyFrontendFile a) of (fc, err) \<Rightarrow>
         if ac_pxyFrontendFile a = [] \<or> err then ac_pxyFrontend a else fc)"
    "cfg_pxyBackend conf = (case LoadBackendConfig rd bjson btoml (ac_pxyBackendFile a) of (bc, err) \<Rightarrow>
         if ac_pxyBackendFile a = [] \<or> err then ac_pxyBackend a else bc)"
    using assms by (auto simp: Merge_def Let_def split: if_splits prod.splits)
  then show ?thesis by (auto simp: zero_PxyCustomServiceConfig_def LoadBackendConfig_def)
qed

theorem merge_sections_witness:
  "let a = GetDefaultConfig\<lparr>ac_pxyBackendFile := ''backend.yaml'', ac_pxyBackend := \<lparr>pb_enabled = True, pb_servers = []\<rparr>\<rparr>;
       rd = (\<lambda>file. Some ''contents''); fdec = (\<lambda>text. (zero_PxyFrontConfig, False));
       bdec = (\<lambda>text. (\<lparr>pb_enabled = True, pb_servers = []\<rparr>, False))
   in \<exists>conf. Merge (LoadFrontConfig rd fdec fdec) (LoadBackendConfig rd bdec bdec) (Some a) = Some conf
        \<and> \<not> pb_enabled (cfg_pxyBackend conf)"
proof -
  define a where "a = GetDefaultConfig\<lparr>ac_pxyBackendFile := ''backend.yaml'', ac_pxyBackend := \<lparr>pb_enabled = True, pb_servers = []\<rparr>\<rparr>"
  define rd where "rd = (\<lambda>file :: string. Some ''contents'')"
  define fdec where "fdec = (\<lambda>text :: string. (zero_PxyFrontConfig, False))"
  define bdec :: "PxyBackendConfig decoder" where "bdec = (\<lambda>text. (\<lparr>pb_enabled = True, pb_servers = []\<rparr>, False))"
  obtain conf where conf: "Merge (LoadFrontConfig rd fdec fdec) (LoadBackendConfig rd bdec bdec) (Some a) = Some conf"
    by (simp add: Merge_def Let_def case_prod_unfold)
  moreover have "\<not> pb_enabled (cfg_pxyBackend conf)"
    using merge_sections [OF conf, of "''contents''"]
    by (simp add: a_def rd_def bdec_def pathExt_def zero_PxyBackendConfig_def)
  ultimately show ?thesis unfolding Let_def a_def [symmetric] rd_def [symmetric] fdec_def [symmetric] bdec_def [symmetric] by blast
qed

end
