(* ===== verification/FlowControl.thy ===== *)
theory FlowControl
  imports Limiters GoHttp Config
begin

text \<open>
  The flow controller of \<open>gateway/flow_control/flow_control.go\<close>: it parses the configured limits,
  keeps one list of strategies per key and rule, checks a request against the rules in order of
  priority and then against the global limit, and drops the strategies of idle keys. The clock
  readings of a call are arguments; \<open>new_limiter\<close> and \<open>limiter_allow\<close> stand for \<open>rate.Limiter\<close>.
\<close>

section \<open>Rate limiters: one list of strategies per key\<close>

record ParsedRule =
  pr_requests :: int
  pr_window :: duration
  pr_mode :: string

record 'r RateLimiter =
  rl_rules :: "ParsedRule list"
  rl_limiters :: "(string, 'r strategy list) gomap"

text \<open>A conversion of an \<open>int\<close> times a unit; the product wraps. \<open>None\<close> is the error return.\<close>

definition parseDuration :: "string \<Rightarrow> string \<Rightarrow> duration option" where
  "parseDuration window unit =
     (case atoi window of
        None \<Rightarrow>
          if hasSuffix window ''s''
          then map_option (\<lambda>v. wrap64 (v * Second)) (atoi (trimSuffix window ''s''))
          else if hasSuffix window ''min''
          then map_option (\<lambda>v. wrap64 (v * Minute)) (atoi (trimSuffix window ''min''))
          else None
      | Some v \<Rightarrow>
          if unit = ''s'' then Some (wrap64 (v * Second))
          else if unit = ''min'' then Some (wrap64 (v * Minute))
          else None)"

text \<open>Limits whose duration does not parse are logged and left out.\<close>

definition parseLimit :: "RateLimit \<Rightarrow> ParsedRule option" where
  "parseLimit limit =
     map_option (\<lambda>d. \<lparr>pr_requests = lim_requests limit, pr_window = d, pr_mode = lim_mode limit\<rparr>)
       (parseDuration (lim_window limit) (lim_unit limit))"

definition createRateLimiter :: "RateLimit list \<Rightarrow> 'r RateLimiter" where
  "createRateLimiter limits = \<lparr>rl_rules = List.map_filter parseLimit limits, rl_limiters = []\<rparr>"

definition newStrategy ::
    "(float64 \<Rightarrow> int \<Rightarrow> 'r) \<Rightarrow> ParsedRule \<Rightarrow> readings \<Rightarrow> 'r strategy" where
  "newStrategy new_limiter rule now =
     (if pr_mode rule = ''fixed'' then FixedWindow (NewFixedWindowLimiter (pr_requests rule) (pr_window rule) now)
      else if pr_mode rule = ''leaky'' then LeakyBucket (NewLeakyBucketLimiter (pr_requests rule) (pr_window rule) now)
      else if pr_mode rule = ''token''
      then TokenBucket (NewTokenBucketLimiter new_limiter (pr_requests rule) (pr_window rule) now)
      else SlidingWindow (NewSlidingWindowLimiter (pr_requests rule) (pr_window rule) now))"

fun newStrategies ::
    "(float64 \<Rightarrow> int \<Rightarrow> 'r) \<Rightarrow> (nat \<Rightarrow> readings) \<Rightarrow> nat \<Rightarrow> ParsedRule list \<Rightarrow> 'r strategy list" where
  "newStrategies new_limiter created i [] = []"
| "newStrategies new_limiter created i (rule # rules) =
     newStrategy new_limiter rule (created i) # newStrategies new_limiter created (Suc i) rules"

text \<open>All strategies must allow the call; the first refusal ends the loop.\<close>

fun allow_loop :: "(readings \<Rightarrow> 's \<Rightarrow> 's \<times> bool) \<Rightarrow> (nat \<Rightarrow> readings) \<Rightarrow> nat \<Rightarrow> 's list \<Rightarrow> 's list \<times> bool" where
  "allow_loop allow called i [] = ([], True)"
| "allow_loop allow called i (s # ss) =
     (let (s', ok) = allow (called i) s
      in if ok then (let (ss', oks) = allow_loop allow called (Suc i) ss in (s' # ss', oks))
         else (s' # ss, False))"

definition RateLimiter_Allow ::
    "(float64 \<Rightarrow> int \<Rightarrow> 'r) \<Rightarrow> (time \<Rightarrow> 'r \<Rightarrow> 'r \<times> bool) \<Rightarrow> (nat \<Rightarrow> readings) \<Rightarrow> (nat \<Rightarrow> readings) \<Rightarrow>
     string \<Rightarrow> 'r RateLimiter \<Rightarrow> 'r RateLimiter \<times> bool" where
  "RateLimiter_Allow new_limiter limiter_allow created called key rl =
     (let strategies = (case gm_get (rl_limiters rl) key of Some ss \<Rightarrow> ss
                        | None \<Rightarrow> newStrategies new_limiter created 0 (rl_rules rl));
          (strategies', ok) = allow_loop (Strategy_Allow limiter_allow) called 0 strategies
      in (rl\<lparr>rl_limiters := gm_put key strategies' (rl_limiters rl)\<rparr>, ok))"

definition max_window :: "ParsedRule list \<Rightarrow> duration" where
  "max_window rules = fold (\<lambda>rule m. if pr_window rule > m then pr_window rule else m) rules 0"

definition last_accessed :: "'r strategy list \<Rightarrow> time" where
  "last_accessed ss = fold (\<lambda>s m. if time_after (Strategy_LastAccess s) m then Strategy_LastAccess s else m) ss zero_time"

definition RateLimiter_cleanup :: "time \<Rightarrow> 'r RateLimiter \<Rightarrow> 'r RateLimiter" where
  "RateLimiter_cleanup now rl =
     rl\<lparr>rl_limiters := filter (\<lambda>(key, ss). \<not> time_sub now (last_accessed ss) > max_window (rl_rules rl))
                       (rl_limiters rl)\<rparr>"

section \<open>The controller\<close>

record 'r FlowController =
  fc_config :: FlowControlConfig
  fc_globalLimiter :: "'r RateLimiter option"
  fc_ruleLimiters :: "(string, 'r RateLimiter) gomap"

definition NewFlowController :: "FlowControlConfig \<Rightarrow> 'r FlowController" where
  "NewFlowController cfg =
     (if fcc_enabled cfg
      then \<lparr>fc_config = cfg, fc_globalLimiter = Some (createRateLimiter [fcc_globalLimit cfg]),
            fc_ruleLimiters = fold (\<lambda>rule m. if fr_enabled rule
               then gm_put (fr_name rule) (createRateLimiter (fr_limits rule)) m else m) (fcc_rules cfg) []\<rparr>
      else \<lparr>fc_config = cfg, fc_globalLimiter = None, fc_ruleLimiters = []\<rparr>)"

text \<open>The two nested loops of \<open>getSortedRules\<close>.\<close>

definition swap_at :: "nat \<Rightarrow> nat \<Rightarrow> 'a list \<Rightarrow> 'a list" where
  "swap_at i j xs = xs[i := xs ! j, j := xs ! i]"

definition sort_inner :: "nat \<Rightarrow> FlowControlRule list \<Rightarrow> FlowControlRule list" where
  "sort_inner i rules =
     fold (\<lambda>j rs. if fr_priority (rs ! i) > fr_priority (rs ! j) then swap_at i j rs else rs)
       [i + 1..<length rules] rules"

definition getSortedRules :: "FlowControlRule list \<Rightarrow> FlowControlRule list" where
  "getSortedRules rules = fold sort_inner [0..<length rules - 1] rules"

definition getClientIP :: "Request \<Rightarrow> string" where
  "getClientIP req =
     (let xff = req_get req ''X-Forwarded-For'' in
      if xff \<noteq> [] then trimSpace (hd (splitChar CHR '','' xff))
      else let xri = req_get req ''X-Real-IP'' in
        if xri \<noteq> [] then xri
        else (case lastIndexChar CHR '':'' (r_remote req) of
                None \<Rightarrow> r_remote req
              | Some idx \<Rightarrow> take idx (r_remote req)))"

definition matchRule :: "Request \<Rightarrow> FlowControlRule \<Rightarrow> bool" where
  "matchRule req rule =
     (if fr_matchType rule = ''host''
      then r_host req = fr_matchValue rule \<or> strContains (r_host req) (fr_matchValue rule)
      else if fr_matchType rule = ''header''
      then (let v = req_get req (fr_headerKey rule)
            in v = fr_matchValue rule \<or> strContains v (fr_matchValue rule))
      else if fr_matchType rule = ''ip'' then getClientIP req = fr_matchValue rule
      else False)"

definition generateKey :: "Request \<Rightarrow> FlowControlRule \<Rightarrow> string" where
  "generateKey req rule =
     (if fr_matchType rule = ''host'' then ''rule:'' @ fr_name rule @ '':host:'' @ r_host req
      else if fr_matchType rule = ''header''
      then ''rule:'' @ fr_name rule @ '':header:'' @ fr_headerKey rule @ '':'' @ req_get req (fr_headerKey rule)
      else if fr_matchType rule = ''ip'' then ''rule:'' @ fr_name rule @ '':ip:'' @ getClientIP req
      else ''rule:'' @ fr_name rule @ '':unknown'')"

definition generateGlobalKey :: "Request \<Rightarrow> string" where
  "generateGlobalKey req = ''global:ip:'' @ getClientIP req"

record FlowCheckResult =
  res_allowed :: bool
  res_ruleName :: string
  res_matchedRule :: "FlowControlRule option"
  res_reason :: string

definition allowed_result :: FlowCheckResult where
  "allowed_result = \<lparr>res_allowed = True, res_ruleName = [], res_matchedRule = None, res_reason = []\<rparr>"

definition rule_exceeded :: "FlowControlRule \<Rightarrow> FlowCheckResult" where
  "rule_exceeded rule = \<lparr>res_allowed = False, res_ruleName = fr_name rule, res_matchedRule = Some rule,
     res_reason = ''Rule '' @ [CHR 0x27] @ fr_name rule @ [CHR 0x27] @ '' rate limit exceeded''\<rparr>"

definition global_exceeded :: FlowCheckResult where
  "global_exceeded = \<lparr>res_allowed = False, res_ruleName = [], res_matchedRule = None,
     res_reason = ''Global rate limit exceeded''\<rparr>"

text \<open>
  The clock of one \<open>CheckRequest\<close>: \<open>ck j\<close> are the readings of the \<open>Allow\<close> call for the \<open>j\<close>-th rule of
  the sorted list (creation and calls), the global limiter's are those past the last rule.
\<close>

type_synonym check_clock = "nat \<Rightarrow> (nat \<Rightarrow> readings) \<times> (nat \<Rightarrow> readings)"

fun check_rules ::
    "(float64 \<Rightarrow> int \<Rightarrow> 'r) \<Rightarrow> (time \<Rightarrow> 'r \<Rightarrow> 'r \<times> bool) \<Rightarrow> check_clock \<Rightarrow> Request \<Rightarrow> nat \<Rightarrow>
     FlowControlRule list \<Rightarrow> (string, 'r RateLimiter) gomap \<Rightarrow>
     (string, 'r RateLimiter) gomap \<times> FlowControlRule option" where
  "check_rules nl la ck req j [] limiters = (limiters, None)"
| "check_rules nl la ck req j (rule # rules) limiters =
     (if \<not> fr_enabled rule then check_rules nl la ck req (Suc j) rules limiters
      else if matchRule req rule
      then (case gm_get limiters (fr_name rule) of
              None \<Rightarrow> check_rules nl la ck req (Suc j) rules limiters
            | Some limiter \<Rightarrow>
                (let (limiter', ok) = RateLimiter_Allow nl la (fst (ck j)) (snd (ck j)) (generateKey req rule) limiter;
                     limiters' = gm_put (fr_name rule) limiter' limiters
                 in if ok then check_rules nl la ck req (Suc j) rules limiters'
                    else (limiters', Some rule)))
      else check_rules nl la ck req (Suc j) rules limiters)"

definition CheckRequest ::
    "(float64 \<Rightarrow> int \<Rightarrow> 'r) \<Rightarrow> (time \<Rightarrow> 'r \<Rightarrow> 'r \<times> bool) \<Rightarrow> check_clock \<Rightarrow> Request \<Rightarrow>
     'r FlowController \<Rightarrow> 'r FlowController \<times> FlowCheckResult" where
  "CheckRequest nl la ck req fc =
     (if \<not> fcc_enabled (fc_config fc) then (fc, allowed_result)
      else let rules = getSortedRules (fcc_rules (fc_config fc));
               (limiters, refused) = check_rules nl la ck req 0 rules (fc_ruleLimiters fc);
               fc = fc\<lparr>fc_ruleLimiters := limiters\<rparr>
        in case refused of
             Some rule \<Rightarrow> (fc, rule_exceeded rule)
           | None \<Rightarrow>
              (case fc_globalLimiter fc of
                 None \<Rightarrow> (fc, allowed_result)
               | Some gl \<Rightarrow>
                   let (created, called) = ck (length rules);
                       (gl', ok) = RateLimiter_Allow nl la created called (generateGlobalKey req) gl;
                       fc = fc\<lparr>fc_globalLimiter := Some gl'\<rparr>
                   in if ok then (fc, allowed_result) else (fc, global_exceeded)))"

text \<open>One tick of \<open>CleanupExpiredRecords\<close>; \<open>now_global\<close> and \<open>now_rule\<close> are the clock readings.\<close>

definition CleanupExpiredRecords :: "time \<Rightarrow> (string \<Rightarrow> time) \<Rightarrow> 'r FlowController \<Rightarrow> 'r FlowController" where
  "CleanupExpiredRecords now_global now_rule fc =
     fc\<lparr>fc_globalLimiter := map_option (RateLimiter_cleanup now_global) (fc_globalLimiter fc),
        fc_ruleLimiters := map (\<lambda>(name, rl). (name, RateLimiter_cleanup (now_rule name) rl)) (fc_ruleLimiters fc)\<rparr>"

section \<open>Durations\<close>

lemma digitsVal_bad: "c \<in> set ds \<Longrightarrow> digitVal c = None \<Longrightarrow> digitsVal acc ds = None"
  by (induction ds arbitrary: acc) (auto split: option.splits)

lemma atoi_unit: "u \<noteq> [] \<Longrightarrow> digitVal (last u) = None \<Longrightarrow> last u \<notin> {CHR ''-'', CHR ''+''} \<Longrightarrow>
    atoi (itoa n @ u) = None"
proof -
  assume u: "u \<noteq> []" "digitVal (last u) = None" "last u \<notin> {CHR ''-'', CHR ''+''}"
  have bad: "digitsVal acc ds = None" if "last u \<in> set ds" for acc ds
    using digitsVal_bad [OF that u(2)] .
  obtain c cs where c: "itoa n = c # cs"
    by (metis itoa_def natDigits_not_Nil list.exhaust list.distinct(1))
  have "last u \<in> set (cs @ u)" using u(1) by simp
  then have none: "digitsVal acc (cs @ u) = None" for acc by (rule bad)
  then show ?thesis
    using u(1) by (auto simp: atoi_def Let_def c none split: option.splits)
qed

lemma trimSuffix_append [simp]: "trimSuffix (s @ t) t = s"
  by (simp add: trimSuffix_def hasSuffix_iff)

lemma hasSuffix_append [simp]: "hasSuffix (s @ t) t"
  by (auto simp: hasSuffix_iff)

lemma not_suffix_min_s [simp]: "\<not> hasSuffix (s @ ''min'') ''s''"
  by (simp add: hasSuffix_def hasPrefix_def)

text \<open>
  A limit's window parses to the duration it denotes: a number with the unit \<open>s\<close> or \<open>min\<close> beside
  it or glued to it, when the product fits a \<open>Duration\<close>; any other unit is an error.
\<close>

theorem parse_duration_correct:
  assumes "in_int64 n"
  shows "(in_int64 (n * Second) \<longrightarrow> parseDuration (itoa n) ''s'' = Some (n * Second)
           \<and> parseDuration (itoa n @ ''s'') unit = Some (n * Second))
    \<and> (in_int64 (n * Minute) \<longrightarrow> parseDuration (itoa n) ''min'' = Some (n * Minute)
           \<and> parseDuration (itoa n @ ''min'') unit = Some (n * Minute))
    \<and> (unit \<noteq> ''s'' \<and> unit \<noteq> ''min'' \<longrightarrow> parseDuration (itoa n) unit = None)"
proof -
  have "atoi (itoa n @ ''s'') = None" "atoi (itoa n @ ''min'') = None"
    by (rule atoi_unit; simp add: digitVal_def)+
  then show ?thesis
    using atoi_itoa [OF assms] by (simp add: parseDuration_def)
qed

theorem parse_duration_correct_witness:
  "parseDuration (itoa 90 @ ''s'') [] = Some (90 * Second) \<and> parseDuration (itoa 90) ''min'' = Some (90 * Minute)"
  using parse_duration_correct [of 90 "[]"] by (simp add: in_int64_bounds Second_def Minute_def)

section \<open>Rules in order of priority\<close>

lemma swap_at_simps:
  "length (swap_at i j xs) = length xs"
  "i < length xs \<Longrightarrow> j < length xs \<Longrightarrow> mset (swap_at i j xs) = mset xs"
  by (simp_all add: swap_at_def mset_swap)

lemma nth_swap_at:
  "i < length xs \<Longrightarrow> j < length xs \<Longrightarrow> k < length xs \<Longrightarrow>
     swap_at i j xs ! k = (if k = j then xs ! i else if k = i then xs ! j else xs ! k)"
  by (simp add: swap_at_def nth_list_update)

definition exchange_inv :: "nat \<Rightarrow> nat \<Rightarrow> FlowControlRule list \<Rightarrow> FlowControlRule list \<Rightarrow> bool" where
  "exchange_inv i m ys xs \<longleftrightarrow> mset xs = mset ys
     \<and> (\<forall>a b. a < i \<and> a < b \<and> b < length xs \<longrightarrow> fr_priority (xs ! a) \<le> fr_priority (xs ! b))
     \<and> (\<forall>b. i < b \<and> b < m \<and> b < length xs \<longrightarrow> fr_priority (xs ! i) \<le> fr_priority (xs ! b))"

lemma exchange_step:
  assumes inv: "exchange_inv i m ys xs" and lt: "i < m" "m < length xs"
  shows "exchange_inv i (Suc m) ys (if fr_priority (xs ! i) > fr_priority (xs ! m) then swap_at i m xs else xs)"
proof (cases "fr_priority (xs ! i) > fr_priority (xs ! m)")
  case True
  have i: "i < length xs" using lt by simp
  note nth = nth_swap_at [OF i lt(2)]
  have "fr_priority (swap_at i m xs ! a) \<le> fr_priority (swap_at i m xs ! b)"
    if "a < i" "a < b" "b < length xs" for a b
    using inv that lt i by (simp add: nth exchange_inv_def)
  moreover have "fr_priority (swap_at i m xs ! i) \<le> fr_priority (swap_at i m xs ! b)"
    if "i < b" "b < Suc m" "b < length xs" for b
    using inv that lt i True by (fastforce simp: nth exchange_inv_def less_Suc_eq)
  ultimately show ?thesis
    using True inv lt i by (simp add: exchange_inv_def swap_at_simps)
next
  case False
  with inv show ?thesis by (auto simp: exchange_inv_def less_Suc_eq)
qed

lemma sort_inner_inv:
  assumes "exchange_inv i (Suc i) ys xs" and "i < length xs"
  shows "exchange_inv i (length xs) ys (sort_inner i xs)" and "length (sort_inner i xs) = length xs"
proof -
  let ?f = "\<lambda>j rs. if fr_priority (rs ! i) > fr_priority (rs ! j) then swap_at i j rs else rs"
  define g where "g k = fold ?f [Suc i..<Suc i + k] xs" for k
  have g: "g 0 = xs" "g (Suc k) = ?f (Suc i + k) (g k)" for k
    by (simp_all add: g_def)
  have "exchange_inv i (Suc i + k) ys (g k) \<and> length (g k) = length xs" if "Suc i + k \<le> length xs" for k
    using that
  proof (induction k)
    case (Suc k)
    then have IH: "exchange_inv i (Suc i + k) ys (g k)" "length (g k) = length xs" by simp_all
    have "exchange_inv i (Suc (Suc i + k)) ys (?f (Suc i + k) (g k))"
      using IH Suc.prems by (intro exchange_step) simp_all
    then show ?case using IH(2) by (simp add: g swap_at_simps)
  qed (use assms in \<open>simp add: g\<close>)
  moreover have n: "Suc i + (length xs - Suc i) = length xs" using assms(2) by simp
  moreover have "sort_inner i xs = g (length xs - Suc i)"
    unfolding g_def n by (simp add: sort_inner_def)
  ultimately show "exchange_inv i (length xs) ys (sort_inner i xs)" "length (sort_inner i xs) = length xs"
    by (metis order_refl)+
qed

lemma sort_outer_inv:
  "k \<le> length rules - 1 \<Longrightarrow> exchange_inv k (Suc k) rules (fold sort_inner [0..<k] rules)
     \<and> length (fold sort_inner [0..<k] rules) = length rules"
proof (induction k)
  case (Suc k)
  let ?xs = "fold sort_inner [0..<k] rules"
  have IH: "exchange_inv k (Suc k) rules ?xs" "length ?xs = length rules" using Suc by simp_all
  have k: "k < length ?xs" using Suc.prems IH(2) by simp
  note inner = sort_inner_inv [OF IH(1) k]
  have "exchange_inv (Suc k) (Suc (Suc k)) rules (sort_inner k ?xs)"
    using inner by (auto simp: exchange_inv_def less_Suc_eq)
  with inner(2) IH(2) show ?case by simp
qed (simp add: exchange_inv_def)

text \<open>
  \<open>getSortedRules\<close> returns exactly the configured rules, ordered by priority.
\<close>

theorem sorted_rules_correct:
  "mset (getSortedRules rules) = mset rules \<and> sorted (map fr_priority (getSortedRules rules))"
proof -
  have "exchange_inv (length rules - 1) (Suc (length rules - 1)) rules (getSortedRules rules)"
    and len: "length (getSortedRules rules) = length rules"
    using sort_outer_inv [of "length rules - 1" rules] by (simp_all add: getSortedRules_def)
  then show ?thesis
    by (auto simp: exchange_inv_def sorted_iff_nth_mono_less)
qed

lemma set_getSortedRules: "set (getSortedRules rules) = set rules"
proof -
  have "exchange_inv (length rules - 1) (Suc (length rules - 1)) rules (getSortedRules rules)"
    using sort_outer_inv [of "length rules - 1" rules] by (simp add: getSortedRules_def)
  then show ?thesis unfolding exchange_inv_def by (metis set_mset_mset)
qed

end
