(* ===== verification/FlowGuarantees.thy ===== *)
theory FlowGuarantees
  imports FlowControl
begin

text \<open>
  What the flow controller guarantees end to end. For rules in the (default) sliding mode, a
  \<open>RateLimiter\<close> refines a reference that keeps, for every key and rule, the full history of allowed
  calls and never forgets anything; in particular \<open>cleanup\<close> changes no answer. From this follows a
  bound on the requests of one client that \<open>CheckRequest\<close> lets through.
\<close>

section \<open>The reference: full histories\<close>

definition sliding_mode :: "ParsedRule \<Rightarrow> bool" where
  "sliding_mode rule \<longleftrightarrow> pr_mode rule \<notin> {''fixed'', ''leaky'', ''token''}"

fun spec_loop :: "(nat \<Rightarrow> readings) \<Rightarrow> nat \<Rightarrow> ParsedRule list \<Rightarrow> time list list \<Rightarrow> time list list \<times> bool" where
  "spec_loop called i (rule # rules) (h # hs) =
     (if int (length (recent (pr_window rule) (called i 0) h)) < pr_requests rule
      then (let (hs', ok) = spec_loop called (Suc i) rules hs in ((h @ [called i 0]) # hs', ok))
      else (h # hs, False))"
| "spec_loop called i rules hs = (hs, True)"

section \<open>Strategies that stand for histories\<close>

fun stands_all :: "time \<Rightarrow> ParsedRule list \<Rightarrow> 'r strategy list \<Rightarrow> time list list \<Rightarrow> bool" where
  "stands_all t [] [] [] = True"
| "stands_all t (rule # rules) (s # ss) (h # hs) =
     ((\<exists>l. s = SlidingWindow l \<and> sw_limit l = pr_requests rule \<and> sw_window l = pr_window rule
         \<and> sw_stands_for t l h \<and> (\<forall>r \<in> set (sw_records l). r \<le> sw_lastAccess l))
      \<and> stands_all t rules ss hs)"
| "stands_all t _ _ _ = False"

definition idle :: "time \<Rightarrow> ParsedRule list \<Rightarrow> time list list \<Rightarrow> bool" where
  "idle t rules hs \<longleftrightarrow> list_all2 (\<lambda>rule h. recent (pr_window rule) t h = []) rules hs"

lemma sw_stands_mono: "sw_stands_for t l h \<Longrightarrow> t \<le> t' \<Longrightarrow> sw_stands_for t' l h"
  using recent_mono [of "sw_window l" t "sw_records l" h t'] by (fastforce simp: sw_stands_for_def)

lemma stands_all_mono: "stands_all t rules ss hs \<Longrightarrow> t \<le> t' \<Longrightarrow> stands_all t' rules ss hs"
  by (induction t rules ss hs rule: stands_all.induct) (auto intro: sw_stands_mono)

lemma stands_all_length: "stands_all t rules ss hs \<Longrightarrow> length ss = length rules \<and> length hs = length rules"
  by (induction t rules ss hs rule: stands_all.induct) auto

lemma idle_mono: "idle t rules hs \<Longrightarrow> t \<le> t' \<Longrightarrow> idle t' rules hs"
  unfolding idle_def recent_def filter_empty_conv by (erule list_all2_mono) force

lemma stands_new:
  "idle t rules hs \<Longrightarrow> \<forall>rule \<in> set rules. sliding_mode rule \<Longrightarrow>
     stands_all t rules (newStrategies nl created i rules) hs"
proof (induction rules arbitrary: hs i)
  case (Cons rule rules)
  then obtain h hs' where "hs = h # hs'" "recent (pr_window rule) t h = []" "idle t rules hs'"
    by (auto simp: idle_def list_all2_Cons1)
  with Cons show ?case
    by (auto simp: newStrategy_def sliding_mode_def NewSlidingWindowLimiter_def sw_stands_for_def recent_def)
qed (simp add: idle_def)

lemma allow_loop_spec:
  "stands_all t rules ss hs \<Longrightarrow> \<forall>rule \<in> set rules. window_ok (pr_window rule) \<Longrightarrow>
     \<forall>i. t \<le> called i 0 \<and> called i 0 \<le> e \<Longrightarrow>
     allow_loop (Strategy_Allow la) called i ss = (ss', ok) \<Longrightarrow> spec_loop called i rules hs = (hs', ok') \<Longrightarrow>
     ok = ok' \<and> stands_all e rules ss' hs'"
proof (induction t rules ss hs arbitrary: i ss' ok hs' ok' rule: stands_all.induct)
  case (2 t rule rules s ss h hs)
  then obtain l where l: "s = SlidingWindow l" "sw_limit l = pr_requests rule" "sw_window l = pr_window rule"
    "sw_stands_for t l h" "\<forall>r \<in> set (sw_records l). r \<le> sw_lastAccess l" and rest: "stands_all t rules ss hs"
    by auto
  have t: "t \<le> called i 0" "called i 0 \<le> e" and te: "t \<le> e" using "2.prems"(3) by (auto intro: order.trans)
  obtain l' b where al: "SlidingWindow_Allow (called i) l = (l', b)" by (meson surj_pair)
  have w: "window_ok (sw_window l)" using "2.prems"(2) l(3) by simp
  note st = sw_allow_stands [OF l(4) t(1) w al]
  have st_e: "sw_stands_for e l' (if b then h @ [called i 0] else h)" using st(2) t(2) by (rule sw_stands_mono)
  have rec: "\<forall>r \<in> set (sw_records l'). r \<le> sw_lastAccess l'" using st(2,5) by (simp add: sw_stands_for_def)
  show ?case
  proof (cases b)
    case True
    obtain ss1 ok1 where a1: "allow_loop (Strategy_Allow la) called (Suc i) ss = (ss1, ok1)" by (meson surj_pair)
    obtain hs1 ok2 where s1: "spec_loop called (Suc i) rules hs = (hs1, ok2)" by (meson surj_pair)
    have "ok1 = ok2 \<and> stands_all e rules ss1 hs1"
      using "2.IH" [OF rest _ _ a1 s1] "2.prems"(2,3) by simp
    with True "2.prems"(4,5) al l a1 s1 st rec st_e show ?thesis by (auto split: if_splits)
  next
    case False
    with "2.prems"(4,5) al l st rec st_e stands_all_mono [OF rest te] show ?thesis by (auto split: if_splits)
  qed
qed auto

section \<open>A rate limiter and the histories of its keys\<close>

fun key_rep :: "time \<Rightarrow> ParsedRule list \<Rightarrow> 'r strategy list option \<Rightarrow> time list list \<Rightarrow> bool" where
  "key_rep t rules (Some ss) hs = stands_all t rules ss hs"
| "key_rep t rules None hs = idle t rules hs"

lemma key_rep_mono: "key_rep t rules m hs \<Longrightarrow> t \<le> t' \<Longrightarrow> key_rep t' rules m hs"
  by (cases m) (auto intro: stands_all_mono idle_mono)

definition hist_rep :: "time \<Rightarrow> 'r RateLimiter \<Rightarrow> (string \<Rightarrow> time list list) \<Rightarrow> bool" where
  "hist_rep t rl H \<longleftrightarrow> gomap_ok (rl_limiters rl)
     \<and> (\<forall>k. key_rep t (rl_rules rl) (gm_get (rl_limiters rl) k) (H k))"

definition sliding_rules :: "ParsedRule list \<Rightarrow> bool" where
  "sliding_rules rules \<longleftrightarrow> (\<forall>rule \<in> set rules. sliding_mode rule \<and> window_ok (pr_window rule))"

lemma hist_rep_mono: "hist_rep t rl H \<Longrightarrow> t \<le> t' \<Longrightarrow> hist_rep t' rl H"
  unfolding hist_rep_def by (blast intro: key_rep_mono)

lemma hist_rep_new:
  "hist_rep t \<lparr>rl_rules = rules, rl_limiters = []\<rparr> (\<lambda>_. replicate (length rules) [])"
  by (simp add: hist_rep_def idle_def recent_def gomap_ok_def list_all2_conv_all_nth)

lemma allow_hist_rep:
  assumes rep: "hist_rep t rl H" and rules: "sliding_rules (rl_rules rl)"
    and clk: "\<forall>i. t \<le> called i 0 \<and> called i 0 \<le> e"
    and al: "RateLimiter_Allow nl la created called key rl = (rl', ok)"
    and sp: "spec_loop called 0 (rl_rules rl) (H key) = (hs', ok')"
  shows "ok = ok'" and "hist_rep e rl' (H(key := hs'))" and "rl_rules rl' = rl_rules rl"
proof -
  define ss where "ss = (case gm_get (rl_limiters rl) key of Some ss \<Rightarrow> ss
                         | None \<Rightarrow> newStrategies nl created 0 (rl_rules rl))"
  have st: "stands_all t (rl_rules rl) ss (H key)"
  proof -
    have "key_rep t (rl_rules rl) (gm_get (rl_limiters rl) key) (H key)" using rep by (simp add: hist_rep_def)
    then show ?thesis
      using rules stands_new [of t "rl_rules rl" "H key"]
      by (cases "gm_get (rl_limiters rl) key") (simp_all add: ss_def sliding_rules_def)
  qed
  obtain ss' b where lp: "allow_loop (Strategy_Allow la) called 0 ss = (ss', b)" by (meson surj_pair)
  have spec: "b = ok' \<and> stands_all e (rl_rules rl) ss' hs'"
    using allow_loop_spec [OF st _ clk lp sp] rules by (simp add: sliding_rules_def)
  have rl': "rl' = rl\<lparr>rl_limiters := gm_put key ss' (rl_limiters rl)\<rparr>" "ok = b"
    using al lp by (simp_all add: RateLimiter_Allow_def ss_def [symmetric])
  have te: "t \<le> e" using clk by (blast intro: order.trans)
  from rl' spec show "ok = ok'" "rl_rules rl' = rl_rules rl" by simp_all
  have "hist_rep e rl H" using rep te by (rule hist_rep_mono)
  then show "hist_rep e rl' (H(key := hs'))"
    using spec by (simp add: hist_rep_def rl' gomap_ok_intros update_conv')
qed

lemma fold_max_ge:
  fixes f :: "'s \<Rightarrow> int"
  shows "m \<le> fold (\<lambda>x m. if f x > m then f x else m) xs m
    \<and> (\<forall>x \<in> set xs. f x \<le> fold (\<lambda>x m. if f x > m then f x else m) xs m)"
proof (induction xs arbitrary: m)
  case (Cons x xs)
  show ?case using Cons [of "if f x > m then f x else m"] by (auto split: if_splits)
qed simp

lemma max_window_ge: "rule \<in> set rules \<Longrightarrow> pr_window rule \<le> max_window rules"
  using fold_max_ge [of 0 pr_window rules] by (simp add: max_window_def)

lemma last_accessed_ge: "s \<in> set ss \<Longrightarrow> Strategy_LastAccess s \<le> last_accessed ss"
  using fold_max_ge [of zero_time Strategy_LastAccess ss] by (simp add: last_accessed_def time_after_def)

text \<open>The strategies of an idle key no longer hold anything that a window reaches.\<close>

lemma stands_idle:
  "stands_all t rules ss hs \<Longrightarrow> t \<le> now \<Longrightarrow>
     \<forall>s \<in> set ss. \<forall>rule \<in> set rules. Strategy_LastAccess s + pr_window rule < now \<Longrightarrow> idle now rules hs"
proof (induction t rules ss hs rule: stands_all.induct)
  case (2 t rule rules s ss h hs)
  then obtain l where l: "s = SlidingWindow l" "sw_window l = pr_window rule"
    "sw_stands_for t l h" "\<forall>r \<in> set (sw_records l). r \<le> sw_lastAccess l" by auto
  have "sw_lastAccess l + pr_window rule < now" using "2.prems"(3) l(1) by (simp add: SlidingWindow_LastAccess_def)
  then have "recent (pr_window rule) now (sw_records l) = []"
    using l(4) by (fastforce simp: recent_def filter_empty_conv)
  moreover have "sw_stands_for now l h" using l(3) "2.prems"(2) by (rule sw_stands_mono)
  ultimately have "recent (pr_window rule) now h = []" using l(2) by (simp add: sw_stands_for_def)
  moreover have "idle now rules hs" using 2 by auto
  ultimately show ?case by (simp add: idle_def)
qed (auto simp: idle_def)

lemma map_of_filter_key:
  "distinct (map fst m) \<Longrightarrow> map_of (filter P m) k =
     (case map_of m k of Some v \<Rightarrow> if P (k, v) then Some v else None | None \<Rightarrow> None)"
  by (induction m) (auto split: option.splits simp: map_of_eq_None_iff image_iff)

lemma cleanup_hist_rep:
  assumes rep: "hist_rep t rl H" and now: "t \<le> now"
  shows "hist_rep now (RateLimiter_cleanup now rl) H" and "rl_rules (RateLimiter_cleanup now rl) = rl_rules rl"
proof -
  have repn: "hist_rep now rl H" using rep now by (rule hist_rep_mono)
  have idle: "idle now (rl_rules rl) (H k)"
    if "gm_get (rl_limiters rl) k = Some ss" "max_window (rl_rules rl) < time_sub now (last_accessed ss)" for k ss
  proof (rule stands_idle)
    show "stands_all now (rl_rules rl) ss (H k)"
      using repn that(1) unfolding hist_rep_def by (metis key_rep.simps(1))
    have "last_accessed ss + max_window (rl_rules rl) < now" 
    proof -
      have "0 \<le> max_window (rl_rules rl)"
        using fold_max_ge [of 0 pr_window "rl_rules rl"] by (simp add: max_window_def)
      then show ?thesis
        using that(2) by (simp add: time_sub_def int_min_def max_def min_def split: if_splits)
    qed
    then show "\<forall>s \<in> set ss. \<forall>rule \<in> set (rl_rules rl). Strategy_LastAccess s + pr_window rule < now"
      by (intro ballI) (rule le_less_trans [OF add_mono], rule last_accessed_ge, assumption,
          rule max_window_ge, assumption, assumption)
  qed simp
  have "key_rep now (rl_rules rl) (gm_get (rl_limiters (RateLimiter_cleanup now rl)) k) (H k)" for k
  proof -
    have "key_rep now (rl_rules rl) (gm_get (rl_limiters rl) k) (H k)" using repn by (simp add: hist_rep_def)
    then show ?thesis
      using idle [of k] repn
      by (cases "gm_get (rl_limiters rl) k")
        (auto simp: hist_rep_def gomap_ok_def RateLimiter_cleanup_def map_of_filter_key)
  qed
  then show "hist_rep now (RateLimiter_cleanup now rl) H"
    using repn by (auto simp: hist_rep_def RateLimiter_cleanup_def gomap_ok_intros)
  show "rl_rules (RateLimiter_cleanup now rl) = rl_rules rl" by (simp add: RateLimiter_cleanup_def)
qed

section \<open>Forgetting idle keys changes no answer\<close>

text \<open>A run of one limiter: calls and cleanups, each with the instant at which it is over.\<close>

datatype limiter_op = AllowOp string "nat \<Rightarrow> readings" "nat \<Rightarrow> readings" | CleanupOp time

fun limiter_clock :: "time \<Rightarrow> (limiter_op \<times> time) list \<Rightarrow> bool" where
  "limiter_clock t [] = True"
| "limiter_clock t ((AllowOp key created called, e) # ops) =
     ((\<forall>i. t \<le> called i 0 \<and> called i 0 \<le> e) \<and> limiter_clock e ops)"
| "limiter_clock t ((CleanupOp now, e) # ops) = (t \<le> now \<and> now \<le> e \<and> limiter_clock e ops)"

fun limiter_run ::
    "(float64 \<Rightarrow> int \<Rightarrow> 'r) \<Rightarrow> (time \<Rightarrow> 'r \<Rightarrow> 'r \<times> bool) \<Rightarrow> (limiter_op \<times> time) list \<Rightarrow> 'r RateLimiter \<Rightarrow> bool list" where
  "limiter_run nl la [] rl = []"
| "limiter_run nl la ((AllowOp key created called, e) # ops) rl =
     (let (rl', ok) = RateLimiter_Allow nl la created called key rl in ok # limiter_run nl la ops rl')"
| "limiter_run nl la ((CleanupOp now, e) # ops) rl = limiter_run nl la ops (RateLimiter_cleanup now rl)"

text \<open>The reference run: it keeps all histories and does nothing on a cleanup.\<close>

fun spec_run :: "ParsedRule list \<Rightarrow> (limiter_op \<times> time) list \<Rightarrow> (string \<Rightarrow> time list list) \<Rightarrow> bool list" where
  "spec_run rules [] H = []"
| "spec_run rules ((AllowOp key created called, e) # ops) H =
     (let (hs, ok) = spec_loop called 0 rules (H key) in ok # spec_run rules ops (H(key := hs)))"
| "spec_run rules ((CleanupOp now, e) # ops) H = spec_run rules ops H"

lemma limiter_run_spec:
  "hist_rep t rl H \<Longrightarrow> sliding_rules (rl_rules rl) \<Longrightarrow> limiter_clock t ops \<Longrightarrow>
     limiter_run nl la ops rl = spec_run (rl_rules rl) ops H"
proof (induction ops arbitrary: t rl H)
  case (Cons op ops)
  obtain k e where op: "op = (k, e)" by (meson surj_pair)
  show ?case
  proof (cases k)
    case (AllowOp key created called)
    obtain rl' ok where al: "RateLimiter_Allow nl la created called key rl = (rl', ok)" by (meson surj_pair)
    obtain hs ok' where sp: "spec_loop called 0 (rl_rules rl) (H key) = (hs, ok')" by (meson surj_pair)
    have clk: "\<forall>i. t \<le> called i 0 \<and> called i 0 \<le> e" "limiter_clock e ops"
      using Cons.prems(3) op AllowOp by auto
    note step = allow_hist_rep [OF Cons.prems(1,2) clk(1) al sp]
    have "limiter_run nl la ops rl' = spec_run (rl_rules rl') ops (H(key := hs))"
      using Cons.prems(2) step(3) by (intro Cons.IH [OF step(2) _ clk(2)]) simp
    then show ?thesis using step(1,3) op AllowOp al sp by (simp only: limiter_run.simps spec_run.simps Let_def prod.case)
  next
    case (CleanupOp now)
    then have t: "t \<le> now" "now \<le> e" "limiter_clock e ops" using Cons.prems(3) op by auto
    note step = cleanup_hist_rep [OF Cons.prems(1) t(1)]
    show ?thesis
      using Cons.IH [OF hist_rep_mono [OF step(1) t(2)] _ t(3)] Cons.prems(2) step(2) op CleanupOp by simp
  qed
qed simp

text \<open>
  C8. A rate limiter with sliding rules, created empty, answers every sequence of calls for any keys,
  with cleanups at any moments in between, as the reference does that remembers every allowed call
  of every key forever.
\<close>

theorem cleanup_transparent:
  assumes "sliding_rules rules" and "limiter_clock t ops"
  shows "limiter_run nl la ops \<lparr>rl_rules = rules, rl_limiters = []\<rparr>
       = spec_run rules ops (\<lambda>_. replicate (length rules) [])"
  using limiter_run_spec [OF hist_rep_new _ assms(2)] assms(1) by simp

theorem cleanup_transparent_witness:
  "let rule = \<lparr>pr_requests = 1, pr_window = 5, pr_mode = ''sliding''\<rparr>; clk = (\<lambda>t i j. t :: int);
       ops = [(AllowOp ''k'' (clk 1) (clk 1), 1), (CleanupOp 3, 3), (AllowOp ''k'' (clk 4) (clk 4), 4),
              (CleanupOp 20, 20), (AllowOp ''k'' (clk 21) (clk 21), 21)]
   in limiter_run (\<lambda>_ _. ()) (\<lambda>_ r. (r, True)) ops \<lparr>rl_rules = [rule], rl_limiters = []\<rparr> = [True, False, True]"
  unfolding Let_def
  by (subst cleanup_transparent [where t = 0])
    (simp_all add: sliding_rules_def sliding_mode_def window_ok_def int_max_def recent_def Let_def)

section \<open>What one client can get through\<close>

datatype fc_op = CheckOp check_clock Request | TickOp time "string \<Rightarrow> time"

fun fc_clock :: "time \<Rightarrow> (fc_op \<times> time) list \<Rightarrow> bool" where
  "fc_clock t [] = True"
| "fc_clock t ((CheckOp ck req, e) # ops) =
     ((\<forall>j i. t \<le> snd (ck j) i 0 \<and> snd (ck j) i 0 \<le> e) \<and> fc_clock e ops)"
| "fc_clock t ((TickOp now now_rule, e) # ops) = (t \<le> now \<and> now \<le> e \<and> fc_clock e ops)"

text \<open>
  The instants (of the global limiter's decision) at which the requests from \<open>ip\<close> were let through.
\<close>

fun admitted ::
    "(float64 \<Rightarrow> int \<Rightarrow> 'r) \<Rightarrow> (time \<Rightarrow> 'r \<Rightarrow> 'r \<times> bool) \<Rightarrow> string \<Rightarrow> (fc_op \<times> time) list \<Rightarrow>
     'r FlowController \<Rightarrow> time list" where
  "admitted nl la ip [] fc = []"
| "admitted nl la ip ((CheckOp ck req, e) # ops) fc =
     (let (fc', res) = CheckRequest nl la ck req fc; rest = admitted nl la ip ops fc'
      in if res_allowed res \<and> getClientIP req = ip
         then snd (ck (length (getSortedRules (fcc_rules (fc_config fc))))) 0 0 # rest else rest)"
| "admitted nl la ip ((TickOp now now_rule, e) # ops) fc =
     admitted nl la ip ops (CleanupExpiredRecords now now_rule fc)"

text \<open>\<open>CheckRequest\<close> lets a request through only with the global limiter's consent.\<close>

lemma check_request_global:
  assumes "fcc_enabled (fc_config fc)" and "fc_globalLimiter fc = Some gl"
    and "CheckRequest nl la ck req fc = (fc', res)"
    and "c = ck (length (getSortedRules (fcc_rules (fc_config fc))))"
    and "RateLimiter_Allow nl la (fst c) (snd c) (generateGlobalKey req) gl = (gl', ok)"
  shows "fc_config fc' = fc_config fc"
    and "res_allowed res \<and> ok \<and> fc_globalLimiter fc' = Some gl'
      \<or> \<not> res_allowed res \<and> fc_globalLimiter fc' = Some gl
      \<or> \<not> res_allowed res \<and> \<not> ok \<and> fc_globalLimiter fc' = Some gl'"
proof -
  obtain limiters refused where cr: "check_rules nl la ck req 0 (getSortedRules (fcc_rules (fc_config fc)))
      (fc_ruleLimiters fc) = (limiters, refused)" by (meson surj_pair)
  show "fc_config fc' = fc_config fc"
    using assms cr by (cases refused) (auto simp: CheckRequest_def Let_def case_prod_unfold split: if_splits)
  show "res_allowed res \<and> ok \<and> fc_globalLimiter fc' = Some gl'
      \<or> \<not> res_allowed res \<and> fc_globalLimiter fc' = Some gl
      \<or> \<not> res_allowed res \<and> \<not> ok \<and> fc_globalLimiter fc' = Some gl'"
    using assms cr
    by (cases refused) (auto simp: CheckRequest_def Let_def case_prod_unfold allowed_result_def
        rule_exceeded_def global_exceeded_def split: if_splits)
qed

lemma admitted_bound:
  assumes "sliding_rules [rule]" and "0 \<le> pr_requests rule"
  shows "fcc_enabled (fc_config fc) \<Longrightarrow> fc_globalLimiter fc = Some gl \<Longrightarrow> rl_rules gl = [rule] \<Longrightarrow>
     hist_rep t gl H \<Longrightarrow> H (''global:ip:'' @ ip) = [h] \<Longrightarrow> \<forall>u \<in> set h. u \<le> t \<Longrightarrow>
     \<forall>c. int (count_in (c - pr_window rule) c h) \<le> pr_requests rule \<Longrightarrow> fc_clock t ops \<Longrightarrow>
     (\<forall>k. \<exists>h. H k = [h]) \<Longrightarrow>
     int (count_in (b - pr_window rule) b (h @ admitted nl la ip ops fc)) \<le> pr_requests rule"
proof (induction ops arbitrary: t fc gl H h)
  case (Cons op ops)
  obtain k e where op: "op = (k, e)" by (meson surj_pair)
  show ?case
  proof (cases k)
    case (TickOp now now_rule)
    then have t: "t \<le> now" "now \<le> e" "fc_clock e ops" using Cons.prems(8) op by auto
    note step = cleanup_hist_rep [OF Cons.prems(4) t(1)]
    have "int (count_in (b - pr_window rule) b (h @ admitted nl la ip ops (CleanupExpiredRecords now now_rule fc)))
        \<le> pr_requests rule"
    proof (rule Cons.IH [of _ "RateLimiter_cleanup now gl" e H])
      show "hist_rep e (RateLimiter_cleanup now gl) H" using step(1) t(2) by (rule hist_rep_mono)
      show "\<forall>u \<in> set h. u \<le> e" using Cons.prems(6) t by force
    qed (use Cons.prems t step in \<open>simp_all add: CleanupExpiredRecords_def\<close>)
    then show ?thesis by (simp add: op TickOp)
  next
    case (CheckOp ck req)
    define c where "c = ck (length (getSortedRules (fcc_rules (fc_config fc))))"
    define key where "key = generateGlobalKey req"
    obtain fc' res where cr: "CheckRequest nl la ck req fc = (fc', res)" by (meson surj_pair)
    obtain gl' ok where al: "RateLimiter_Allow nl la (fst c) (snd c) key gl = (gl', ok)" by (meson surj_pair)
    obtain hk where hk: "H key = [hk]" using Cons.prems(9) by blast
    obtain hs ok' where sp: "spec_loop (snd c) 0 (rl_rules gl) (H key) = (hs, ok')" by (meson surj_pair)
    have clk: "\<forall>i. t \<le> snd c i 0 \<and> snd c i 0 \<le> e" "fc_clock e ops" and te: "t \<le> e"
      using Cons.prems(8) op CheckOp by (auto simp: c_def intro: order.trans)
    have "sliding_rules (rl_rules gl)" using assms(1) Cons.prems(3) by simp
    note step = allow_hist_rep [OF Cons.prems(4) this clk(1) al sp]
    have hs: "hs = [if ok then hk @ [snd c 0 0] else hk]"
      "ok = (int (length (recent (pr_window rule) (snd c 0 0) hk)) < pr_requests rule)"
      using sp Cons.prems(3) hk step(1) by (auto split: if_splits)
    note glob = check_request_global [OF Cons.prems(1,2) cr c_def, folded key_def, OF al]
    define h' where "h' = (if res_allowed res \<and> getClientIP req = ip then h @ [snd c 0 0] else h)"
    have key_ip: "getClientIP req = ip \<longleftrightarrow> key = ''global:ip:'' @ ip"
      by (simp add: key_def generateGlobalKey_def)
    obtain gl2 H2 where st: "fc_globalLimiter fc' = Some gl2" "rl_rules gl2 = [rule]" "hist_rep e gl2 H2"
      "H2 (''global:ip:'' @ ip) = [h']" "\<forall>k. \<exists>h. H2 k = [h]"
    proof -
      consider "res_allowed res" "ok" "fc_globalLimiter fc' = Some gl'"
        | "\<not> res_allowed res" "fc_globalLimiter fc' = Some gl"
        | "\<not> res_allowed res" "\<not> ok" "fc_globalLimiter fc' = Some gl'"
        using glob(2) by blast
      then show thesis
      proof cases
        case 1
        with step hs hk Cons.prems(3,5,9) key_ip show thesis
          by (intro that [of gl' "H(key := hs)"]) (auto simp: h'_def)
      next
        case 2
        with Cons.prems te show thesis
          by (intro that [of gl H]) (auto simp: h'_def intro: hist_rep_mono)
      next
        case 3
        with step hs hk Cons.prems(3,5,9) key_ip show thesis
          by (intro that [of gl' "H(key := hs)"]) (auto simp: h'_def)
      qed
    qed
    have h'_le: "\<forall>u \<in> set h'. u \<le> e" 
      unfolding h'_def using Cons.prems(6) clk(1) by (auto intro: order.trans [OF _ te])
    have h'_bound: "\<forall>d. int (count_in (d - pr_window rule) d h') \<le> pr_requests rule"
    proof (cases "res_allowed res \<and> getClientIP req = ip")
      case True
      then have "hk = h" "ok" using hk Cons.prems(5) key_ip glob(2) by auto
      then have lt: "int (length (recent (pr_window rule) (snd c 0 0) h)) < pr_requests rule" using hs(2) by simp
      have h_le: "\<forall>u \<in> set h. u \<le> snd c 0 0"
        using Cons.prems(6) clk(1) by (auto intro: order.trans [of _ t])
      show ?thesis
      proof
        fix d
        show "int (count_in (d - pr_window rule) d h') \<le> pr_requests rule"
          using count_in_recent [OF _ h_le, of d "pr_window rule"] lt Cons.prems(7) True
          by (cases "snd c 0 0 \<le> d") (fastforce simp: h'_def)+
      qed
    qed (use Cons.prems(7) in \<open>auto simp: h'_def\<close>)
    have "int (count_in (b - pr_window rule) b (h' @ admitted nl la ip ops fc')) \<le> pr_requests rule"
      using glob(1) Cons.prems(1) by (intro Cons.IH [OF _ st(1-4) h'_le h'_bound clk(2) st(5)]) simp
    moreover have "h @ admitted nl la ip (op # ops) fc = h' @ admitted nl la ip ops fc'"
      by (simp add: op CheckOp cr h'_def c_def Let_def)
    ultimately show ?thesis by (simp only:)
  qed
qed simp


definition sample_config :: FlowControlConfig where
  "sample_config = \<lparr>fcc_enabled = True,
     fcc_globalLimit = \<lparr>lim_requests = 1, lim_window = ''10'', lim_unit = ''s'', lim_mode = ''sliding''\<rparr>,
     fcc_rules = [], fcc_recording = zero_FlowRecordConfig\<rparr>"

definition sample_request :: Request where
  "sample_request = \<lparr>r_method = ''GET'', r_host = ''h'', r_remote = ''1.2.3.4:5'', r_proto = ''HTTP/1.1'',
     r_url = None, r_header = [], r_body = [], r_length = 0\<rparr>"

lemma parse_sample: "parseLimit (fcc_globalLimit sample_config) =
    Some \<lparr>pr_requests = 1, pr_window = 10 * Second, pr_mode = ''sliding''\<rparr>"
proof -
  have "parseDuration ''10'' ''s'' = Some (10 * Second)"
    by (simp add: parseDuration_def atoi_def digitVal_def Let_def in_int64_bounds Second_def)
  then show ?thesis by (simp add: parseLimit_def sample_config_def)
qed


end
