(* ===== verification/Balancer.thy ===== *)
theory Balancer
  imports GoMaps
begin

text \<open>
  The load balancer of \<open>gateway/balancer/balance.go\<close>: a global map from a key made of a list of
  ports to a round robin balancer with a 64-bit counter. The random choice of
  \<open>mathutil.RandomInt\<close>, a third-party function, is the parameter \<open>random_int\<close>.
\<close>

section \<open>State and operations\<close>

record LoadBalancer =
  lb_counter :: "64 word"
  lb_ports :: "int list"
  lb_length :: int
  lb_lastUpdate :: time

type_synonym balancer_cache = "LoadBalancer StructMap"

text \<open>The key of a list of ports: each port in decimal and a bar.\<close>

fun ports_key :: "int list \<Rightarrow> string" where
  "ports_key [] = []"
| "ports_key (port # ports) = itoa port @ ''|'' @ ports_key ports"

definition GetBalancer :: "time \<Rightarrow> int list \<Rightarrow> balancer_cache \<Rightarrow> balancer_cache \<times> LoadBalancer option" where
  "GetBalancer now ports cache =
     (if ports = [] then (cache, None)
      else (case Map_Get cache (ports_key ports) of
              Some lb \<Rightarrow> (cache, Some lb)
            | None \<Rightarrow>
                (let lb = \<lparr>lb_counter = 0, lb_ports = ports, lb_length = int (length ports), lb_lastUpdate = now\<rparr>
                 in (Map_Put (ports_key ports) lb cache, Some lb))))"

definition LoadBalancer_PickOne :: "LoadBalancer \<Rightarrow> LoadBalancer \<times> int" where
  "LoadBalancer_PickOne lb =
     (if lb_length lb = 1 then (lb, lb_ports lb ! 0)
      else (let c = lb_counter lb + 1; index = c mod word_of_int (lb_length lb)
            in (lb\<lparr>lb_counter := c\<rparr>, lb_ports lb ! unat index)))"

text \<open>The cache holds pointers: the counter moves in the balancer that the key stands for.\<close>

definition PickOneRoundRobin :: "time \<Rightarrow> int list \<Rightarrow> balancer_cache \<Rightarrow> balancer_cache \<times> int" where
  "PickOneRoundRobin now ports cache =
     (case GetBalancer now ports cache of
        (cache, None) \<Rightarrow> (cache, 0)
      | (cache, Some lb) \<Rightarrow>
          (let (lb', port) = LoadBalancer_PickOne lb in (Map_Put (ports_key ports) lb' cache, port)))"

text \<open>An index out of the slice's range panics.\<close>

definition index_at :: "'a list \<Rightarrow> int \<Rightarrow> 'a outcome" where
  "index_at xs i = (if 0 \<le> i \<and> i < int (length xs) then Return (xs ! nat i) else Panic)"

definition PickOne :: "(int \<Rightarrow> int \<Rightarrow> int) \<Rightarrow> int list \<Rightarrow> int outcome" where
  "PickOne random_int hosts =
     (if length hosts = 1 then Return (hosts ! 0)
      else index_at hosts (random_int 0 (int (length hosts) - 1)))"

definition PickOneAddrRoundRobin :: "(int \<Rightarrow> int \<Rightarrow> int) \<Rightarrow> (string \<times> int) list \<Rightarrow> (string \<times> int) outcome" where
  "PickOneAddrRoundRobin random_int addrs =
     (if addrs = [] then Return ([], 0)
      else index_at addrs (random_int 0 (int (length addrs) - 1)))"

section \<open>Keys\<close>

lemma ports_key_inj: "ports_key ps = ports_key qs \<Longrightarrow> ps = qs"
proof (induction ps arbitrary: qs)
  case Nil
  then show ?case by (cases qs) simp_all
next
  case (Cons p ps)
  then obtain q qs' where qs: "qs = q # qs'" by (cases qs) simp_all
  have "digitVal CHR ''|'' = None" by (simp add: digitVal_def)
  with itoa_cut [of "CHR ''|''" p "ports_key ps" q "ports_key qs'"] Cons qs show ?case by simp
qed

section \<open>Round robin\<close>

definition lb_of :: "balancer_cache \<Rightarrow> int list \<Rightarrow> nat \<Rightarrow> bool" where
  "lb_of cache ports k \<longleftrightarrow>
     (case Map_Get cache (ports_key ports) of
        None \<Rightarrow> k = 0
      | Some lb \<Rightarrow> lb_ports lb = ports \<and> lb_length lb = int (length ports)
          \<and> (length ports \<noteq> 1 \<longrightarrow> lb_counter lb = of_nat k))"

text \<open>A sequence of picks for lists of ports, in any mixture.\<close>

fun pick_run :: "(time \<times> int list) list \<Rightarrow> balancer_cache \<Rightarrow> int list" where
  "pick_run [] cache = []"
| "pick_run ((now, ports) # calls) cache =
     (let (cache', port) = PickOneRoundRobin now ports cache in port # pick_run calls cache')"

definition picks_for :: "int list \<Rightarrow> (time \<times> int list) list \<Rightarrow> balancer_cache \<Rightarrow> int list" where
  "picks_for ports calls cache =
     map snd (filter (\<lambda>(call, _). snd call = ports) (zip calls (pick_run calls cache)))"

lemma pick_other:
  assumes "ports \<noteq> qs"
  shows "Map_Get (fst (PickOneRoundRobin now qs cache)) (ports_key ports) = Map_Get cache (ports_key ports)"
  using assms ports_key_inj [of ports qs]
  by (auto simp: PickOneRoundRobin_def GetBalancer_def Map_Get_Put Let_def case_prod_unfold split: option.splits)

lemma unat_mod_of_nat:
  assumes "k < 2 ^ 64" and "0 < n" and "n < 2 ^ 64"
  shows "unat ((of_nat k :: 64 word) mod word_of_int (int n)) = k mod n"
  using assms by (simp add: unat_mod unat_of_nat take_bit_nat_eq_self_iff)

lemma pick_same:
  assumes "ports \<noteq> []" and "lb_of cache ports k" and "Suc k < 2 ^ 64" and "length ports < 2 ^ 64"
    and "PickOneRoundRobin now ports cache = (cache', port)"
  shows "port = ports ! (Suc k mod length ports)" and "lb_of cache' ports (Suc k)"
proof -
  obtain lb cache1 where g: "GetBalancer now ports cache = (cache1, Some lb)"
    "lb_ports lb = ports" "lb_length lb = int (length ports)" "length ports \<noteq> 1 \<longrightarrow> lb_counter lb = of_nat k"
    using assms(1,2)
    by (cases "Map_Get cache (ports_key ports)") (simp_all add: GetBalancer_def lb_of_def Let_def)
  obtain lb' where p: "LoadBalancer_PickOne lb = (lb', port)"
    "lb_ports lb' = ports" "lb_length lb' = int (length ports)"
    "length ports \<noteq> 1 \<longrightarrow> lb_counter lb' = of_nat (Suc k)" "cache' = Map_Put (ports_key ports) lb' cache1"
    using assms(5) g by (auto simp: PickOneRoundRobin_def LoadBalancer_PickOne_def Let_def case_prod_unfold split: if_splits)
  show "lb_of cache' ports (Suc k)" using p by (simp add: lb_of_def Map_Get_Put)
  show "port = ports ! (Suc k mod length ports)"
  proof (cases "length ports = 1")
    case True
    with p(1) g show ?thesis by (auto simp: LoadBalancer_PickOne_def)
  next
    case False
    have "unat ((of_nat (Suc k) :: 64 word) mod word_of_int (int (length ports))) = Suc k mod length ports"
      using assms by (intro unat_mod_of_nat) simp_all
    with False p(1) g show ?thesis by (auto simp: LoadBalancer_PickOne_def Let_def add.commute)
  qed
qed

lemma picks_for_cycle:
  "ports \<noteq> [] \<Longrightarrow> length ports < 2 ^ 64 \<Longrightarrow> lb_of cache ports k \<Longrightarrow> k + length calls < 2 ^ 64 \<Longrightarrow>
     picks_for ports calls cache
     = map (\<lambda>i. ports ! ((k + i + 1) mod length ports)) [0..<length (filter (\<lambda>call. snd call = ports) calls)]"
proof (induction calls arbitrary: cache k)
  case (Cons call calls)
  obtain now qs where call: "call = (now, qs)" by (meson surj_pair)
  obtain cache' port where p: "PickOneRoundRobin now qs cache = (cache', port)" by (meson surj_pair)
  show ?case
  proof (cases "qs = ports")
    case True
    note st = pick_same [OF Cons.prems(1,3) _ Cons.prems(2) p [unfolded True]]
    have "Suc k < 2 ^ 64" using Cons.prems(4) by simp
    note st = st [OF this]
    have "picks_for ports calls cache'
      = map (\<lambda>i. ports ! ((Suc k + i + 1) mod length ports)) [0..<length (filter (\<lambda>call. snd call = ports) calls)]"
      using Cons.prems by (intro Cons.IH [OF _ _ st(2)]) simp_all
    then show ?thesis
      using True st(1) p by (simp add: picks_for_def call map_upt_Suc del: upt_Suc)
  next
    case False
    have "lb_of cache' ports k"
      using pick_other [of ports qs now cache] False Cons.prems(3) p by (simp add: lb_of_def)
    then show ?thesis
      using Cons.IH [of cache' k] Cons.prems False p by (simp add: picks_for_def call)
  qed
qed (simp add: picks_for_def)

lemma rotate_mset: "mset (rotate a xs) = mset xs"
proof (induction a)
  case (Suc a)
  have "mset (rotate1 ys) = mset ys" for ys :: "'a list" by (cases ys) simp_all
  with Suc show ?case by simp
qed simp

lemma rotation_mset:
  assumes "xs \<noteq> []"
  shows "mset (map (\<lambda>i. xs ! ((a + i) mod length xs)) [0..<length xs]) = mset xs"
proof -
  have "map (\<lambda>i. xs ! ((a + i) mod length xs)) [0..<length xs] = rotate a xs"
    using assms by (intro nth_equalityI) (simp_all add: nth_rotate add.commute)
  then show ?thesis by (simp add: rotate_mset)
qed

text \<open>
  C35. Round robin is fair: from an empty cache, the calls for a list of ports walk through its ports
  in order, one after the other, whatever calls for other lists lie in between; any
  \<open>n\<close> consecutive picks from a list of \<open>n\<close> ports use every position exactly once (as long as the
  64-bit counter has not wrapped).
\<close>

theorem round_robin_fair:
  assumes "ports \<noteq> []" and "length ports < 2 ^ 64" and "length calls < 2 ^ 64"
    and "a + length ports \<le> length (filter (\<lambda>call. snd call = ports) calls)"
  shows "picks_for ports calls []
       = map (\<lambda>i. ports ! ((i + 1) mod length ports)) [0..<length (filter (\<lambda>call. snd call = ports) calls)]
    \<and> mset (take (length ports) (drop a (picks_for ports calls []))) = mset ports"
proof -
  let ?n = "length (filter (\<lambda>call. snd call = ports) calls)"
  have cyc: "picks_for ports calls [] = map (\<lambda>i. ports ! ((i + 1) mod length ports)) [0..<?n]"
    using picks_for_cycle [OF assms(1,2), of "[]" 0 calls] assms(3) by (simp add: lb_of_def Map_Get_def)
  have "take (length ports) (drop a (picks_for ports calls []))
      = map (\<lambda>i. ports ! ((i + 1) mod length ports)) [a..<a + length ports]"
    using assms(4) by (simp add: cyc take_map drop_map)
  also have "\<dots> = map (\<lambda>i. ports ! ((Suc a + i) mod length ports)) [0..<length ports]"
    by (rule nth_equalityI) (simp_all add: add.commute)
  finally show ?thesis using cyc rotation_mset [OF assms(1), of "Suc a"] by simp
qed

theorem round_robin_fair_witness:
  "picks_for [80, 81, 82] [(0, [80, 81, 82]), (0, [90]), (0, [80, 81, 82]), (0, [80, 81, 82])] [] = [81, 82, 80]"
  using round_robin_fair [of "[80, 81, 82]" "[(0, [80, 81, 82]), (0, [90]), (0, [80, 81, 82]), (0, [80, 81, 82])]" 0]
  by (simp add: upt_rec)

text \<open>
  With a random source that stays within its bounds, an upstream is one of those configured.
\<close>

lemma addr_member:
  assumes "addrs \<noteq> []" and "\<And>lo hi. lo \<le> hi \<Longrightarrow> lo \<le> random_int lo hi \<and> random_int lo hi \<le> hi"
  shows "\<exists>addr \<in> set addrs. PickOneAddrRoundRobin random_int addrs = Return addr"
proof -
  have "0 \<le> random_int 0 (int (length addrs) - 1) \<and> random_int 0 (int (length addrs) - 1) \<le> int (length addrs) - 1"
    using assms(1) by (intro assms(2)) (simp add: Suc_le_eq)
  then show ?thesis using assms(1) by (auto simp: PickOneAddrRoundRobin_def index_at_def)
qed

end
