(* ===== verification/Breaker.thy ===== *)
theory Breaker
  imports Config
begin

text \<open>
  The circuit breaker of \<open>gateway/breaker/breaker.go\<close> and the defaults of
  \<open>internal/utils/default.go\<close> it uses. A bucket counts the failures of a domain in a buffered
  channel that nobody receives from: the model keeps the number of buffered values and the
  capacity, and a send to a full channel never returns.
\<close>

section \<open>Defaults\<close>

definition DefaultInt :: "int \<Rightarrow> int \<Rightarrow> int" where
  "DefaultInt v def = (if v = 0 then def else v)"

definition DefaultInt64 :: "int \<Rightarrow> int \<Rightarrow> int" where
  "DefaultInt64 v def = (if v = 0 then def else v)"

definition DefaultString :: "string \<Rightarrow> string \<Rightarrow> string" where
  "DefaultString v def = (if v = [] then def else v)"

definition DefaultBool :: "bool \<Rightarrow> bool \<Rightarrow> bool" where
  "DefaultBool v def = (if v = False then def else v)"

section \<open>The breaker\<close>

record BreakerBucket =
  bb_errorConn :: int
  bb_len :: int
  bb_cap :: int

record Breaker =
  br_serviceBucket :: "BreakerBucket StructMap"
  br_cf :: BreakConfig

definition DefaultMaxError :: int where "DefaultMaxError = 5"
definition DefaultBucket :: int where "DefaultBucket = 10"

definition NewBreaker :: "BreakConfig \<Rightarrow> Breaker" where
  "NewBreaker cf = \<lparr>br_serviceBucket = NewSizeMap DefaultBucket, br_cf = cf\<rparr>"

text \<open>\<open>make(chan int, n)\<close> panics on a negative size; the channel is empty.\<close>

definition Breaker_add :: "string \<Rightarrow> Breaker \<Rightarrow> Breaker outcome" where
  "Breaker_add domain b =
     (let cap = DefaultInt (brk_bucket (br_cf b)) DefaultBucket
      in if cap < 0 then Panic
         else Return (b\<lparr>br_serviceBucket := Map_Put domain
           \<lparr>bb_errorConn = DefaultInt (brk_maxError (br_cf b)) DefaultMaxError, bb_len = 0, bb_cap = cap\<rparr>
           (br_serviceBucket b)\<rparr>))"

definition Breaker_Get :: "string \<Rightarrow> Breaker \<Rightarrow> (Breaker \<times> bool) outcome" where
  "Breaker_Get domain b =
     (case Map_Get (br_serviceBucket b) domain of
        None \<Rightarrow> bind_outcome (Breaker_add domain b) (\<lambda>b'. Return (b', True))
      | Some sb \<Rightarrow> Return (b, \<not> bb_len sb \<ge> bb_errorConn sb))"

definition Breaker_Set :: "string \<Rightarrow> Breaker \<Rightarrow> (Breaker \<times> bool) outcome" where
  "Breaker_Set domain b =
     (case Map_Get (br_serviceBucket b) domain of
        None \<Rightarrow> Return (b, True)
      | Some sb \<Rightarrow>
          if bb_len sb < bb_errorConn sb
          then (if bb_len sb < bb_cap sb
                then Return (b\<lparr>br_serviceBucket :=
                       Map_Put domain (sb\<lparr>bb_len := bb_len sb + 1\<rparr>) (br_serviceBucket b)\<rparr>, True)
                else Blocked)
          else Return (b, False))"

text \<open>One tick of \<open>Reset\<close>: every bucket gets a new channel of the configured size.\<close>

definition Breaker_Reset_tick :: "Breaker \<Rightarrow> Breaker outcome" where
  "Breaker_Reset_tick b =
     (if br_serviceBucket b \<noteq> [] \<and> brk_bucket (br_cf b) < 0 then Panic
      else Return (b\<lparr>br_serviceBucket :=
        map (\<lambda>(key, sb). (key, sb\<lparr>bb_len := 0, bb_cap := brk_bucket (br_cf b)\<rparr>)) (br_serviceBucket b)\<rparr>))"

section \<open>When the breaker opens\<close>

fun failures :: "nat \<Rightarrow> string \<Rightarrow> Breaker \<Rightarrow> Breaker outcome" where
  "failures 0 domain b = Return b"
| "failures (Suc k) domain b = bind_outcome (failures k domain b) (\<lambda>b'. bind_outcome (Breaker_Set domain b') (\<lambda>(b'', _). Return b''))"

lemmas breaker_defs = Breaker_Get_def Breaker_Set_def Breaker_add_def

lemma failures_bucket:
  "Map_Get (br_serviceBucket b) domain = Some sb \<Longrightarrow> bb_len sb = 0 \<Longrightarrow> 0 \<le> bb_errorConn sb \<Longrightarrow>
     bb_errorConn sb \<le> bb_cap sb \<Longrightarrow>
     \<exists>b'. failures k domain b = Return b' \<and> br_cf b' = br_cf b
       \<and> Map_Get (br_serviceBucket b') domain = Some (sb\<lparr>bb_len := min (int k) (bb_errorConn sb)\<rparr>)"
proof (induction k)
  case 0
  then show ?case by (cases sb) simp
next
  case (Suc k)
  then obtain b' where b': "failures k domain b = Return b'" "br_cf b' = br_cf b"
    "Map_Get (br_serviceBucket b') domain = Some (sb\<lparr>bb_len := min (int k) (bb_errorConn sb)\<rparr>)" by blast
  then show ?case using Suc.prems by (simp add: Breaker_Set_def Map_Get_Put min_def)
qed

lemma failures_full:
  "Map_Get (br_serviceBucket b) domain = Some sb \<Longrightarrow> bb_len sb = 0 \<Longrightarrow> bb_cap sb < bb_errorConn sb \<Longrightarrow>
     int k \<le> bb_cap sb \<Longrightarrow>
     \<exists>b'. failures k domain b = Return b' \<and> Map_Get (br_serviceBucket b') domain = Some (sb\<lparr>bb_len := int k\<rparr>)"
proof (induction k)
  case 0
  then show ?case by (cases sb) simp
next
  case (Suc k)
  then obtain b' where "failures k domain b = Return b'"
    "Map_Get (br_serviceBucket b') domain = Some (sb\<lparr>bb_len := int k\<rparr>)" by auto
  then show ?case using Suc.prems by (simp add: Breaker_Set_def Map_Get_Put add.commute)
qed

text \<open>
  Once a domain is known, the breaker refuses it from the \<open>MaxError\<close>-th failure on (5 by
  default), provided the bucket is at least that large; \<open>Set\<close> never blocks then. For a domain
  nobody asked \<open>Get\<close> about, \<open>Set\<close> records nothing.
\<close>

theorem breaker_opens:
  assumes "err = DefaultInt (brk_maxError cf) DefaultMaxError"
    and "0 \<le> err" and "err \<le> DefaultInt (brk_bucket cf) DefaultBucket"
    and "Breaker_Get domain (NewBreaker cf) = Return (b, ok)"
  shows "ok \<and> (\<exists>b'. failures k domain b = Return b' \<and> Breaker_Get domain b' = Return (b', int k < err))
    \<and> failures k domain (NewBreaker cf) = Return (NewBreaker cf)"
proof -
  have b: "ok" "Map_Get (br_serviceBucket b) domain
      = Some \<lparr>bb_errorConn = err, bb_len = 0, bb_cap = DefaultInt (brk_bucket cf) DefaultBucket\<rparr>"
    using assms by (auto simp: breaker_defs NewBreaker_def NewSizeMap_def Map_Get_def Map_Put_def split: if_splits)
  have "failures k domain (NewBreaker cf) = Return (NewBreaker cf)"
    by (induction k) (simp_all add: Breaker_Set_def NewBreaker_def NewSizeMap_def Map_Get_def)
  moreover obtain b' where "failures k domain b = Return b'"
    "Map_Get (br_serviceBucket b') domain = Some \<lparr>bb_errorConn = err, bb_len = min (int k) err,
       bb_cap = DefaultInt (brk_bucket cf) DefaultBucket\<rparr>"
    using failures_bucket [OF b(2), of k] assms(2,3) by auto
  moreover from this have "Breaker_Get domain b' = Return (b', int k < err)" by (auto simp: Breaker_Get_def)
  ultimately show ?thesis using b(1) by blast
qed

theorem breaker_opens_witness:
  "\<exists>b b'. Breaker_Get ''a.com'' (NewBreaker \<lparr>brk_bucket = 0, brk_maxError = 0, brk_reset = 60\<rparr>) = Return (b, True)
     \<and> failures 5 ''a.com'' b = Return b' \<and> Breaker_Get ''a.com'' b' = Return (b', False)"
proof -
  let ?cf = "\<lparr>brk_bucket = 0, brk_maxError = 0, brk_reset = 60\<rparr>"
  obtain b where b: "Breaker_Get ''a.com'' (NewBreaker ?cf) = Return (b, True)"
    by (simp add: breaker_defs NewBreaker_def NewSizeMap_def Map_Get_def DefaultInt_def DefaultBucket_def Let_def)
  from breaker_opens [OF _ _ _ b, of 5 5] show ?thesis
    by (auto simp: b DefaultInt_def DefaultBucket_def DefaultMaxError_def)
qed

text \<open>
  The breaker can stop the goroutine that reports a failure for good: a reset gives the bucket
  the configured size without its default, so that with the default (0) the next \<open>Set\<close> blocks;
  and a bucket smaller than \<open>MaxError\<close> blocks once it is full.
\<close>

theorem breaker_blocks:
  assumes "Breaker_Get domain (NewBreaker cf) = Return (b, ok)"
    and "err = DefaultInt (brk_maxError cf) DefaultMaxError" and "0 < err"
  shows "(brk_bucket cf = 0 \<longrightarrow>
           (\<exists>b'. Breaker_Reset_tick b = Return b' \<and> Breaker_Set domain b' = Blocked))
    \<and> (0 < brk_bucket cf \<and> brk_bucket cf < err \<longrightarrow> failures (nat (brk_bucket cf) + 1) domain b = Blocked)"
proof (intro conjI impI)
  let ?cap = "DefaultInt (brk_bucket cf) DefaultBucket"
  have b: "br_cf b = cf" "br_serviceBucket b = [(domain, \<lparr>bb_errorConn = err, bb_len = 0, bb_cap = ?cap\<rparr>)]"
    using assms by (auto simp: breaker_defs NewBreaker_def NewSizeMap_def Map_Get_def Map_Put_def Let_def split: if_splits)
  show "\<exists>b'. Breaker_Reset_tick b = Return b' \<and> Breaker_Set domain b' = Blocked" if "brk_bucket cf = 0"
    using b that assms(3) by (simp add: Breaker_Reset_tick_def Breaker_Set_def Map_Get_def)
  show "failures (nat (brk_bucket cf) + 1) domain b = Blocked"
    if "0 < brk_bucket cf \<and> brk_bucket cf < err"
  proof -
    have "\<exists>b'. failures (nat (brk_bucket cf)) domain b = Return b' \<and> Map_Get (br_serviceBucket b') domain
        = Some (\<lparr>bb_errorConn = err, bb_len = 0, bb_cap = ?cap\<rparr>\<lparr>bb_len := int (nat (brk_bucket cf))\<rparr>)"
      by (rule failures_full) (use b that in \<open>simp_all add: Map_Get_def DefaultInt_def\<close>)
    then show ?thesis using that by (auto simp: Breaker_Set_def DefaultInt_def)
  qed
qed

theorem breaker_blocks_witness:
  "\<exists>b b'. Breaker_Get ''a.com'' (NewBreaker \<lparr>brk_bucket = 0, brk_maxError = 0, brk_reset = 60\<rparr>) = Return (b, True)
     \<and> Breaker_Reset_tick b = Return b' \<and> Breaker_Set ''a.com'' b' = Blocked"
proof -
  let ?cf = "\<lparr>brk_bucket = 0, brk_maxError = 0, brk_reset = 60\<rparr>"
  obtain b where b: "Breaker_Get ''a.com'' (NewBreaker ?cf) = Return (b, True)"
    by (simp add: breaker_defs NewBreaker_def NewSizeMap_def Map_Get_def DefaultInt_def DefaultBucket_def Let_def)
  from breaker_blocks [OF b, of 5] show ?thesis
    by (auto simp: b DefaultInt_def DefaultBucket_def DefaultMaxError_def)
qed

end
