(* ===== verification/GatewayStat.thy ===== *)
theory GatewayStat
  imports Config
begin

text \<open>
  The statistics of \<open>gateway/stat\<close>: counters in memory (\<open>stat.go\<close>, \<open>domain_stat.go\<close>,
  \<open>geo_stat.go\<close>), their copies as big-endian bytes in a cache (\<open>cache.go\<close>) and their
  persistence in files (\<open>saver.go\<close>, \<open>domain_stat_saver.go\<close>, \<open>geo_stat_saver.go\<close>). The bigcache,
  the JSON codec of maps and the geo database are parameters. Each background goroutine is one
  atomic update, run in some order.
\<close>

section \<open>Eight bytes, most significant first\<close>

fun be_bytes :: "nat \<Rightarrow> nat \<Rightarrow> string" where
  "be_bytes 0 n = []"
| "be_bytes (Suc k) n = be_bytes k (n div 256) @ [char_of n]"

fun be_value :: "nat \<Rightarrow> string \<Rightarrow> nat" where
  "be_value acc [] = acc"
| "be_value acc (c # cs) = be_value (acc * 256 + of_char c) cs"

text \<open>\<open>PutUint64(uint64(v))\<close> and \<open>int64(Uint64(bytes))\<close>; the latter panics on fewer than 8 bytes.\<close>

definition PutUint64 :: "int \<Rightarrow> string" where
  "PutUint64 v = be_bytes 8 (nat (v mod 2 ^ 64))"

definition Uint64 :: "string \<Rightarrow> int outcome" where
  "Uint64 bytes = (if length bytes < 8 then Panic else Return (wrap64 (int (be_value 0 (take 8 bytes)))))"

lemma length_be_bytes [simp]: "length (be_bytes k n) = k"
  by (induction k arbitrary: n) simp_all

lemma be_value_append: "be_value acc (xs @ ys) = be_value (be_value acc xs) ys"
  by (induction xs arbitrary: acc) simp_all

lemma be_value_bytes: "be_value acc (be_bytes k n) = acc * 256 ^ k + n mod 256 ^ k"
proof (induction k arbitrary: acc n)
  case (Suc k)
  have "n mod 256 ^ Suc k = n mod 256 + 256 * (n div 256 mod 256 ^ k)"
    by (simp add: mod_mult2_eq)
  with Suc show ?case by (simp add: be_value_append algebra_simps of_char_of)
qed simp

lemma Uint64_PutUint64: "in_int64 v \<Longrightarrow> Uint64 (PutUint64 v) = Return v"
proof -
  assume v: "in_int64 v"
  have "int (be_value 0 (PutUint64 v)) = v mod 2 ^ 64"
    by (simp add: PutUint64_def be_value_bytes)
  moreover have "wrap64 (v mod 2 ^ 64) = v"
  proof -
    have "wrap64 (v mod 2 ^ 64) = wrap64 v" by (simp only: wrap64_def mod_add_left_eq)
    with v show ?thesis by simp
  qed
  ultimately show ?thesis by (simp add: Uint64_def PutUint64_def)
qed

section \<open>Counters\<close>

datatype stat_kind = Total | API | Static | Fail | Today

record stat_state =
  ss_total :: int
  ss_api :: int
  ss_static :: int
  ss_fail :: int
  ss_today :: int
  ss_geoIp :: "int StructMap"
  ss_domain :: "int StructMap"

definition addToday :: "stat_state \<Rightarrow> stat_state" where
  "addToday s = s\<lparr>ss_today := wrap64 (ss_today s + 1)\<rparr>"

definition addTotal :: "stat_state \<Rightarrow> stat_state" where
  "addTotal s = addToday (s\<lparr>ss_total := wrap64 (ss_total s + 1)\<rparr>)"

definition addAPI :: "stat_state \<Rightarrow> stat_state" where
  "addAPI s = s\<lparr>ss_api := wrap64 (ss_api s + 1)\<rparr>"

definition addStatic :: "stat_state \<Rightarrow> stat_state" where
  "addStatic s = s\<lparr>ss_static := wrap64 (ss_static s + 1)\<rparr>"

definition addFail :: "stat_state \<Rightarrow> stat_state" where
  "addFail s = s\<lparr>ss_fail := wrap64 (ss_fail s + 1)\<rparr>"

definition Stat_Add :: "bool \<Rightarrow> stat_kind \<Rightarrow> stat_state \<Rightarrow> stat_state" where
  "Stat_Add enableStat tp s =
     (if \<not> enableStat then s
      else case tp of Total \<Rightarrow> addTotal s | API \<Rightarrow> addAPI s | Static \<Rightarrow> addStatic s | Fail \<Rightarrow> addFail s
           | Today \<Rightarrow> addTotal s)"

text \<open>The first hit of a key only creates the counter, with the value 0.\<close>

definition count_hit :: "string \<Rightarrow> int StructMap \<Rightarrow> int StructMap" where
  "count_hit key m = (case Map_Get m key of None \<Rightarrow> Map_Put key 0 m | Some v \<Rightarrow> Map_Put key (wrap64 (v + 1)) m)"

definition AddDomainStat :: "bool \<Rightarrow> string \<Rightarrow> stat_state \<Rightarrow> stat_state" where
  "AddDomainStat enableStat domain s =
     (if \<not> enableStat then s else if domain = [] then s
      else s\<lparr>ss_domain := count_hit domain (ss_domain s)\<rparr>)"

text \<open>The host of \<open>net.SplitHostPort\<close>; \<open>None\<close> is its error.\<close>

definition splitHost :: "string \<Rightarrow> string option" where
  "splitHost hp =
     (case lastIndexChar CHR '':'' hp of
        None \<Rightarrow> None
      | Some i \<Rightarrow>
          if hp ! 0 = CHR ''[''
          then (case indexChar CHR '']'' hp of
                  None \<Rightarrow> None
                | Some e \<Rightarrow>
                    if e + 1 \<noteq> i then None
                    else if CHR ''['' \<in> set (drop 1 hp) \<or> CHR '']'' \<in> set (drop (e + 1) hp) then None
                    else Some (drop 1 (take e hp)))
          else if CHR '':'' \<in> set (take i hp) then None
          else if CHR ''['' \<in> set hp \<or> CHR '']'' \<in> set hp then None
          else Some (take i hp))"

definition AddGeo :: "(string \<Rightarrow> string) \<Rightarrow> bool \<Rightarrow> string \<Rightarrow> stat_state \<Rightarrow> stat_state" where
  "AddGeo geo_lookup enableStat addr s =
     (if addr = [] \<or> addr = ''127.0.0.1'' then s
      else if \<not> enableStat then s
      else (case splitHost addr of
              None \<Rightarrow> s
            | Some ip \<Rightarrow>
                (let isoCode = geo_lookup ip
                 in if isoCode = [] then s else s\<lparr>ss_geoIp := count_hit isoCode (ss_geoIp s)\<rparr>)))"

text \<open>What the request path asks the statistics to record.\<close>

datatype stat_event = EvAdd stat_kind | EvDomain string | EvGeo string

fun stat_apply :: "(string \<Rightarrow> string) \<Rightarrow> bool \<Rightarrow> stat_event \<Rightarrow> stat_state \<Rightarrow> stat_state" where
  "stat_apply geo en (EvAdd tp) s = Stat_Add en tp s"
| "stat_apply geo en (EvDomain d) s = AddDomainStat en d s"
| "stat_apply geo en (EvGeo a) s = AddGeo geo en a s"

section \<open>The cache\<close>

text \<open>
  \<open>cset\<close> and \<open>cget\<close> are \<open>Set\<close> and \<open>Get\<close> of the bigcache; \<open>date\<close> is the current date as
  \<open>syncStat\<close> formats it.
\<close>

definition syncStat :: "(string \<Rightarrow> string \<Rightarrow> 'c \<Rightarrow> 'c) \<Rightarrow> ('c \<Rightarrow> string \<Rightarrow> string option) \<Rightarrow> string \<Rightarrow>
    stat_state \<times> 'c \<Rightarrow> stat_state \<times> 'c" where
  "syncStat cset cget date sc =
     (let (s, c) = sc;
          c = cset ''fail'' (PutUint64 (ss_fail s)) (cset ''static'' (PutUint64 (ss_static s))
              (cset ''api'' (PutUint64 (ss_api s)) (cset ''total'' (PutUint64 (ss_total s)) c)))
      in if date = (case cget c ''date'' of Some d \<Rightarrow> d | None \<Rightarrow> [])
         then (s, cset ''today'' (PutUint64 (ss_today s)) c)
         else (let s = s\<lparr>ss_today := 0\<rparr>
               in (s, cset ''date'' date (cset ''today'' (PutUint64 (ss_today s)) c))))"

fun kind_key :: "stat_kind \<Rightarrow> string" where
  "kind_key Total = ''total''"
| "kind_key API = ''api''"
| "kind_key Static = ''static''"
| "kind_key Fail = ''fail''"
| "kind_key Today = ''today''"

definition Stat_Get :: "('c \<Rightarrow> string \<Rightarrow> string option) \<Rightarrow> 'c \<Rightarrow> stat_kind \<Rightarrow> int outcome" where
  "Stat_Get cget c tp = (case cget c (kind_key tp) of None \<Rightarrow> Return 0 | Some bytes \<Rightarrow> Uint64 bytes)"

text \<open>\<open>marshal\<close> and \<open>unmarshal\<close> are the JSON codec of a map from strings to integers.\<close>

definition syncDomainStat :: "(string \<Rightarrow> string \<Rightarrow> 'c \<Rightarrow> 'c) \<Rightarrow> ((string, int) gomap \<Rightarrow> string) \<Rightarrow>
    stat_state \<Rightarrow> 'c \<Rightarrow> 'c" where
  "syncDomainStat cset marshal s c = cset ''domain'' (marshal (ss_domain s)) c"

definition syncGEOStat :: "(string \<Rightarrow> string \<Rightarrow> 'c \<Rightarrow> 'c) \<Rightarrow> ((string, int) gomap \<Rightarrow> string) \<Rightarrow>
    stat_state \<Rightarrow> 'c \<Rightarrow> 'c" where
  "syncGEOStat cset marshal s c = cset ''ip2country'' (marshal (ss_geoIp s)) c"

definition GetDomainStat :: "('c \<Rightarrow> string \<Rightarrow> string option) \<Rightarrow> 'c \<Rightarrow> string option" where
  "GetDomainStat cget c = cget c ''domain''"

definition GetGeoData :: "('c \<Rightarrow> string \<Rightarrow> string option) \<Rightarrow> 'c \<Rightarrow> string option" where
  "GetGeoData cget c = cget c ''ip2country''"

section \<open>Files\<close>

text \<open>A file system: the contents of each existing file. Write errors are ignored by the code.\<close>

type_synonym files = "string \<Rightarrow> string option"

definition fileSaver :: "((string, int) gomap \<Rightarrow> string) \<Rightarrow> (stat_kind \<Rightarrow> int) \<Rightarrow> string \<Rightarrow> files \<Rightarrow> files" where
  "fileSaver marshal get f fs =
     (let fs = (if fs f = None
            then fs(f \<mapsto> marshal [(''total'', 0), (''api'', 0), (''static'', 0), (''fail'', 0), (''today'', 0)])
            else fs);
          m = [(''total'', get Total), (''api'', get API), (''static'', get Static), (''fail'', get Fail),
               (''today'', get Today)]
      in fs(f \<mapsto> marshal m))"

definition fileLoader :: "(string \<Rightarrow> (string, int) gomap option) \<Rightarrow> string \<Rightarrow> files \<Rightarrow> int StructMap" where
  "fileLoader unmarshal f fs =
     (case fs f of None \<Rightarrow> NewMap []
      | Some data \<Rightarrow> (case unmarshal data of None \<Rightarrow> NewMap []
          | Some tmp \<Rightarrow> fold (\<lambda>(k, v). Map_Put k v) tmp (NewMap [])))"

text \<open>When the domain file is missing, the empty map is written to the geo file instead.\<close>

definition domainFileSaver :: "((string, int) gomap \<Rightarrow> string) \<Rightarrow> StatConfig \<Rightarrow> string option \<Rightarrow> files \<Rightarrow> files" where
  "domainFileSaver marshal cfg cached fs =
     (let fs = (if fs (st_domainFile cfg) = None then fs(st_geoFile cfg \<mapsto> marshal []) else fs)
      in case cached of None \<Rightarrow> fs | Some bytes \<Rightarrow> fs(st_domainFile cfg \<mapsto> bytes))"

definition domainFileLoader :: "(string \<Rightarrow> (string, int) gomap option) \<Rightarrow> StatConfig \<Rightarrow> files \<Rightarrow> int StructMap" where
  "domainFileLoader unmarshal cfg fs = fileLoader unmarshal (st_domainFile cfg) fs"

definition geoFileSaver :: "((string, int) gomap \<Rightarrow> string) \<Rightarrow> StatConfig \<Rightarrow> string option \<Rightarrow> files \<Rightarrow> files" where
  "geoFileSaver marshal cfg cached fs =
     (let fs = (if fs (st_geoFile cfg) = None then fs(st_geoFile cfg \<mapsto> marshal []) else fs)
      in case cached of None \<Rightarrow> fs | Some bytes \<Rightarrow> fs(st_geoFile cfg \<mapsto> bytes))"

definition geoFileLoader :: "(string \<Rightarrow> (string, int) gomap option) \<Rightarrow> StatConfig \<Rightarrow> files \<Rightarrow> int StructMap" where
  "geoFileLoader unmarshal cfg fs = fileLoader unmarshal (st_geoFile cfg) fs"

text \<open>The counters taken from the loaded map at start-up (\<open>initCacheFromFile\<close>, file mode).\<close>

definition load_counters :: "int StructMap \<Rightarrow> stat_state \<Rightarrow> stat_state" where
  "load_counters m s = s\<lparr>ss_total := Map_MustGet 0 m ''total'', ss_api := Map_MustGet 0 m ''api'',
     ss_static := Map_MustGet 0 m ''static'', ss_fail := Map_MustGet 0 m ''fail'',
     ss_today := Map_MustGet 0 m ''today''\<rparr>"

section \<open>What is counted\<close>

lemma count_hit_get:
  "Map_Get (count_hit d m) d' =
     (if d' = d then Some (case Map_Get m d of None \<Rightarrow> 0 | Some v \<Rightarrow> wrap64 (v + 1)) else Map_Get m d')"
  by (simp add: count_hit_def Map_Get_Put split: option.splits)

lemma stat_apply_frame:
  "ss_total (stat_apply geo True ev s) = (if ev \<in> {EvAdd Total, EvAdd Today} then wrap64 (ss_total s + 1) else ss_total s)"
  "ss_fail (stat_apply geo True ev s) = (if ev = EvAdd Fail then wrap64 (ss_fail s + 1) else ss_fail s)"
  by (cases ev; auto simp: Stat_Add_def addTotal_def addToday_def addAPI_def addStatic_def addFail_def
      AddDomainStat_def AddGeo_def Let_def split: stat_kind.splits option.splits)+

lemma stat_apply_domain:
  "d \<noteq> [] \<Longrightarrow> Map_Get (ss_domain (stat_apply geo True ev s)) d =
     (if ev = EvDomain d then Some (case Map_Get (ss_domain s) d of None \<Rightarrow> 0 | Some v \<Rightarrow> wrap64 (v + 1))
      else Map_Get (ss_domain s) d)"
  by (cases ev) (auto simp: Stat_Add_def addTotal_def addToday_def addAPI_def addStatic_def addFail_def
      AddDomainStat_def AddGeo_def Let_def count_hit_get split: stat_kind.splits option.splits)

definition run_stat :: "(string \<Rightarrow> string) \<Rightarrow> stat_event list \<Rightarrow> stat_state \<Rightarrow> stat_state" where
  "run_stat geo evs s = fold (stat_apply geo True) evs s"

lemma run_stat_snoc [simp]:
  "run_stat geo [] s = s" "run_stat geo (evs @ [ev]) s = stat_apply geo True ev (run_stat geo evs s)"
  by (simp_all add: run_stat_def)

lemma int64_count: "n < 2 ^ 63 \<Longrightarrow> wrap64 (int n) = int n"
  by (rule wrap64_id) (simp add: in_int64_bounds)

definition empty_stat :: stat_state where
  "empty_stat = \<lparr>ss_total = 0, ss_api = 0, ss_static = 0, ss_fail = 0, ss_today = 0, ss_geoIp = [], ss_domain = []\<rparr>"



section \<open>Across a restart\<close>

definition get_or_0 :: "int outcome \<Rightarrow> int" where
  "get_or_0 r = (case r of Return v \<Rightarrow> v | _ \<Rightarrow> 0)"

lemma fileLoader_saved:
  assumes "\<And>m. gomap_ok m \<Longrightarrow> \<forall>v \<in> snd ` set m. in_int64 v \<Longrightarrow>
      \<exists>m'. unmarshal (marshal m) = Some m' \<and> gomap_ok m' \<and> gm_get m' = gm_get m"
    and "\<And>tp. in_int64 (get tp)"
  shows "Map_MustGet 0 (fileLoader unmarshal f (fileSaver marshal get f fs)) (kind_key tp) = get tp"
proof -
  let ?m = "[(''total'', get Total), (''api'', get API), (''static'', get Static), (''fail'', get Fail), (''today'', get Today)]"
  have "gomap_ok ?m" by (simp add: gomap_ok_def)
  then obtain m' where m': "unmarshal (marshal ?m) = Some m'" "gomap_ok m'" "gm_get m' = gm_get ?m"
    using assms(1) [of ?m] assms(2) by auto
  have put: "Map_Get (fold (\<lambda>(k, v). Map_Put k v) m' m) k = (case gm_get m' k of Some v \<Rightarrow> Some v | None \<Rightarrow> Map_Get m k)"
    for m k
    using m'(2) by (induction m' arbitrary: m)
      (auto simp: gomap_ok_def Map_Get_Put map_of_eq_None_iff image_iff split: option.splits)
  have "Map_Get (fileLoader unmarshal f (fileSaver marshal get f fs)) (kind_key tp) = Some (get tp)"
    using put [of "NewMap []" "kind_key tp"] m'
    by (cases tp) (simp_all add: fileLoader_def fileSaver_def Let_def)
  then show ?thesis by (simp add: Map_MustGet_def Map_Get_def)
qed

text \<open>
  The totals survive a restart: counters synchronised to the cache, saved to the file and loaded
  again are the same; but the count of today, though saved and loaded, is set to 0 by the first
  synchronisation after the start, whose cache does not know the date. (Assumed of the cache: a
  value that has been set is found; of the JSON codec: decoding what was encoded gives the map.)
\<close>

theorem restart_keeps_totals:
  assumes cache: "\<And>k v c k'. cget (cset k v c) k' = (if k' = k then Some v else cget c k')"
    and codec: "\<And>m. gomap_ok m \<Longrightarrow> \<forall>v \<in> snd ` set m. in_int64 v \<Longrightarrow>
      \<exists>m'. unmarshal (marshal m) = Some m' \<and> gomap_ok m' \<and> gm_get m' = gm_get m"
    and wf: "in_int64 (ss_total s)" "in_int64 (ss_api s)" "in_int64 (ss_static s)" "in_int64 (ss_fail s)"
    and sync: "syncStat cset cget date (s, c) = (s1, c1)"
    and restart: "s2 = load_counters (fileLoader unmarshal f (fileSaver marshal (\<lambda>tp. get_or_0 (Stat_Get cget c1 tp)) f fs)) s0"
    and first: "syncStat cset cget date (s2, c2) = (s3, c3)" and fresh: "cget c2 ''date'' = None" "date \<noteq> []"
  shows "ss_total s3 = ss_total s \<and> ss_api s3 = ss_api s \<and> ss_static s3 = ss_static s \<and> ss_fail s3 = ss_fail s
    \<and> ss_today s3 = 0"
proof -
  have saved: "in_int64 (get_or_0 (Stat_Get cget c1 tp))" for tp
  proof -
    have "in_int64 0" by (simp add: in_int64_bounds)
    then show ?thesis by (auto simp: get_or_0_def Stat_Get_def Uint64_def split: option.splits)
  qed
  have s3: "s3 = s2\<lparr>ss_today := 0\<rparr>" using first fresh by (auto simp: syncStat_def Let_def cache)
  have "Stat_Get cget c1 tp = Uint64 (PutUint64 (case tp of Total \<Rightarrow> ss_total s | API \<Rightarrow> ss_api s
      | Static \<Rightarrow> ss_static s | _ \<Rightarrow> ss_fail s))" if "tp \<noteq> Today" for tp
    using sync that by (cases tp) (auto simp: syncStat_def Stat_Get_def Let_def cache split: if_splits)
  then have "get_or_0 (Stat_Get cget c1 Total) = ss_total s" "get_or_0 (Stat_Get cget c1 API) = ss_api s"
    "get_or_0 (Stat_Get cget c1 Static) = ss_static s" "get_or_0 (Stat_Get cget c1 Fail) = ss_fail s"
    using wf by (simp_all add: Uint64_PutUint64 get_or_0_def)
  moreover have ld: "Map_MustGet 0 (fileLoader unmarshal f
      (fileSaver marshal (\<lambda>tp. get_or_0 (Stat_Get cget c1 tp)) f fs)) (kind_key tp) = get_or_0 (Stat_Get cget c1 tp)" for tp
    by (rule fileLoader_saved [OF codec saved])
  have "ss_total s2 = get_or_0 (Stat_Get cget c1 Total)" "ss_api s2 = get_or_0 (Stat_Get cget c1 API)"
    "ss_static s2 = get_or_0 (Stat_Get cget c1 Static)" "ss_fail s2 = get_or_0 (Stat_Get cget c1 Fail)"
    unfolding restart load_counters_def ld [of Total, unfolded kind_key.simps] ld [of API, unfolded kind_key.simps]
      ld [of Static, unfolded kind_key.simps] ld [of Fail, unfolded kind_key.simps] by simp_all
  ultimately show ?thesis by (simp add: s3)
qed

text \<open>A codec that meets the assumption: every byte of a text is marked, so that it can be read back.\<close>

fun enc_text :: "string \<Rightarrow> string" where
  "enc_text [] = []"
| "enc_text (c # cs) = CHR ''c'' # c # enc_text cs"

fun enc_map :: "(string, int) gomap \<Rightarrow> string" where
  "enc_map [] = []"
| "enc_map ((k, v) # es) = enc_text k @ CHR ''v'' # enc_text (itoa v) @ CHR ''e'' # enc_map es"

fun dec_map :: "string \<Rightarrow> string \<Rightarrow> string \<Rightarrow> (string, int) gomap" where
  "dec_map [] key cur = []"
| "dec_map [t] key cur = (if t = CHR ''e'' then [(key, the (atoi cur))] else [])"
| "dec_map (t # x # cs) key cur =
     (if t = CHR ''c'' then dec_map cs key (cur @ [x])
      else if t = CHR ''v'' then dec_map (x # cs) cur []
      else (key, the (atoi cur)) # dec_map (x # cs) [] [])"

lemma dec_text: "dec_map (enc_text w @ CHR ''v'' # rest) key cur = dec_map (CHR ''v'' # rest) key (cur @ w)"
  "dec_map (enc_text w @ CHR ''e'' # rest) key cur = dec_map (CHR ''e'' # rest) key (cur @ w)"
  by (induction w arbitrary: cur) simp_all

lemma dec_marks:
  "rest \<noteq> [] \<Longrightarrow> dec_map (CHR ''v'' # rest) key cur = dec_map rest cur []"
  "dec_map (CHR ''e'' # rest) key cur = (key, the (atoi cur)) # dec_map rest [] []"
  by (cases rest; simp)+

lemma dec_enc_map: "\<forall>v \<in> snd ` set m. in_int64 v \<Longrightarrow> dec_map (enc_map m) [] [] = m"
  by (induction m rule: enc_map.induct) (simp_all add: dec_text dec_marks atoi_itoa)

theorem restart_keeps_totals_witness:
  "let cset = (\<lambda>k v (c :: string \<Rightarrow> string option). c(k \<mapsto> v)); cget = (\<lambda>c k. c k);
       s = empty_stat\<lparr>ss_total := 7, ss_today := 7\<rparr>;
       (s1, c1) = syncStat cset cget ''d'' (s, Map.empty);
       s2 = load_counters (fileLoader (\<lambda>t. Some (dec_map t [] [])) ''f''
              (fileSaver enc_map (\<lambda>tp. get_or_0 (Stat_Get cget c1 tp)) ''f'' Map.empty)) empty_stat;
       (s3, c3) = syncStat cset cget ''d'' (s2, Map.empty)
   in ss_total s3 = 7 \<and> ss_today s3 = 0"
proof -
  define cset where "cset = (\<lambda>k v (c :: string \<Rightarrow> string option). c(k \<mapsto> v))"
  define cget where "cget = (\<lambda>(c :: string \<Rightarrow> string option) k. c k)"
  define s where "s = empty_stat\<lparr>ss_total := 7, ss_today := 7\<rparr>"
  obtain s1 c1 where sync: "syncStat cset cget ''d'' (s, Map.empty) = (s1, c1)" by (meson surj_pair)
  define s2 where "s2 = load_counters (fileLoader (\<lambda>t. Some (dec_map t [] [])) ''f''
      (fileSaver enc_map (\<lambda>tp. get_or_0 (Stat_Get cget c1 tp)) ''f'' Map.empty)) empty_stat"
  obtain s3 c3 where start: "syncStat cset cget ''d'' (s2, Map.empty) = (s3, c3)" by (meson surj_pair)
  have "ss_total s3 = ss_total s \<and> ss_api s3 = ss_api s \<and> ss_static s3 = ss_static s \<and> ss_fail s3 = ss_fail s
    \<and> ss_today s3 = 0"
  proof (rule restart_keeps_totals [OF _ _ _ _ _ _ sync s2_def start])
    show "cget (cset k v c) k' = (if k' = k then Some v else cget c k')" for k v c k'
      by (simp add: cset_def cget_def)
    show "\<exists>m'. Some (dec_map (enc_map m) [] []) = Some m' \<and> gomap_ok m' \<and> gm_get m' = gm_get m"
      if "gomap_ok m" "\<forall>v \<in> snd ` set m. in_int64 v" for m
      using that dec_enc_map [of m] by simp
  qed (simp_all add: s_def empty_stat_def in_int64_bounds cget_def)
  then have "ss_total s3 = 7 \<and> ss_today s3 = 0" by (simp add: s_def)
  then show ?thesis
    using sync start unfolding Let_def s_def cset_def cget_def s2_def by simp
qed

text \<open>
  When the domain file does not exist yet, saving the domain statistics overwrites the geo file
  with an empty map: what it held is lost until the geo statistics are saved the next time.
\<close>

theorem domain_saver_clobbers_geo:
  assumes "fs (st_domainFile cfg) = None" and "st_geoFile cfg \<noteq> st_domainFile cfg"
  shows "domainFileSaver marshal cfg cached (fs(st_geoFile cfg \<mapsto> geo_data)) (st_geoFile cfg) = Some (marshal [])
    \<and> (unmarshal (marshal []) = Some [] \<longrightarrow>
         geoFileLoader unmarshal cfg (domainFileSaver marshal cfg cached (fs(st_geoFile cfg \<mapsto> geo_data))) = [])"
  using assms by (simp add: domainFileSaver_def Let_def geoFileLoader_def fileLoader_def NewMap_def split: option.splits)

theorem domain_saver_clobbers_geo_witness:
  "let cfg = zero_StatConfig\<lparr>st_domainFile := ''domain.json'', st_geoFile := ''geo.json''\<rparr>
   in domainFileSaver enc_map cfg None (Map.empty(''geo.json'' \<mapsto> ''ccvc1e'')) ''geo.json'' = Some []"
  using domain_saver_clobbers_geo [of Map.empty "zero_StatConfig\<lparr>st_domainFile := ''domain.json'', st_geoFile := ''geo.json''\<rparr>"
      enc_map None "''ccvc1e''" "\<lambda>_. None"] by simp

end
