(* ===== verification/StatStore.thy ===== *)
theory StatStore
  imports GatewayStat
begin

text \<open>
  Storing the statistics (\<open>gateway/stat\<close>) in a database, taking over the files of the older version, and starting up.
  The tables are lists of rows, found by key as the queries do; \<open>None\<close> is the database that was never opened, any use of
  which panics. JSON, the file system, opening a database and the iteration order of maps are parameters.
\<close>

section \<open>Tables\<close>

record StatModel =
  sm_Total :: int
  sm_API :: int
  sm_Static :: int
  sm_Fail :: int

record stat_db =
  sd_stat :: "StatModel list"
  sd_geo :: "(string \<times> int) list"
  sd_domain :: "(string \<times> int) list"

definition row_count :: "string \<Rightarrow> (string \<times> int) list \<Rightarrow> nat" where
  "row_count k rows = length (filter (\<lambda>(k', n). k' = k) rows)"

definition row_update :: "string \<Rightarrow> int \<Rightarrow> (string \<times> int) list \<Rightarrow> (string \<times> int) list" where
  "row_update k v rows = map (\<lambda>(k', n). if k' = k then (k', v) else (k', n)) rows"

definition row_save :: "string \<times> int \<Rightarrow> (string \<times> int) list \<Rightarrow> (string \<times> int) list" where
  "row_save kv rows = (if 0 < row_count (fst kv) rows then row_update (fst kv) (snd kv) rows else rows @ [kv])"

definition row_add :: "string \<times> int \<Rightarrow> (string \<times> int) list \<Rightarrow> (string \<times> int) list" where
  "row_add kv rows = (if row_count (fst kv) rows \<le> 0 then rows @ [kv] else rows)"

section \<open>Counters\<close>

definition dbLoader :: "stat_db \<Rightarrow> int StructMap option" where
  "dbLoader db =
     (case sd_stat db of
        [] \<Rightarrow> None
      | stat # _ \<Rightarrow> Some (Map_Put ''fail'' (sm_Fail stat) (Map_Put ''static'' (sm_Static stat)
          (Map_Put ''api'' (sm_API stat) (Map_Put ''total'' (sm_Total stat) (NewMap []))))))"

definition dbSaver :: "(stat_kind \<Rightarrow> int) \<Rightarrow> stat_db \<Rightarrow> stat_db" where
  "dbSaver get db =
     (let row = \<lparr>sm_Total = get Total, sm_API = get API, sm_Static = get Static, sm_Fail = get Fail\<rparr>
      in case sd_stat db of
           [] \<Rightarrow> db\<lparr>sd_stat := [row]\<rparr>
         | stat # rest \<Rightarrow> db\<lparr>sd_stat := row # rest\<rparr>)"

text \<open>The rows a missing key of the old file gives are zero.\<close>

definition compatibleStat :: "(string \<Rightarrow> (string, int) gomap option) \<Rightarrow> StatConfig \<Rightarrow> files \<Rightarrow> stat_db option \<Rightarrow> stat_db option outcome" where
  "compatibleStat unmarshal cfg fs db =
     (case fs (st_saveFile cfg) of
        None \<Rightarrow> Return db
      | Some data \<Rightarrow>
          (case unmarshal data of
             None \<Rightarrow> Return db
           | Some tmp \<Rightarrow>
               (case db of
                  None \<Rightarrow> Panic
                | Some d \<Rightarrow>
                    (let field = (\<lambda>k. case gm_get tmp k of Some v \<Rightarrow> v | None \<Rightarrow> 0)
                     in Return (Some (if sd_stat d = []
                          then d\<lparr>sd_stat := [\<lparr>sm_Total = field ''total'', sm_API = field ''api'',
                                 sm_Static = field ''static'', sm_Fail = field ''fail''\<rparr>]\<rparr>
                          else d))))))"

definition LoadStat ::
    "(string \<Rightarrow> (string, int) gomap option) \<Rightarrow> StatConfig \<Rightarrow> files \<Rightarrow> stat_db option \<Rightarrow> (stat_db option \<times> int StructMap option) outcome" where
  "LoadStat unmarshal cfg fs db =
     bind_outcome (if st_compatible cfg then compatibleStat unmarshal cfg fs db else Return db) (\<lambda>db.
       if st_useDB cfg then (case db of None \<Rightarrow> Panic | Some d \<Rightarrow> Return (db, dbLoader d))
       else Return (db, Some (fileLoader unmarshal (st_saveFile cfg) fs)))"

definition SaveStat ::
    "((string, int) gomap \<Rightarrow> string) \<Rightarrow> (stat_kind \<Rightarrow> int) \<Rightarrow> StatConfig \<Rightarrow> files \<times> stat_db option \<Rightarrow> (files \<times> stat_db option) outcome" where
  "SaveStat marshal get cfg fd =
     (if st_useDB cfg then (case snd fd of None \<Rightarrow> Panic | Some d \<Rightarrow> Return (fst fd, Some (dbSaver get d)))
      else Return (fileSaver marshal get (st_saveFile cfg) (fst fd), snd fd))"

section \<open>Domains and countries\<close>

text \<open>Both are stored in the same way: \<open>load_rows\<close>, \<open>save_rows\<close> and \<open>take_over\<close> act on one table.\<close>

definition load_rows :: "(string \<times> int) list \<Rightarrow> int StructMap" where
  "load_rows rows = fold (\<lambda>(k, v). Map_Put k v) rows (NewMap [])"

definition save_rows ::
    "(string \<Rightarrow> (string, int) gomap option) \<Rightarrow> ((string, int) gomap \<Rightarrow> (string \<times> int) list) \<Rightarrow> string option \<Rightarrow> (string \<times> int) list \<Rightarrow> (string \<times> int) list" where
  "save_rows unmarshal order cached rows =
     (case cached of None \<Rightarrow> rows
      | Some bytes \<Rightarrow> (case unmarshal bytes of None \<Rightarrow> rows | Some data \<Rightarrow> fold row_save (order data) rows))"

definition take_over ::
    "(string \<Rightarrow> (string, int) gomap option) \<Rightarrow> ((string, int) gomap \<Rightarrow> (string \<times> int) list) \<Rightarrow> string option \<Rightarrow> (string \<times> int) list \<Rightarrow> (string \<times> int) list" where
  "take_over unmarshal order file_data rows =
     (case file_data of None \<Rightarrow> rows
      | Some bytes \<Rightarrow> (case unmarshal bytes of None \<Rightarrow> rows | Some data \<Rightarrow> fold row_add (order data) rows))"

definition domainDBLoader :: "stat_db \<Rightarrow> int StructMap" where
  "domainDBLoader db = load_rows (sd_domain db)"

definition domainDBSaver ::
    "(string \<Rightarrow> (string, int) gomap option) \<Rightarrow> ((string, int) gomap \<Rightarrow> (string \<times> int) list) \<Rightarrow> string option \<Rightarrow> stat_db \<Rightarrow> stat_db" where
  "domainDBSaver unmarshal order cached db = db\<lparr>sd_domain := save_rows unmarshal order cached (sd_domain db)\<rparr>"

definition compatibleDomain ::
    "(string \<Rightarrow> (string, int) gomap option) \<Rightarrow> ((string, int) gomap \<Rightarrow> (string \<times> int) list) \<Rightarrow> StatConfig \<Rightarrow> files \<Rightarrow> stat_db \<Rightarrow> stat_db" where
  "compatibleDomain unmarshal order cfg fs db = db\<lparr>sd_domain := take_over unmarshal order (fs (st_domainFile cfg)) (sd_domain db)\<rparr>"

definition geoDBLoader :: "stat_db \<Rightarrow> int StructMap" where
  "geoDBLoader db = load_rows (sd_geo db)"

definition geoDBSaver ::
    "(string \<Rightarrow> (string, int) gomap option) \<Rightarrow> ((string, int) gomap \<Rightarrow> (string \<times> int) list) \<Rightarrow> string option \<Rightarrow> stat_db \<Rightarrow> stat_db" where
  "geoDBSaver unmarshal order cached db = db\<lparr>sd_geo := save_rows unmarshal order cached (sd_geo db)\<rparr>"

definition compatibleGeo ::
    "(string \<Rightarrow> (string, int) gomap option) \<Rightarrow> ((string, int) gomap \<Rightarrow> (string \<times> int) list) \<Rightarrow> StatConfig \<Rightarrow> files \<Rightarrow> stat_db \<Rightarrow> stat_db" where
  "compatibleGeo unmarshal order cfg fs db = db\<lparr>sd_geo := take_over unmarshal order (fs (st_geoFile cfg)) (sd_geo db)\<rparr>"

text \<open>Loading and saving of a whole kind; with a database that was never opened, using it panics.\<close>

definition LoadDomainStat ::
    "(string \<Rightarrow> (string, int) gomap option) \<Rightarrow> ((string, int) gomap \<Rightarrow> (string \<times> int) list) \<Rightarrow> StatConfig \<Rightarrow> files \<Rightarrow> stat_db
       \<Rightarrow> stat_db \<times> int StructMap" where
  "LoadDomainStat unmarshal order cfg fs db =
     (let db = (if st_compatible cfg then compatibleDomain unmarshal order cfg fs db else db)
      in (db, if st_useDB cfg then domainDBLoader db else domainFileLoader unmarshal cfg fs))"

definition LoadGeoStat ::
    "(string \<Rightarrow> (string, int) gomap option) \<Rightarrow> ((string, int) gomap \<Rightarrow> (string \<times> int) list) \<Rightarrow> StatConfig \<Rightarrow> files \<Rightarrow> stat_db
       \<Rightarrow> stat_db \<times> int StructMap" where
  "LoadGeoStat unmarshal order cfg fs db =
     (let db = (if st_compatible cfg then compatibleGeo unmarshal order cfg fs db else db)
      in (db, if st_useDB cfg then geoDBLoader db else geoFileLoader unmarshal cfg fs))"

section \<open>Starting up\<close>

text \<open>The database is opened only if the configuration asks for it; \<open>opened\<close> is the answer of opening it.\<close>

definition db_Init :: "(string \<Rightarrow> string + stat_db) \<Rightarrow> StatConfig \<Rightarrow> string + stat_db option" where
  "db_Init opened cfg =
     (if \<not> st_useDB cfg \<or> st_dBFile cfg = [] \<or> \<not> st_enableStat cfg then Inr None
      else (case opened (st_dBFile cfg) of Inl err \<Rightarrow> Inl err | Inr d \<Rightarrow> Inr (Some d)))"

definition initCacheFromFile ::
    "(string \<Rightarrow> (string, int) gomap option) \<Rightarrow> ((string, int) gomap \<Rightarrow> (string \<times> int) list) \<Rightarrow> StatConfig \<Rightarrow> files \<Rightarrow> stat_db option
       \<Rightarrow> stat_state \<Rightarrow> (stat_db option \<times> stat_state) outcome" where
  "initCacheFromFile unmarshal order cfg fs db s =
     (case db of
        None \<Rightarrow> Panic
      | Some d \<Rightarrow>
          bind_outcome (LoadStat unmarshal cfg fs (Some d)) (\<lambda>(db, m).
            let s = (case m of None \<Rightarrow> s | Some m \<Rightarrow> load_counters m s) in
            case db of
              None \<Rightarrow> Panic
            | Some d \<Rightarrow>
               (let (d, geo) = LoadGeoStat unmarshal order cfg fs d; (d, dom) = LoadDomainStat unmarshal order cfg fs d
                in Return (Some d, s\<lparr>ss_geoIp := geo, ss_domain := dom\<rparr>))))"

text \<open>The intervals of the two tickers; a ticker with an interval that is not positive panics.\<close>

definition stat_interval :: "int \<Rightarrow> int \<Rightarrow> duration" where
  "stat_interval n def = wrap64 (Second * (if n = 0 then def else n))"

definition InitStatSyncer ::
    "(string \<Rightarrow> (string, int) gomap option) \<Rightarrow> ((string, int) gomap \<Rightarrow> (string \<times> int) list) \<Rightarrow> StatConfig \<Rightarrow> files \<Rightarrow> stat_db option
       \<Rightarrow> stat_state \<Rightarrow> (stat_db option \<times> stat_state) outcome" where
  "InitStatSyncer unmarshal order cfg fs db s =
     (if \<not> st_enableStat cfg then Return (db, s)
      else bind_outcome (initCacheFromFile unmarshal order cfg fs db s) (\<lambda>res.
        if stat_interval (st_syncDuration cfg) 60 \<le> 0 \<or> stat_interval (st_saveDuration cfg) 3600 \<le> 0 then Panic
        else Return res))"

text \<open>The step of the program's initialisation; an error of opening ends it.\<close>

definition InitStatManager ::
    "(string \<Rightarrow> string + stat_db) \<Rightarrow> (string \<Rightarrow> (string, int) gomap option) \<Rightarrow> ((string, int) gomap \<Rightarrow> (string \<times> int) list)
       \<Rightarrow> StatConfig \<Rightarrow> files \<Rightarrow> stat_state \<Rightarrow> (string + stat_db option \<times> stat_state) outcome" where
  "InitStatManager opened unmarshal order cfg fs s =
     (case db_Init opened cfg of
        Inl err \<Rightarrow> Return (Inl err)
      | Inr db \<Rightarrow> bind_outcome (InitStatSyncer unmarshal order cfg fs db s) (\<lambda>res. Return (Inr res)))"

section \<open>What is stored is loaded\<close>

lemma load_rows_get: "Map_Get (load_rows rows) k = map_of (rev rows) k"
proof -
  have "Map_Get (fold (\<lambda>(k, v). Map_Put k v) rows m) k = (case map_of (rev rows) k of None \<Rightarrow> Map_Get m k | Some v \<Rightarrow> Some v)" for m
  proof (induction rows arbitrary: m)
    case (Cons kv rows)
    then show ?case by (cases kv) (auto simp: Map_Get_Put map_add_def split: option.split)
  qed simp
  from this [of "NewMap []"] show ?thesis by (simp add: load_rows_def NewMap_def Map_Get_def split: option.split)
qed

lemma row_count_iff: "0 < row_count k rows \<longleftrightarrow> map_of (rev rows) k \<noteq> None"
  by (force simp: row_count_def map_of_eq_None_iff filter_empty_conv)

lemma row_update_get:
  "map_of (rev (row_update k v rows)) k' = (if k' = k \<and> map_of (rev rows) k \<noteq> None then Some v else map_of (rev rows) k')"
  by (induction rows rule: rev_induct) (auto simp: row_update_def)

lemma row_save_get: "map_of (rev (row_save (k, v) rows)) k' = (if k' = k then Some v else map_of (rev rows) k')"
  using row_update_get [of k v rows k'] row_count_iff [of k rows] by (auto simp: row_save_def)

lemma row_add_get:
  "map_of (rev (row_add (k, v) rows)) k' = (if k' = k \<and> map_of (rev rows) k = None then Some v else map_of (rev rows) k')"
  using row_count_iff [of k rows] by (auto simp: row_add_def)

lemma save_all_get:
  "distinct (map fst kvs) \<Longrightarrow> map_of (rev (fold row_save kvs rows)) k = (case map_of kvs k of Some v \<Rightarrow> Some v | None \<Rightarrow> map_of (rev rows) k)"
proof (induction kvs arbitrary: rows)
  case (Cons kv kvs)
  obtain k' v where kv: "kv = (k', v)" by (cases kv)
  with Cons.prems have "map_of kvs k' = None" by (simp add: map_of_eq_None_iff)
  with Cons kv show ?case by (auto simp: row_save_get split: option.split)
qed simp

lemma add_all_get:
  "distinct (map fst kvs) \<Longrightarrow> map_of (rev (fold row_add kvs rows)) k = (case map_of (rev rows) k of Some v \<Rightarrow> Some v | None \<Rightarrow> map_of kvs k)"
proof (induction kvs arbitrary: rows)
  case (Cons kv kvs)
  obtain k' v where kv: "kv = (k', v)" by (cases kv)
  with Cons.prems have "map_of kvs k' = None" by (simp add: map_of_eq_None_iff)
  with Cons kv show ?case by (auto simp: row_add_get split: option.split)
qed (simp split: option.split)

text \<open>
  C29. Through the database, statistics survive a restart: loading after saving gives the saved totals of requests, API calls,
  static files and failures, with the count of the day at 0; each counted domain and country has its saved value
  and the others keep theirs. Taking over the old files adds what is missing and changes nothing that is there. (The code's comment
  promises increments for the countries; the values are overwritten.)
\<close>

theorem database_keeps_stats:
  assumes "unmarshal bytes = Some data" and "gomap_ok data" and "iteration_of (order data) data"
  shows "(\<exists>m. dbLoader (dbSaver get db) = Some m
           \<and> load_counters m s = s\<lparr>ss_total := get Total, ss_api := get API, ss_static := get Static, ss_fail := get Fail, ss_today := 0\<rparr>)
    \<and> (\<forall>k. Map_Get (geoDBLoader (geoDBSaver unmarshal order (Some bytes) db)) k
           = (case gm_get data k of Some v \<Rightarrow> Some v | None \<Rightarrow> Map_Get (geoDBLoader db) k))
    \<and> (\<forall>k. Map_Get (domainDBLoader (domainDBSaver unmarshal order (Some bytes) db)) k
           = (case gm_get data k of Some v \<Rightarrow> Some v | None \<Rightarrow> Map_Get (domainDBLoader db) k))
    \<and> (fs (st_domainFile cfg) = Some bytes \<longrightarrow> (\<forall>k. Map_Get (domainDBLoader (compatibleDomain unmarshal order cfg fs db)) k
           = (case Map_Get (domainDBLoader db) k of Some v \<Rightarrow> Some v | None \<Rightarrow> gm_get data k)))
    \<and> (fs (st_geoFile cfg) = Some bytes \<longrightarrow> (\<forall>k. Map_Get (geoDBLoader (compatibleGeo unmarshal order cfg fs db)) k
           = (case Map_Get (geoDBLoader db) k of Some v \<Rightarrow> Some v | None \<Rightarrow> gm_get data k)))"
proof -
  have ord: "distinct (map fst (order data))" "map_of (order data) = gm_get data"
    using iteration_ok [OF assms(3)] assms(2) iteration_get [OF assms(3,2)] by (auto simp: gomap_ok_def)
  have saved: "Map_Get (load_rows (save_rows unmarshal order (Some bytes) rows)) k
      = (case gm_get data k of Some v \<Rightarrow> Some v | None \<Rightarrow> Map_Get (load_rows rows) k)" for rows k
    using assms(1) ord by (simp add: save_rows_def load_rows_get save_all_get split: option.split)
  have taken: "Map_Get (load_rows (take_over unmarshal order (Some bytes) rows)) k
      = (case Map_Get (load_rows rows) k of Some v \<Rightarrow> Some v | None \<Rightarrow> gm_get data k)" for rows k
    using assms(1) ord by (simp add: take_over_def load_rows_get add_all_get split: option.split)
  have counters: "\<exists>m. dbLoader (dbSaver get db) = Some m
      \<and> load_counters m s = s\<lparr>ss_total := get Total, ss_api := get API, ss_static := get Static, ss_fail := get Fail, ss_today := 0\<rparr>"
    by (simp add: dbSaver_def dbLoader_def Let_def load_counters_def Map_MustGet_def Map_Put_def NewMap_def update_conv' split: list.split)
  show ?thesis
    using saved taken counters unfolding geoDBLoader_def domainDBLoader_def
    by (simp add: geoDBSaver_def domainDBSaver_def compatibleDomain_def compatibleGeo_def)
qed

text \<open>
  Statistics need the database to start: with statistics enabled, initialising panics whenever the database
  is not used or has no file (so that storing statistics in files is never possible), or when an interval is negative; with statistics
  off it changes nothing.
\<close>

theorem stat_start_panics:
  "(InitStatManager opened unmarshal order cfg fs s = Panic
     \<longleftrightarrow> st_enableStat cfg \<and> (\<not> st_useDB cfg \<or> st_dBFile cfg = [] \<or>
           ((\<exists>d. opened (st_dBFile cfg) = Inr d) \<and>
            (stat_interval (st_syncDuration cfg) 60 \<le> 0 \<or> stat_interval (st_saveDuration cfg) 3600 \<le> 0))))
   \<and> InitStatManager opened unmarshal order cfg fs s \<noteq> Blocked
   \<and> (\<not> st_enableStat cfg \<longrightarrow> InitStatManager opened unmarshal order cfg fs s = Return (Inr (None, s)))"
proof -
  have compat: "\<exists>d'. compatibleStat unmarshal cfg fs (Some d) = Return (Some d')" for d
    by (auto simp: compatibleStat_def Let_def split: option.split)
  have load: "\<exists>d' m. LoadStat unmarshal cfg fs (Some d) = Return (Some d', m)" for d
    using compat [of d] by (auto simp: LoadStat_def)
  have init: "\<exists>res. initCacheFromFile unmarshal order cfg fs (Some d) s = Return res" for d
    using load [of d] by (auto simp: initCacheFromFile_def Let_def split: prod.split option.split)
  have none: "initCacheFromFile unmarshal order cfg fs None s = Panic" by (simp add: initCacheFromFile_def)
  show ?thesis
  proof (cases "st_useDB cfg \<and> st_dBFile cfg \<noteq> [] \<and> st_enableStat cfg")
    case True
    then show ?thesis
    proof (cases "opened (st_dBFile cfg)")
      case (Inr d)
      obtain res where "initCacheFromFile unmarshal order cfg fs (Some d) s = Return res" using init by blast
      with Inr True show ?thesis
        by (cases "stat_interval (st_syncDuration cfg) 60 \<le> 0 \<or> stat_interval (st_saveDuration cfg) 3600 \<le> 0")
          (auto simp: InitStatManager_def db_Init_def InitStatSyncer_def)
    qed (simp add: InitStatManager_def db_Init_def)
  next
    case False
    then show ?thesis using none by (auto simp: InitStatManager_def db_Init_def InitStatSyncer_def)
  qed
qed

definition geo_db :: stat_db where
  "geo_db = \<lparr>sd_stat = [], sd_geo = [(''CN'', 4), (''DE'', 1)], sd_domain = []\<rparr>"

theorem database_keeps_stats_witness:
  "Map_Get (geoDBLoader (geoDBSaver (\<lambda>_. Some [(''CN'', 9)]) id (Some []) geo_db)) ''CN'' = Some 9
   \<and> Map_Get (geoDBLoader (geoDBSaver (\<lambda>_. Some [(''CN'', 9)]) id (Some []) geo_db)) ''DE'' = Some 1"
proof -
  have "Map_Get (geoDBLoader geo_db) ''DE'' = Some 1"
    by (simp add: geoDBLoader_def geo_db_def load_rows_get)
  then show ?thesis
    using database_keeps_stats [of "\<lambda>_. Some [(''CN'', 9)]" "[]" "[(''CN'', 9)]" id "\<lambda>_. 0" geo_db empty_stat]
    by (simp add: gomap_ok_def iteration_of_def)
qed

definition default_stat :: "bool \<Rightarrow> StatConfig" where
  "default_stat on = \<lparr>st_dBFile = ''stat.db'', st_useDB = False, st_compatible = False, st_enabled = True, st_host = [], st_port = 0,
     st_enableStat = on, st_syncDuration = 0, st_saveDuration = 0, st_saveFile = ''stat.json'', st_geoFile = [],
     st_domainFile = [], st_geoDB = [], st_sequence = \<lparr>seq_enabled = False, seq_interval = 0\<rparr>\<rparr>"

theorem stat_start_panics_witness:
  "InitStatManager (\<lambda>_. Inl []) (\<lambda>_. None) id (default_stat True) (\<lambda>_. None) empty_stat = Panic"
  using stat_start_panics [of "\<lambda>_. Inl []" "\<lambda>_. None" id "default_stat True" "\<lambda>_. None" empty_stat]
  by (simp add: default_stat_def)

end
