(* ===== verification/Sequence.thy ===== *)
theory Sequence
  imports GoMaps Config
begin

text \<open>
  The request counts by time interval (\<open>gateway/stat/sequence\<close>): one database table per interval, named after
  its first minute, counting the requests per domain, path and method. The database is a map from table names to
  rows; formatting a time and what the sum of no rows is read as are parameters.
\<close>

section \<open>State\<close>

type_synonym seq_key = "string \<times> string \<times> string"
type_synonym seq_tables = "(string, (seq_key, int) gomap) gomap"

record SequenceManger =
  sq_enable :: bool
  sq_has_db :: bool
  sq_interval :: duration

record sequence_env =
  sq_Format :: "time \<Rightarrow> string"
  sq_null :: "string + int"

definition InitSequenceManager :: "Config \<Rightarrow> bool \<Rightarrow> SequenceManger" where
  "InitSequenceManager cfg db =
     \<lparr>sq_enable = seq_enabled (st_sequence (cfg_stat cfg)), sq_has_db = db,
      sq_interval = wrap64 (seq_interval (st_sequence (cfg_stat cfg)) * Second)\<rparr>"

definition Seq_IsEnabled :: "SequenceManger \<Rightarrow> bool" where
  "Seq_IsEnabled seq \<longleftrightarrow> sq_enable seq \<and> sq_has_db seq"

section \<open>Recording\<close>

text \<open>\<open>time.Truncate\<close>.\<close>

definition time_truncate :: "duration \<Rightarrow> time \<Rightarrow> time" where
  "time_truncate d t = (if d \<le> 0 then t else t - (t - zero_time) mod d)"

definition bucketStart :: "SequenceManger \<Rightarrow> time \<Rightarrow> time" where
  "bucketStart seq t = time_truncate (sq_interval seq) t"

definition tableNameFor :: "sequence_env \<Rightarrow> SequenceManger \<Rightarrow> time \<Rightarrow> string" where
  "tableNameFor env seq t = ''api_sequence_'' @ sq_Format env (bucketStart seq t)"

definition EnsureTable :: "string \<Rightarrow> seq_tables \<Rightarrow> seq_tables" where
  "EnsureTable table db = (case gm_get db table of Some rows \<Rightarrow> db | None \<Rightarrow> gm_put table [] db)"

definition upsert :: "seq_key \<Rightarrow> (seq_key, int) gomap \<Rightarrow> (seq_key, int) gomap" where
  "upsert k rows = gm_put k (case gm_get rows k of None \<Rightarrow> 1 | Some n \<Rightarrow> n + 1) rows"

definition RecordRequest :: "sequence_env \<Rightarrow> SequenceManger \<Rightarrow> time \<Rightarrow> seq_key \<Rightarrow> seq_tables \<Rightarrow> seq_tables" where
  "RecordRequest env seq now k db =
     (if \<not> sq_enable seq \<or> \<not> sq_has_db seq then db
      else (let table = tableNameFor env seq now;
                db = EnsureTable table db
            in case gm_get db table of
                 None \<Rightarrow> db
               | Some rows \<Rightarrow> gm_put table (upsert k rows) db))"

section \<open>Querying\<close>

fun seq_matches :: "seq_key \<Rightarrow> seq_key \<Rightarrow> bool" where
  "seq_matches (domain, path, method) (d, p, m) \<longleftrightarrow>
     (domain \<noteq> [] \<longrightarrow> d = domain) \<and> (path \<noteq> [] \<longrightarrow> p = path) \<and> (method \<noteq> [] \<longrightarrow> m = method)"

definition sum_rows :: "sequence_env \<Rightarrow> seq_key \<Rightarrow> (seq_key, int) gomap \<Rightarrow> string + int" where
  "sum_rows env q rows =
     (let found = filter (\<lambda>(k, n). seq_matches q k) rows
      in if found = [] then sq_null env else Inr (sum_list (map snd found)))"

text \<open>The loop over the tables; \<open>None\<close> stands for a call that never returns.\<close>

partial_function (option) query_loop ::
    "sequence_env \<Rightarrow> SequenceManger \<Rightarrow> seq_tables \<Rightarrow> seq_key \<Rightarrow> time \<Rightarrow> time \<Rightarrow> int \<Rightarrow> (string + int) option" where
  "query_loop env seq db q end_time t acc =
     (if end_time < t then Some (Inr acc)
      else (case gm_get db (tableNameFor env seq t) of
              None \<Rightarrow> query_loop env seq db q end_time (t + sq_interval seq) acc
            | Some rows \<Rightarrow>
                (case sum_rows env q rows of
                   Inl err \<Rightarrow> Some (Inl err)
                 | Inr seg \<Rightarrow> query_loop env seq db q end_time (t + sq_interval seq) (wrap64 (acc + seg)))))"

definition QueryRequests ::
    "sequence_env \<Rightarrow> SequenceManger \<Rightarrow> seq_tables \<Rightarrow> time \<Rightarrow> time \<Rightarrow> seq_key \<Rightarrow> (string + int) option" where
  "QueryRequests env seq db from_time to_time q =
     (if \<not> sq_enable seq \<or> \<not> sq_has_db seq then Some (Inr 0)
      else (let (from_time, to_time) = (if to_time < from_time then (to_time, from_time) else (from_time, to_time))
            in query_loop env seq db q (bucketStart seq to_time) (bucketStart seq from_time) 0))"

section \<open>Whether a query returns\<close>

lemma query_loop_returns:
  "0 < sq_interval seq \<Longrightarrow> \<exists>res. query_loop env seq db q e t acc = Some res"
proof (induction "nat (e - t + 1)" arbitrary: t acc rule: less_induct)
  case less
  have IH: "\<exists>res. query_loop env seq db q e (t + sq_interval seq) acc' = Some res" if "t \<le> e" for acc'
    by (rule less.hyps) (use that less.prems in auto)
  show ?case
    by (subst query_loop.simps) (use IH in \<open>auto simp: not_less split: option.split sum.split\<close>)
qed

lemma query_loop_stuck:
  assumes "query_loop env seq db q e t acc = Some res"
  shows "sq_interval seq \<le> 0 \<longrightarrow> (\<exists>z. sq_null env = Inr z) \<longrightarrow> e < t"
proof (rule query_loop.raw_induct [where P = "\<lambda>env seq db q e t acc res. sq_interval seq \<le> 0 \<longrightarrow> (\<exists>z. sq_null env = Inr z) \<longrightarrow> e < t",
        OF _ assms])
  fix loop :: "sequence_env \<Rightarrow> SequenceManger \<Rightarrow> seq_tables \<Rightarrow> seq_key \<Rightarrow> time \<Rightarrow> time \<Rightarrow> int \<Rightarrow> (string + int) option"
    and env seq db q e t acc res
  assume 1: "\<And>env seq db q e t acc res. loop env seq db q e t acc = Some res
        \<Longrightarrow> sq_interval seq \<le> 0 \<longrightarrow> (\<exists>z. sq_null env = Inr z) \<longrightarrow> e < t"
    and 2: "(if e < t then Some (Inr acc)
      else (case gm_get db (tableNameFor env seq t) of
              None \<Rightarrow> loop env seq db q e (t + sq_interval seq) acc
            | Some rows \<Rightarrow>
                (case sum_rows env q rows of
                   Inl err \<Rightarrow> Some (Inl err)
                 | Inr seg \<Rightarrow> loop env seq db q e (t + sq_interval seq) (wrap64 (acc + seg))))) = Some res"
  show "sq_interval seq \<le> 0 \<longrightarrow> (\<exists>z. sq_null env = Inr z) \<longrightarrow> e < t"
  proof (intro impI)
    assume neg: "sq_interval seq \<le> 0" and null: "\<exists>z. sq_null env = Inr z"
    show "e < t"
    proof (rule ccontr)
      assume "\<not> e < t"
      have "\<exists>seg. sum_rows env q rows = Inr seg" for rows using null by (auto simp: sum_rows_def Let_def)
      then obtain acc' where "loop env seq db q e (t + sq_interval seq) acc' = Some res"
        using 2 \<open>\<not> e < t\<close> by (auto split: option.splits sum.splits; metis Inl_Inr_False)
      with 1 neg null have "e < t + sq_interval seq" by blast
      with neg \<open>\<not> e < t\<close> show False by simp
    qed
  qed
qed


section \<open>What a query counts\<close>

lemma sum_upsert:
  "sum_list (map snd (filter (\<lambda>(k', n). P k') (upsert k rows))) =
     sum_list (map snd (filter (\<lambda>(k', n). P k') rows)) + (if P k then 1 else 0)"
proof -
  have "sum_list (map snd (filter (\<lambda>(k', n). P k') (gm_put k (case gm_get rows k of None \<Rightarrow> 1 | Some n \<Rightarrow> n + 1) rows))) =
     sum_list (map snd (filter (\<lambda>(k', n). P k') rows)) + (if P k then 1 else 0)"
    by (induction rows) auto
  then show ?thesis by (simp add: upsert_def)
qed

text \<open>The tables stand for the requests recorded: per table, the counts matching any filter add up.\<close>

type_synonym seq_event = "time \<times> seq_key"

definition record_all :: "sequence_env \<Rightarrow> SequenceManger \<Rightarrow> seq_event list \<Rightarrow> seq_tables \<Rightarrow> seq_tables" where
  "record_all env seq es db = fold (\<lambda>(now, k). RecordRequest env seq now k) es db"

definition table_sum :: "seq_tables \<Rightarrow> string \<Rightarrow> (seq_key \<Rightarrow> bool) \<Rightarrow> int" where
  "table_sum db name P = (case gm_get db name of None \<Rightarrow> 0 | Some rows \<Rightarrow> sum_list (map snd (filter (\<lambda>(k, n). P k) rows)))"

lemma record_table_sum:
  assumes "Seq_IsEnabled seq"
  shows "table_sum (RecordRequest env seq now k db) name P =
    table_sum db name P + (if tableNameFor env seq now = name \<and> P k then 1 else 0)"
  using assms by (auto simp: RecordRequest_def Seq_IsEnabled_def Let_def EnsureTable_def table_sum_def update_conv' sum_upsert
      split: option.split)

lemma record_all_sum:
  assumes "Seq_IsEnabled seq"
  shows "table_sum (record_all env seq es db) name P =
    table_sum db name P + int (length (filter (\<lambda>(t, k). tableNameFor env seq t = name \<and> P k) es))"
proof (induction es arbitrary: db)
  case (Cons e es)
  obtain t k where "e = (t, k)" by (cases e)
  with Cons [of "RecordRequest env seq t k db"] show ?case
    by (simp add: record_all_def record_table_sum [OF assms])
qed (simp add: record_all_def)

lemma sum_rows_empty: "sq_null env = Inr 0 \<Longrightarrow> sum_rows env q rows = Inr (sum_list (map snd (filter (\<lambda>(k, n). seq_matches q k) rows)))"
  by (simp add: sum_rows_def Let_def)

lemma query_loop_step:
  assumes "sq_null env = Inr 0"
  shows "query_loop env seq db q e t acc = (if e < t then Some (Inr acc)
    else query_loop env seq db q e (t + sq_interval seq)
      (if gm_get db (tableNameFor env seq t) = None then acc else wrap64 (acc + table_sum db (tableNameFor env seq t) (seq_matches q))))"
  by (subst query_loop.simps) (simp add: sum_rows_empty [OF assms] table_sum_def split: option.split)

text \<open>Formatting to minutes tells apart exactly the times of different minutes, the interval being whole minutes.\<close>

definition minute_names :: "sequence_env \<Rightarrow> bool" where
  "minute_names env \<longleftrightarrow> (\<forall>t u. sq_Format env t = sq_Format env u \<longleftrightarrow> (t - zero_time) div Minute = (u - zero_time) div Minute)"

lemma bucket_multiple:
  assumes "0 < sq_interval seq"
  shows "(bucketStart seq t - zero_time) mod sq_interval seq = 0" "bucketStart seq t \<le> t" "t < bucketStart seq t + sq_interval seq"
proof -
  let ?i = "sq_interval seq" and ?d = "t - zero_time"
  have b: "bucketStart seq t = zero_time + (?d - ?d mod ?i)" using assms by (simp add: bucketStart_def time_truncate_def)
  then have "bucketStart seq t - zero_time = ?i * (?d div ?i)" by (simp add: minus_mod_eq_mult_div)
  then show "(bucketStart seq t - zero_time) mod ?i = 0" by simp
  show "bucketStart seq t \<le> t" "t < bucketStart seq t + ?i"
    using b pos_mod_sign [OF assms, of ?d] pos_mod_bound [OF assms, of ?d] by linarith+
qed

lemma bucket_of_multiple: "0 < sq_interval seq \<Longrightarrow> (t - zero_time) mod sq_interval seq = 0 \<Longrightarrow> bucketStart seq t = t"
  by (simp add: bucketStart_def time_truncate_def)

lemma names_of_buckets:
  assumes "minute_names env" and "0 < sq_interval seq" and "Minute dvd sq_interval seq"
  shows "tableNameFor env seq t = tableNameFor env seq u \<longleftrightarrow> bucketStart seq t = bucketStart seq u"
proof -
  have "Minute dvd bucketStart seq v - zero_time" for v
    using bucket_multiple(1) [OF assms(2)] assms(3) by (meson dvd_trans mod_eq_0_iff_dvd)
  then have "(bucketStart seq t - zero_time) div Minute = (bucketStart seq u - zero_time) div Minute
      \<longleftrightarrow> bucketStart seq t - zero_time = bucketStart seq u - zero_time"
    by (metis dvd_div_mult_self)
  then show ?thesis using assms(1) by (simp add: tableNameFor_def minute_names_def)
qed

definition in_buckets :: "SequenceManger \<Rightarrow> seq_key \<Rightarrow> time \<Rightarrow> time \<Rightarrow> seq_event list \<Rightarrow> int" where
  "in_buckets seq q t e es =
     int (length (filter (\<lambda>(u, k). t \<le> bucketStart seq u \<and> bucketStart seq u \<le> e \<and> seq_matches q k) es))"

lemma in_buckets_bounds: "0 \<le> in_buckets seq q t e es" "in_buckets seq q t e es \<le> int (length es)"
  by (simp_all add: in_buckets_def)

lemma multiples_gap:
  assumes "0 < i" and "(a - z) mod i = 0" and "(b - z) mod i = 0" and "a < (b :: int)"
  shows "a + i \<le> b"
proof -
  obtain m n where "a - z = i * m" "b - z = i * n" using assms(2,3) unfolding mod_eq_0_iff_dvd by (elim dvdE)
  with assms(4) have "i * m < i * n" by linarith
  then have "m + 1 \<le> n" using assms(1) by (simp add: mult_less_cancel_left)
  then have "i * (m + 1) \<le> i * n" using assms(1) by (intro mult_left_mono) auto
  with \<open>a - z = i * m\<close> \<open>b - z = i * n\<close> show ?thesis by (simp add: distrib_left)
qed

lemma in_buckets_step:
  assumes "0 < sq_interval seq" and "(t - zero_time) mod sq_interval seq = 0" and "t \<le> e"
  shows "in_buckets seq q t e es =
    int (length (filter (\<lambda>(u, k). bucketStart seq u = t \<and> seq_matches q k) es)) + in_buckets seq q (t + sq_interval seq) e es"
proof (induction es)
  case (Cons x es)
  obtain u k where x: "x = (u, k)" by (cases x)
  have "t < bucketStart seq u \<Longrightarrow> t + sq_interval seq \<le> bucketStart seq u"
    by (rule multiples_gap [OF assms(1,2) bucket_multiple(1) [OF assms(1)]])
  then consider "bucketStart seq u < t" | "bucketStart seq u = t" | "t + sq_interval seq \<le> bucketStart seq u" by linarith
  then show ?case
    by cases (use Cons x assms(1,3) in \<open>simp_all add: in_buckets_def\<close>)
qed (simp add: in_buckets_def)

lemma query_loop_counts:
  assumes "sq_null env = Inr 0" and "minute_names env" and "0 < sq_interval seq" and "Minute dvd sq_interval seq"
    and "Seq_IsEnabled seq" and "(t - zero_time) mod sq_interval seq = 0" and "0 \<le> acc"
    and "acc + in_buckets seq q t e es \<le> int_max"
  shows "query_loop env seq (record_all env seq es []) q e t acc = Some (Inr (acc + in_buckets seq q t e es))"
  using assms(6-8)
proof (induction "nat (e - t + 1)" arbitrary: t acc rule: less_induct)
  case less
  show ?case
  proof (cases "e < t")
    case True
    then have "in_buckets seq q t e es = 0" by (simp add: in_buckets_def filter_empty_conv split_beta)
    with True show ?thesis by (subst query_loop_step [OF assms(1)]) simp
  next
    case False
    let ?name = "tableNameFor env seq t" and ?db = "record_all env seq es []" and ?t = "t + sq_interval seq"
    have "filter (\<lambda>(u, k). tableNameFor env seq u = ?name \<and> seq_matches q k) es
        = filter (\<lambda>(u, k). bucketStart seq u = t \<and> seq_matches q k) es"
      by (simp add: names_of_buckets [OF assms(2-4)] bucket_of_multiple [OF assms(3) less.prems(1)])
    then have seg: "in_buckets seq q t e es = table_sum ?db ?name (seq_matches q) + in_buckets seq q ?t e es"
      using in_buckets_step [OF assms(3) less.prems(1), of e q es] False record_all_sum [OF assms(5), of env es "[]" ?name "seq_matches q"]
      by (simp add: table_sum_def)
    let ?acc = "acc + table_sum ?db ?name (seq_matches q)"
    have pos: "0 \<le> table_sum ?db ?name (seq_matches q)"
      using record_all_sum [OF assms(5), of env es "[]" ?name "seq_matches q"] by (simp add: table_sum_def)
    have "wrap64 ?acc = ?acc"
      using pos seg less.prems(2,3) in_buckets_bounds(1) [of seq q ?t e es] by (simp add: in_int64_def int_min_def)
    then have "(if gm_get ?db ?name = None then acc else wrap64 ?acc) = ?acc" by (auto simp: table_sum_def)
    then have "query_loop env seq ?db q e t acc = query_loop env seq ?db q e ?t ?acc"
      using False by (subst query_loop_step [OF assms(1)]) simp
    moreover have "query_loop env seq ?db q e ?t ?acc = Some (Inr (?acc + in_buckets seq q ?t e es))"
    proof (rule less.hyps)
      show "(?t - zero_time) mod sq_interval seq = 0"
        using less.prems(1) mod_add_self2 [of "t - zero_time" "sq_interval seq"] by (simp add: algebra_simps)
    qed (use False assms(3) less.prems(2,3) pos seg in auto)
    ultimately show ?thesis using seg by simp
  qed
qed


section \<open>Intervals shorter than a minute\<close>

text \<open>
  Table names go down to minutes only: with an interval of 30 seconds a query over one minute reads the one table of that minute
  twice and counts its requests twice.
\<close>

definition minute_env :: sequence_env where
  "minute_env = \<lparr>sq_Format = \<lambda>t. itoa ((t - zero_time) div Minute), sq_null = Inr 0\<rparr>"

lemma minute_env_ok: "minute_names minute_env" "sq_null minute_env = Inr 0"
  by (auto simp: minute_names_def minute_env_def dest: itoa_inj)

definition seq_of :: "duration \<Rightarrow> SequenceManger" where
  "seq_of i = \<lparr>sq_enable = True, sq_has_db = True, sq_interval = i\<rparr>"

lemma double_count:
  "QueryRequests minute_env (seq_of (30 * Second)) (record_all minute_env (seq_of (30 * Second)) [(zero_time, (''a'', ''/'', ''GET''))] [])
     zero_time (zero_time + 30 * Second) ([], [], []) = Some (Inr 2)"
proof -
  let ?seq = "seq_of (30 * Second)" and ?e = "(zero_time, (''a'', ''/'', ''GET''))"
  let ?db = "record_all minute_env ?seq [?e] []" and ?q = "([], [], [])"
  note on = record_all_sum [of ?seq minute_env "[?e]" "[]"]
  have name: "tableNameFor minute_env ?seq zero_time = tableNameFor minute_env ?seq (zero_time + 30 * Second)"
    by (simp add: tableNameFor_def minute_env_def bucketStart_def time_truncate_def seq_of_def Second_def Minute_def)
  have sum: "table_sum ?db (tableNameFor minute_env ?seq (zero_time + 30 * Second)) (seq_matches ?q) = 1"
    using on [of "tableNameFor minute_env ?seq (zero_time + 30 * Second)" "seq_matches ?q"] name
    by (simp add: Seq_IsEnabled_def seq_of_def table_sum_def)
  then have some: "gm_get ?db (tableNameFor minute_env ?seq (zero_time + 30 * Second)) \<noteq> None"
    by (auto simp: table_sum_def split: option.splits)
  have i: "sq_interval ?seq = 30 * Second" "0 < Second" by (simp_all add: seq_of_def Second_def)
  have b: "bucketStart ?seq (zero_time + 30 * Second) = zero_time + 30 * Second" "bucketStart ?seq zero_time = zero_time"
    by (simp_all add: bucketStart_def time_truncate_def seq_of_def)
  note step = query_loop_step [OF minute_env_ok(2)]
  have "query_loop minute_env ?seq ?db ?q (zero_time + 30 * Second) zero_time 0 = Some (Inr 2)"
    using sum some name i by (subst step, subst step, subst step) (simp add: wrap64_def)
  then show ?thesis using b i by (simp add: QueryRequests_def seq_of_def Let_def)
qed



end
