(* ===== verification/GatewayRuntime.thy ===== *)
theory GatewayRuntime
  imports Config
begin

text \<open>
  The run-time tables of \<open>gateway/runtime\<close>: the domains with their services (\<open>domains.go\<close>), the
  ports of each domain (\<open>domain_ports.go\<close>) and the periodic refresh of both (\<open>runtime_syncer.go\<close>
  on \<open>internal/job_syncer\<close>). The global variables are the fields of a record; reading the domain
  file, decoding it and querying the database are parameters; the iteration orders of Go maps are
  arguments.
\<close>

section \<open>State\<close>

record serviceMap =
  sm_frontend :: string
  sm_backend :: string

record DomainsRuntime =
  dr_domains :: "string list"
  dr_domainsMap :: "serviceMap StructMap"
  dr_domainFrontMap :: "string StructMap"

record runtime =
  rt_Domains :: "string list"
  rt_map :: DomainsRuntime
  rt_ports :: "int list StructMap"

section \<open>Domains\<close>

definition loadDefaultDomainsMap :: "runtime \<Rightarrow> runtime" where
  "loadDefaultDomainsMap rt = rt\<lparr>rt_map :=
     \<lparr>dr_domains = [], dr_domainsMap = NewMap [], dr_domainFrontMap = NewMap []\<rparr>\<rparr>"

definition domains_map :: "(string \<times> serviceMap) list \<Rightarrow> serviceMap StructMap" where
  "domains_map ord = fold (\<lambda>(key, val). Map_Put key val) ord (NewMap [])"

definition front_map :: "(string \<times> serviceMap) list \<Rightarrow> string StructMap" where
  "front_map ord = fold (\<lambda>(key, val) fm. if sm_frontend val \<noteq> [] then Map_Put (sm_frontend val) key fm else fm)
     ord (NewMap [])"

text \<open>
  \<open>decode\<close> is \<open>json.Unmarshal\<close> into the map (\<open>None\<close> is an error); \<open>ord1\<close> and \<open>ord2\<close> are the orders
  in which the two loops see the decoded map, \<open>ord3\<close> and \<open>ord4\<close> those of the two \<open>Keys()\<close> calls.
\<close>

definition loadRuntimeDomains ::
    "(string \<Rightarrow> string option) \<Rightarrow> (string \<Rightarrow> (string, serviceMap) gomap option) \<Rightarrow>
     (string \<times> serviceMap) list \<Rightarrow> (string \<times> serviceMap) list \<Rightarrow>
     (string \<times> serviceMap) list \<Rightarrow> (string \<times> serviceMap) list \<Rightarrow> AppConfig \<Rightarrow> runtime \<Rightarrow> runtime" where
  "loadRuntimeDomains read_file decode ord1 ord2 ord3 ord4 cfg rt =
     (if ac_domainMap cfg = [] then loadDefaultDomainsMap rt
      else case read_file (ac_domainMap cfg) of
        None \<Rightarrow> loadDefaultDomainsMap rt
      | Some data \<Rightarrow>
         (case decode data of
            None \<Rightarrow> loadDefaultDomainsMap rt
          | Some dmap \<Rightarrow>
              rt\<lparr>rt_Domains := Map_Keys ord3,
                 rt_map := \<lparr>dr_domains = Map_Keys ord4, dr_domainsMap = domains_map ord1,
                            dr_domainFrontMap = front_map ord2\<rparr>\<rparr>))"

lemma fold_put_get:
  "distinct (map fst ord) \<Longrightarrow>
     Map_Get (fold (\<lambda>(key, val). Map_Put key val) ord m) k
     = (case map_of ord k of Some v \<Rightarrow> Some v | None \<Rightarrow> Map_Get m k)"
  by (induction ord arbitrary: m)
    (auto simp: Map_Get_Put map_of_eq_None_iff image_iff split: option.splits)

lemma front_map_sound:
  "Map_Get (fold (\<lambda>(key, val) fm. if sm_frontend val \<noteq> [] then Map_Put (sm_frontend val) key fm else fm) ord fm) f
     = Some d \<Longrightarrow> Map_Get fm f = Some d \<or> (\<exists>val. (d, val) \<in> set ord \<and> sm_frontend val = f \<and> f \<noteq> [])"
proof (induction ord arbitrary: fm)
  case (Cons kv ord)
  obtain key val where "kv = (key, val)" by (meson surj_pair)
  with Cons show ?case by (fastforce simp: Map_Get_Put split: if_splits)
qed simp

lemma front_map_keeps:
  "Map_Get fm f \<noteq> None \<Longrightarrow>
     Map_Get (fold (\<lambda>(key, val) fm. if sm_frontend val \<noteq> [] then Map_Put (sm_frontend val) key fm else fm) ord fm) f
     \<noteq> None"
  by (induction ord arbitrary: fm) (auto simp: Map_Get_Put split: if_splits)

lemma front_map_complete:
  "(key, val) \<in> set ord \<Longrightarrow> sm_frontend val \<noteq> [] \<Longrightarrow>
     Map_Get (fold (\<lambda>(key, val) fm. if sm_frontend val \<noteq> [] then Map_Put (sm_frontend val) key fm else fm) ord fm)
       (sm_frontend val) \<noteq> None"
proof (induction ord arbitrary: fm)
  case (Cons kv ord)
  show ?case
  proof (cases "kv = (key, val)")
    case True
    with Cons.prems(2) front_map_keeps [of "Map_Put (sm_frontend val) key fm" "sm_frontend val" ord]
    show ?thesis by (simp add: Map_Get_Put)
  next
    case False
    with Cons show ?thesis by (cases kv) auto
  qed
qed simp

text \<open>
  After a domain file has been loaded, in whatever orders its map is iterated: looking up a
  domain gives exactly its entry of the file; the reverse map gives for a front end name a domain
  that the file maps to that front end, and it knows every front end of the file; and the global
  list of domains holds exactly the file's domains.
\<close>

theorem runtime_domains_loaded:
  assumes "ac_domainMap cfg \<noteq> []" and "read_file (ac_domainMap cfg) = Some data" and "decode data = Some dmap"
    and "gomap_ok dmap"
    and "iteration_of ord1 dmap" and "iteration_of ord2 dmap" and "iteration_of ord3 dmap" and "iteration_of ord4 dmap"
    and "rt' = loadRuntimeDomains read_file decode ord1 ord2 ord3 ord4 cfg rt"
  shows "(\<forall>d. Map_Get (dr_domainsMap (rt_map rt')) d = gm_get dmap d)
    \<and> (\<forall>f d. Map_Get (dr_domainFrontMap (rt_map rt')) f = Some d \<longrightarrow>
          (\<exists>val. gm_get dmap d = Some val \<and> sm_frontend val = f \<and> f \<noteq> []))
    \<and> (\<forall>d val. gm_get dmap d = Some val \<and> sm_frontend val \<noteq> [] \<longrightarrow>
          Map_Get (dr_domainFrontMap (rt_map rt')) (sm_frontend val) \<noteq> None)
    \<and> set (rt_Domains rt') = dom (gm_get dmap) \<and> rt_ports rt' = rt_ports rt"
proof -
  have rt': "rt' = rt\<lparr>rt_Domains := Map_Keys ord3,
      rt_map := \<lparr>dr_domains = Map_Keys ord4, dr_domainsMap = domains_map ord1, dr_domainFrontMap = front_map ord2\<rparr>\<rparr>"
    using assms(1-3,9) by (simp add: loadRuntimeDomains_def)
  have d: "distinct (map fst ord) \<and> map_of ord = map_of dmap \<and> set ord = set dmap" if "iteration_of ord dmap" for ord
    using iteration_ok [OF that] iteration_set [OF that] iteration_get [OF that assms(4)] assms(4)
    by (auto simp: gomap_ok_def)
  have in_set: "(k, v) \<in> set dmap \<longleftrightarrow> gm_get dmap k = Some v" for k v
    using assms(4) by (simp add: gomap_ok_def)
  have "Map_Get (domains_map ord1) k = gm_get dmap k" for k
    using fold_put_get [of ord1 "NewMap []" k] d [OF assms(5)]
    by (simp add: domains_map_def NewMap_def Map_Get_def split: option.splits)
  moreover have "\<exists>val. gm_get dmap k = Some val \<and> sm_frontend val = f \<and> f \<noteq> []"
    if "Map_Get (front_map ord2) f = Some k" for f k
    using front_map_sound [of ord2 "NewMap []" f k] that d [OF assms(6)] in_set
    by (auto simp: front_map_def NewMap_def Map_Get_def)
  moreover have "Map_Get (front_map ord2) (sm_frontend val) \<noteq> None"
    if "gm_get dmap k = Some val" "sm_frontend val \<noteq> []" for k val
    using front_map_complete [of k val ord2 "NewMap []"] that d [OF assms(6)] in_set by (auto simp: front_map_def)
  moreover have "set (Map_Keys ord3) = dom (gm_get dmap)"
    using d [OF assms(7)] by (simp add: Map_Keys_def dom_map_of_conv_image_fst)
  ultimately show ?thesis unfolding rt' by auto
qed

theorem runtime_domains_loaded_witness:
  "let dmap = [(''a.com'', \<lparr>sm_frontend = ''fa'', sm_backend = []\<rparr>)];
       rt = \<lparr>rt_Domains = [], rt_map = \<lparr>dr_domains = [], dr_domainsMap = [], dr_domainFrontMap = []\<rparr>, rt_ports = []\<rparr>;
       cfg = GetDefaultConfig\<lparr>ac_domainMap := ''domains.json''\<rparr>;
       rt' = loadRuntimeDomains (\<lambda>_. Some ''contents'') (\<lambda>_. Some dmap) dmap dmap dmap dmap cfg rt
   in set (rt_Domains rt') = {''a.com''} \<and> rt_ports rt' = rt_ports rt"
proof -
  let ?dmap = "[(''a.com'', \<lparr>sm_frontend = ''fa'', sm_backend = []\<rparr>)]"
  show ?thesis
    using runtime_domains_loaded [of "GetDefaultConfig\<lparr>ac_domainMap := ''domains.json''\<rparr>"
        "\<lambda>_. Some ''contents''" "''contents''" "\<lambda>_. Some ?dmap" ?dmap ?dmap ?dmap ?dmap ?dmap _
        "\<lparr>rt_Domains = [], rt_map = \<lparr>dr_domains = [], dr_domainsMap = [], dr_domainFrontMap = []\<rparr>, rt_ports = []\<rparr>"]
    by (simp add: gomap_ok_def iteration_of_def dom_def)
qed

section \<open>Ports\<close>

text \<open>What the code reads of an application record of the database.\<close>

record DaoAPP =
  app_name :: string
  app_domain :: string
  app_ports :: "int list"
  app_randomPort :: bool

definition loadDomainPortsMap :: "DaoAPP list \<Rightarrow> runtime \<Rightarrow> runtime" where
  "loadDomainPortsMap apps rt =
     rt\<lparr>rt_ports := fold (\<lambda>d m. if app_domain d \<noteq> [] then Map_Put (app_domain d) (app_ports d) m else m)
       apps (rt_ports rt)\<rparr>"

definition InitDomainPortsMap :: "DaoAPP list \<Rightarrow> runtime \<Rightarrow> runtime" where
  "InitDomainPortsMap = loadDomainPortsMap"

definition RefreshDomainPortsMap :: "DaoAPP list \<Rightarrow> runtime \<Rightarrow> runtime" where
  "RefreshDomainPortsMap = loadDomainPortsMap"

definition getDomainPort :: "string \<Rightarrow> runtime \<Rightarrow> int list" where
  "getDomainPort host rt = (case Map_Get (rt_ports rt) host of Some d \<Rightarrow> d | None \<Rightarrow> [])"

definition DomainReflect :: "string \<Rightarrow> runtime \<Rightarrow> string list" where
  "DomainReflect host rt = map (\<lambda>v. ''127.0.0.1:'' @ itoa v) (getDomainPort host rt)"

lemma find_append: "find P (xs @ ys) = (case find P xs of Some x \<Rightarrow> Some x | None \<Rightarrow> find P ys)"
  by (induction xs) auto

lemma ports_after_load:
  "Map_Get (fold (\<lambda>d m. if app_domain d \<noteq> [] then Map_Put (app_domain d) (app_ports d) m else m) apps m) host
   = (if host = [] then Map_Get m host
      else case find (\<lambda>d. app_domain d = host) (rev apps) of Some d \<Rightarrow> Some (app_ports d) | None \<Rightarrow> Map_Get m host)"
proof (induction apps arbitrary: m)
  case (Cons d apps)
  show ?case
    unfolding fold.simps o_apply Cons.IH
    by (auto simp: Map_Get_Put find_append split: option.splits)
qed simp

text \<open>
  After a refresh of the ports, a host that some application names as its domain resolves to the
  ports of the last such application, as local addresses in their order; every other host keeps
  what it had, also when its application is gone.
\<close>

theorem refresh_ports:
  assumes "host \<noteq> []"
  shows "DomainReflect host (RefreshDomainPortsMap apps rt) =
    (case find (\<lambda>d. app_domain d = host) (rev apps) of
       Some d \<Rightarrow> map (\<lambda>v. ''127.0.0.1:'' @ itoa v) (app_ports d)
     | None \<Rightarrow> DomainReflect host rt)"
  using assms ports_after_load [of apps "rt_ports rt" host]
  by (simp add: DomainReflect_def getDomainPort_def RefreshDomainPortsMap_def loadDomainPortsMap_def split: option.splits)

theorem refresh_ports_witness:
  "DomainReflect ''a.com'' (RefreshDomainPortsMap
     [\<lparr>app_name = ''a'', app_domain = ''a.com'', app_ports = [8080], app_randomPort = True\<rparr>]
     \<lparr>rt_Domains = [], rt_map = \<lparr>dr_domains = [], dr_domainsMap = [], dr_domainFrontMap = []\<rparr>, rt_ports = []\<rparr>)
   = [''127.0.0.1:'' @ itoa 8080]"
  by (subst refresh_ports) simp_all

section \<open>Periodic refresh\<close>

record JobSyncer =
  js_taskName :: string
  js_syncTime :: duration

definition NewJobSyncer :: "string \<Rightarrow> duration \<Rightarrow> JobSyncer" where
  "NewJobSyncer taskName syncTime =
     \<lparr>js_taskName = taskName, js_syncTime = (if syncTime \<le> 0 then wrap64 (60 * Second) else syncTime)\<rparr>"

definition InitRuntimeSyncer :: "AppConfig \<Rightarrow> JobSyncer list" where
  "InitRuntimeSyncer cfg =
     [NewJobSyncer ''sync runtime-domains'' (SyncerTime_Get (sy_jobSyncDomainsMap (ac_syncer cfg)) 3600),
      NewJobSyncer ''sync runtime-domain-ports'' (SyncerTime_Get (sy_jobSyncDomainPorts (ac_syncer cfg)) 3600)]"

text \<open>
  The refresh interval is the configured number of seconds; when it is not configured, the
  jobs run every 3600 nanoseconds, less than a hundred thousandth of a second.
\<close>

theorem syncer_interval:
  assumes "0 < s" and "in_int64 (s * Second)"
  shows "map js_syncTime (InitRuntimeSyncer (cfg\<lparr>ac_syncer := \<lparr>sy_jobSyncDomainsMap = s, sy_jobSyncDomainPorts = 0\<rparr>\<rparr>))
       = [s * Second, 3600]
    \<and> 3600 * 100000 < Second"
  using assms by (simp add: InitRuntimeSyncer_def NewJobSyncer_def SyncerTime_Get_def Second_def)

theorem syncer_interval_witness:
  "map js_syncTime (InitRuntimeSyncer (GetDefaultConfig\<lparr>ac_syncer := \<lparr>sy_jobSyncDomainsMap = 30, sy_jobSyncDomainPorts = 0\<rparr>\<rparr>))
     = [30 * Second, 3600]"
  using syncer_interval [of 30 GetDefaultConfig] by (simp add: in_int64_bounds Second_def)

end
