(* ===== verification/Resolver.thy ===== *)
theory Resolver
  imports GatewayRuntime Balancer GatewayStat GoHttp
begin

text \<open>
  The resolver of \<open>gateway/resolver\<close>: it turns a request into the address it is forwarded to, from
  the run-time tables, the API rules built once from the front end configuration
  (\<open>rule_parser.go\<close>), the load balancer and the custom services. A call takes the request and the
  balancer's cache and returns both, changed; a nil dereference or an index out of range is \<open>Panic\<close>.
\<close>

section \<open>Rules and results\<close>

definition StaticHost :: string where "StaticHost = ''127.0.0.1''"
definition StaticSchema :: string where "StaticSchema = ''http''"

definition SandwichInternalFlag :: string where "SandwichInternalFlag = ''X-Sandwich-Request-Flag''"
definition SandwichBackendError :: string where "SandwichBackendError = ''SandwichBackendError''"

record Rule =
  rule_API :: string
  rule_Rewrite :: string
  rule_UseRewrite :: bool
  rule_Backend :: string

record Ruler =
  ru_cfg :: Config
  ru_apiRules :: "(string, Rule list) gomap"

datatype proxy_type = Frontend | Backend

text \<open>\<open>Frontend\<close> is the constant 0 and hence the zero value of the field.\<close>

record RuleResult =
  rr_type :: proxy_type
  rr_to :: string
  rr_path :: string
  rr_host :: string
  rr_port :: int
  rr_scheme :: string
  rr_error :: "string option"

definition error_result :: "string \<Rightarrow> RuleResult" where
  "error_result e = \<lparr>rr_type = Frontend, rr_to = [], rr_path = [], rr_host = [], rr_port = 0,
     rr_scheme = [], rr_error = Some e\<rparr>"

definition backend_rule :: "BackendConfig \<Rightarrow> Rule" where
  "backend_rule b = \<lparr>rule_API = be_aPI b, rule_Rewrite = be_rewrite b, rule_UseRewrite = be_useRewrite b,
     rule_Backend = be_service b\<rparr>"

definition NewRuler :: "Config \<Rightarrow> runtime \<Rightarrow> Ruler" where
  "NewRuler cfg rt =
     \<lparr>ru_cfg = cfg,
      ru_apiRules = fold (\<lambda>server rules.
        case Map_Get (dr_domainFrontMap (rt_map rt)) (fs_name server) of
          None \<Rightarrow> rules
        | Some domain \<Rightarrow> gm_put domain (map backend_rule (fs_backends server)) rules)
        (pf_servers (cfg_pxyFrontend cfg)) []\<rparr>"

section \<open>Matching API rules\<close>

text \<open>\<open>req.URL.Path\<close> of a request without URL is a nil dereference.\<close>

definition MatchAPIRule ::
    "runtime \<Rightarrow> time \<Rightarrow> Request \<Rightarrow> Rule list \<Rightarrow> balancer_cache \<Rightarrow> (balancer_cache \<times> RuleResult option) outcome" where
  "MatchAPIRule rt now req rules cache =
     (case r_url req of
        None \<Rightarrow> Panic
      | Some url \<Rightarrow>
         Return (case dropWhile (\<lambda>rule. rule_API rule = [] \<or> rule_Backend rule = []) rules of
            [] \<Rightarrow> (cache, None)
          | rule # _ \<Rightarrow>
              if hasPrefix (u_path url) (rule_API rule)
              then (let targetPath = (if rule_UseRewrite rule
                          then (if hasPrefix (u_path url) (rule_API rule)
                                then replaceOnce (u_path url) (rule_API rule) (rule_Rewrite rule) else u_path url)
                          else u_path url)
                    in case Map_Get (rt_ports rt) (r_host req) of
                         None \<Rightarrow> (cache, Some (error_result ''domains port is empty''))
                       | Some ports \<Rightarrow>
                           (let (cache, port) = PickOneRoundRobin now ports cache
                            in (cache, Some \<lparr>rr_type = Frontend, rr_to = rule_Backend rule, rr_path = targetPath,
                                 rr_host = StaticHost, rr_port = port, rr_scheme = StaticSchema, rr_error = None\<rparr>)))
              else (cache, None)))"

definition IsCustomServiceEnabled :: "Ruler \<Rightarrow> bool" where
  "IsCustomServiceEnabled r = pcs_enable (cfg_pxyCustomService (ru_cfg r))"

fun ResolveCustomService_loop :: "(int \<Rightarrow> int \<Rightarrow> int) \<Rightarrow> string \<Rightarrow> CustomServiceConfig list \<Rightarrow> RuleResult outcome" where
  "ResolveCustomService_loop random_int host [] = Return (error_result ''unknown host'')"
| "ResolveCustomService_loop random_int host (service # services) =
     (if host = cs_domain service
      then bind_outcome (PickOneAddrRoundRobin random_int (map (\<lambda>u. (up_host u, up_port u)) (cs_upstream service)))
        (\<lambda>(realHost, port). Return \<lparr>rr_type = Backend, rr_to = [], rr_path = [], rr_host = realHost,
           rr_port = port, rr_scheme = StaticSchema, rr_error = None\<rparr>)
      else ResolveCustomService_loop random_int host services)"

definition ResolveCustomService :: "(int \<Rightarrow> int \<Rightarrow> int) \<Rightarrow> Ruler \<Rightarrow> string \<Rightarrow> RuleResult outcome" where
  "ResolveCustomService random_int r host =
     ResolveCustomService_loop random_int host (pcs_customService (cfg_pxyCustomService (ru_cfg r)))"

section \<open>Parsing a request\<close>

definition frontend_result :: "Config \<Rightarrow> serviceMap \<Rightarrow> RuleResult" where
  "frontend_result cfg sm = \<lparr>rr_type = Frontend, rr_to = sm_frontend sm, rr_path = [],
     rr_host = pf_host (cfg_pxyFrontend cfg), rr_port = pf_port (cfg_pxyFrontend cfg),
     rr_scheme = StaticSchema, rr_error = None\<rparr>"

type_synonym ruler_output = "(Request \<times> balancer_cache \<times> RuleResult) outcome"

definition Ruler_Parse ::
    "(int \<Rightarrow> int \<Rightarrow> int) \<Rightarrow> runtime \<Rightarrow> time \<Rightarrow> Ruler \<Rightarrow> Request \<Rightarrow> balancer_cache \<Rightarrow> ruler_output" where
  "Ruler_Parse random_int rt now r req cache =
     (let host = r_host req; cfg = ru_cfg r;
          flag = pf_internalFlag (cfg_pxyFrontend cfg)
      in if host = [] then Return (req, cache, error_result ''host is empty'')
         else if host = ''localhost'' \<or> host = StaticHost
         then (if r_url req = None then Panic else Return (req, cache, error_result ''unknown path''))
         else case Map_Get (dr_domainsMap (rt_map rt)) host of
           None \<Rightarrow>
             (if IsCustomServiceEnabled r
              then bind_outcome (ResolveCustomService random_int r host) (\<lambda>res. Return (req, cache, res))
              else Return (req, cache, error_result ''domains map is empty''))
         | Some sm \<Rightarrow>
             (let rules = (case gm_get (ru_apiRules r) host of Some rs \<Rightarrow> rs | None \<Rightarrow> [])
              in if sm_frontend sm \<noteq> [] \<and> sm_backend sm = []
                 then Return (req_set flag (sm_frontend sm) req, cache, frontend_result cfg sm)
                 else if sm_frontend sm = [] \<and> sm_backend sm \<noteq> []
                 then (case Map_Get (rt_ports rt) host of
                         None \<Rightarrow> Return (req, cache, error_result ''domains port is empty'')
                       | Some ports \<Rightarrow>
                           (let (cache, port) = PickOneRoundRobin now ports cache
                            in Return (req, cache, \<lparr>rr_type = Backend, rr_to = sm_backend sm, rr_path = [],
                                 rr_host = StaticHost, rr_port = port, rr_scheme = StaticSchema, rr_error = None\<rparr>)))
                 else bind_outcome (MatchAPIRule rt now req rules cache) (\<lambda>(cache, match).
                        case match of
                          Some result \<Rightarrow> Return (req, cache, result)
                        | None \<Rightarrow>
                            if sm_backend sm \<noteq> [] \<and> sm_frontend sm \<noteq> []
                            then Return (req_set flag (sm_frontend sm) req, cache, frontend_result cfg sm)
                            else Return (req, cache, error_result ''unknown path''))))"

section \<open>The resolver\<close>

definition ResolveError :: "RuleResult \<Rightarrow> Request \<Rightarrow> Request \<times> bool" where
  "ResolveError result req =
     (if rr_error result \<noteq> None then (req_set SandwichInternalFlag SandwichBackendError req, True)
      else if rr_host result = [] \<or> rr_port result = 0
      then (req_set SandwichInternalFlag SandwichBackendError req, True)
      else (req, False))"

text \<open>The request (with its URL changed in place), the cache, the URL returned, and the statistics.\<close>

type_synonym resolved = "Request \<times> balancer_cache \<times> URL option \<times> stat_event list"

definition Resolver_Parse ::
    "(int \<Rightarrow> int \<Rightarrow> int) \<Rightarrow> runtime \<Rightarrow> time \<Rightarrow> Ruler \<Rightarrow> Request \<Rightarrow> balancer_cache \<Rightarrow> resolved outcome" where
  "Resolver_Parse random_int rt now r req cache =
     bind_outcome (Ruler_Parse random_int rt now r req cache) (\<lambda>(req', cache, result).
       let (req', failed) = ResolveError result req'
       in if failed then Return (req', cache, None, [])
          else (case r_url req' of
             None \<Rightarrow> Panic
           | Some url \<Rightarrow>
              (let url = url\<lparr>u_scheme := rr_scheme result,
                             u_host := rr_host result @ '':'' @ itoa (rr_port result)\<rparr>;
                   req' = req'\<lparr>r_url := Some url\<rparr>;
                   req' = req_set ''Host'' (r_host req) req';
                   req' = req_set (ph_frontendHostHeader (cfg_proxyHeader (ru_cfg r))) (r_host req) req'
               in Return (req', cache, Some url,
                    [EvAdd (case rr_type result of Frontend \<Rightarrow> Static | Backend \<Rightarrow> API)]))))"

definition FastCheckFront ::
    "(int \<Rightarrow> int \<Rightarrow> int) \<Rightarrow> runtime \<Rightarrow> time \<Rightarrow> Ruler \<Rightarrow> Request \<Rightarrow> balancer_cache \<Rightarrow> (Request \<times> balancer_cache \<times> bool) outcome" where
  "FastCheckFront random_int rt now r req cache =
     bind_outcome (Ruler_Parse random_int rt now r req cache)
       (\<lambda>(req, cache, result). Return (req, cache, rr_type result = Frontend))"

definition IsBackend :: "Request \<Rightarrow> bool" where
  "IsBackend req \<longleftrightarrow> req_get req ''X-Hamburger-Backend'' \<noteq> []"

section \<open>Where a request can be sent\<close>

lemma pick_member:
  assumes "ports \<noteq> []" and cache: "\<And>lb. Map_Get cache (ports_key ports) = Some lb \<Longrightarrow>
      lb_ports lb = ports \<and> lb_length lb = int (length ports)"
    and "length ports < 2 ^ 64"
    and "PickOneRoundRobin now ports cache = (cache', port)"
  shows "port \<in> set ports"
proof -
  obtain lb cache1 where g: "GetBalancer now ports cache = (cache1, Some lb)"
    "lb_ports lb = ports" "lb_length lb = int (length ports)"
    using assms(1) cache by (cases "Map_Get cache (ports_key ports)") (simp_all add: GetBalancer_def Let_def)
  have "unat (c mod word_of_int (int (length ports)) :: 64 word) < length ports" for c
  proof -
    have "unat (word_of_int (int (length ports)) :: 64 word) = length ports"
      using assms(3) by (simp add: unat_of_nat take_bit_nat_eq_self_iff)
    then show ?thesis using assms(1) by (simp add: unat_mod)
  qed
  then show ?thesis
    using assms(1,4) g by (auto simp: PickOneRoundRobin_def LoadBalancer_PickOne_def Let_def case_prod_unfold
        split: if_splits)
qed

text \<open>Every balancer of the cache belongs to its key's ports.\<close>

definition cache_ok :: "balancer_cache \<Rightarrow> bool" where
  "cache_ok cache \<longleftrightarrow> (\<forall>ports lb. ports \<noteq> [] \<and> Map_Get cache (ports_key ports) = Some lb \<longrightarrow>
     lb_ports lb = ports \<and> lb_length lb = int (length ports))"

lemma cache_ok_pick: "cache_ok cache \<Longrightarrow> cache_ok (fst (PickOneRoundRobin now ports cache))"
proof (cases "ports = []")
  case True
  then show "cache_ok cache \<Longrightarrow> ?thesis" by (simp add: PickOneRoundRobin_def GetBalancer_def)
next
  case False
  assume ok: "cache_ok cache"
  have "lb_ports lb = qs \<and> lb_length lb = int (length qs)"
    if "qs \<noteq> []" "Map_Get (fst (PickOneRoundRobin now ports cache)) (ports_key qs) = Some lb" for qs lb
  proof (cases "qs = ports")
    case True
    obtain lb0 cache1 where g: "GetBalancer now ports cache = (cache1, Some lb0)"
      "lb_ports lb0 = ports" "lb_length lb0 = int (length ports)"
      using False ok by (cases "Map_Get cache (ports_key ports)") (simp_all add: GetBalancer_def Let_def cache_ok_def)
    with that True show ?thesis
      by (auto simp: PickOneRoundRobin_def LoadBalancer_PickOne_def Map_Get_Put Let_def case_prod_unfold split: if_splits)
  next
    case other: False
    then have "Map_Get cache (ports_key qs) = Some lb" using that(2) pick_other [of qs ports now cache] by simp
    then show ?thesis using ok that(1) by (simp add: cache_ok_def)
  qed
  then show ?thesis by (simp add: cache_ok_def)
qed

text \<open>
  The targets of a host: the front end server, the local ports of the host, or an upstream of a
  custom service for the host.
\<close>

definition allowed_target :: "Config \<Rightarrow> runtime \<Rightarrow> string \<Rightarrow> string \<Rightarrow> int \<Rightarrow> bool" where
  "allowed_target cfg rt host h p \<longleftrightarrow>
     (h = pf_host (cfg_pxyFrontend cfg) \<and> p = pf_port (cfg_pxyFrontend cfg))
     \<or> (h = StaticHost \<and> (\<exists>ports. Map_Get (rt_ports rt) host = Some ports \<and> p \<in> set ports))
     \<or> (pcs_enable (cfg_pxyCustomService cfg) \<and>
        (\<exists>service \<in> set (pcs_customService (cfg_pxyCustomService cfg)).
           cs_domain service = host \<and> (\<exists>u \<in> set (cs_upstream service). up_host u = h \<and> up_port u = p)))"

definition random_ok :: "(int \<Rightarrow> int \<Rightarrow> int) \<Rightarrow> bool" where
  "random_ok random_int \<longleftrightarrow> (\<forall>lo hi. lo \<le> hi \<longrightarrow> lo \<le> random_int lo hi \<and> random_int lo hi \<le> hi)"

definition ports_ok :: "runtime \<Rightarrow> bool" where
  "ports_ok rt \<longleftrightarrow> (\<forall>host ports. Map_Get (rt_ports rt) host = Some ports \<longrightarrow> length ports < 2 ^ 64)"

lemma pick_allowed:
  assumes "cache_ok cache" and "ports_ok rt" and "Map_Get (rt_ports rt) host = Some ports"
    and "PickOneRoundRobin now ports cache = (cache', port)"
  shows "port = 0 \<or> port \<in> set ports"
proof (cases "ports = []")
  case True
  with assms(4) show ?thesis by (simp add: PickOneRoundRobin_def GetBalancer_def)
next
  case False
  with assms pick_member [OF False _ _ assms(4)] show ?thesis by (auto simp: cache_ok_def ports_ok_def)
qed

lemma custom_service_target:
  "random_ok rand \<Longrightarrow> ResolveCustomService_loop rand host services = Return res \<Longrightarrow>
     rr_error res \<noteq> None \<or> rr_host res = [] \<or>
     (\<exists>service \<in> set services. cs_domain service = host
        \<and> (\<exists>u \<in> set (cs_upstream service). up_host u = rr_host res \<and> up_port u = rr_port res) \<and> rr_scheme res = ''http'')"
proof (induction services)
  case (Cons service services)
  show ?case
  proof (cases "host = cs_domain service")
    case True
    let ?addrs = "map (\<lambda>u. (up_host u, up_port u)) (cs_upstream service)"
    show ?thesis
    proof (cases "cs_upstream service = []")
      case True
      with Cons.prems \<open>host = cs_domain service\<close> show ?thesis by (auto simp: PickOneAddrRoundRobin_def)
    next
      case False
      then obtain addr where addr: "addr \<in> set ?addrs" "PickOneAddrRoundRobin rand ?addrs = Return addr"
        using addr_member [of ?addrs rand] Cons.prems(1) by (auto simp: random_ok_def)
      then obtain u where u: "u \<in> set (cs_upstream service)" "addr = (up_host u, up_port u)" by auto
      with Cons.prems(2) \<open>host = cs_domain service\<close> addr(2) show ?thesis by (auto simp: StaticSchema_def)
    qed
  next
    case False
    with Cons show ?thesis by auto
  qed
qed (auto simp: error_result_def)

lemma match_target:
  assumes "MatchAPIRule rt now req rules cache = Return (cache', Some result)"
    and "rr_error result = None" and "rr_port result \<noteq> 0" and "cache_ok cache" and "ports_ok rt"
  shows "rr_host result = StaticHost \<and> rr_scheme result = ''http''
    \<and> (\<exists>ports. Map_Get (rt_ports rt) (r_host req) = Some ports \<and> rr_port result \<in> set ports)"
proof -
  obtain ports where ports: "Map_Get (rt_ports rt) (r_host req) = Some ports"
    "rr_port result = snd (PickOneRoundRobin now ports cache)" "rr_host result = StaticHost"
    "rr_scheme result = StaticSchema"
    using assms(1,2)
    by (auto simp: MatchAPIRule_def error_result_def case_prod_unfold Let_def
        split: option.splits list.splits if_splits)
  then show ?thesis
    using pick_allowed [OF assms(4,5) ports(1) prod.collapse [symmetric]] assms(3) by (auto simp: StaticSchema_def)
qed

lemma ruler_target:
  assumes parse: "Ruler_Parse rand rt now r req cache = Return (req', cache', result)"
    and res: "rr_error result = None" "rr_host result \<noteq> []" "rr_port result \<noteq> 0"
    and ok: "random_ok rand" "ports_ok rt" "cache_ok cache"
  shows "allowed_target (ru_cfg r) rt (r_host req) (rr_host result) (rr_port result) \<and> rr_scheme result = ''http''"
proof -
  have front: "allowed_target (ru_cfg r) rt (r_host req) (rr_host result) (rr_port result) \<and> rr_scheme result = ''http''"
    if "result = frontend_result (ru_cfg r) sm" for sm
    using that by (simp add: frontend_result_def allowed_target_def StaticSchema_def)
  consider (known) sm where "Map_Get (dr_domainsMap (rt_map rt)) (r_host req) = Some sm"
      "r_host req \<noteq> []" "r_host req \<noteq> ''localhost''" "r_host req \<noteq> StaticHost"
    | (custom) "IsCustomServiceEnabled r" "ResolveCustomService rand r (r_host req) = Return result"
    using parse res(1)
    by (auto simp: Ruler_Parse_def Let_def error_result_def bind_outcome_Return split: if_splits option.splits)
  then show ?thesis
  proof cases
    case known
    consider (f) "result = frontend_result (ru_cfg r) sm"
      | (b) ports where "Map_Get (rt_ports rt) (r_host req) = Some ports"
          "rr_port result = snd (PickOneRoundRobin now ports cache)" "rr_host result = StaticHost"
          "rr_scheme result = StaticSchema"
      | (m) rules where "MatchAPIRule rt now req rules cache = Return (cache', Some result)"
      using parse res(1) known
      by (auto simp: Ruler_Parse_def Let_def error_result_def bind_outcome_Return case_prod_unfold
          split: if_splits option.splits)
    then show ?thesis
    proof cases
      case f
      then show ?thesis by (rule front)
    next
      case b
      with pick_allowed [OF ok(3,2) b(1) prod.collapse [symmetric]] res(3) show ?thesis by (auto simp: allowed_target_def StaticSchema_def)
    next
      case m
      with match_target [OF m res(1,3) ok(3,2)] show ?thesis by (auto simp: allowed_target_def)
    qed
  next
    case custom
    with custom_service_target [OF ok(1), of "r_host req"] res(1,2) show ?thesis
      by (fastforce simp: ResolveCustomService_def IsCustomServiceEnabled_def allowed_target_def)
  qed
qed

lemma resolver_url:
  assumes "Resolver_Parse random_int rt now r req cache = Return (req', cache', Some url, events)"
    and "random_ok random_int" and "ports_ok rt" and "cache_ok cache"
  shows "\<exists>h p. u_scheme url = ''http'' \<and> u_host url = h @ '':'' @ itoa p \<and> h \<noteq> [] \<and> p \<noteq> 0
    \<and> allowed_target (ru_cfg r) rt (r_host req) h p
    \<and> (\<exists>url0. r_url req = Some url0 \<and> u_path url = u_path url0 \<and> u_query url = u_query url0)"
proof -
  obtain req1 result where p: "Ruler_Parse random_int rt now r req cache = Return (req1, cache', result)"
    using assms(1) by (auto simp: Resolver_Parse_def bind_outcome_Return Let_def case_prod_unfold split: if_splits option.splits)
  have ok: "rr_error result = None" "rr_host result \<noteq> []" "rr_port result \<noteq> 0"
    and url: "\<exists>url1. r_url req1 = Some url1 \<and> url = url1\<lparr>u_scheme := rr_scheme result,
        u_host := rr_host result @ '':'' @ itoa (rr_port result)\<rparr>"
    using assms(1) p by (auto simp: Resolver_Parse_def ResolveError_def Let_def split: if_splits option.splits)
  have "r_url req1 = r_url req"
    using p by (auto simp: Ruler_Parse_def Let_def bind_outcome_Return case_prod_unfold split: if_splits option.splits)
  with url ruler_target [OF p ok assms(2-4)] ok show ?thesis
    by (intro exI [of _ "rr_host result"] exI [of _ "rr_port result"]) auto
qed


text \<open>A request that cannot be resolved is marked, and a resolved one keeps its host.\<close>

lemma flag_names [simp]: "canonicalKey SandwichInternalFlag = ''X-Sandwich-Request-Flag''"
  by code_simp

lemma custom_scheme:
  "ResolveCustomService_loop random_int host services = Return res \<Longrightarrow> rr_error res \<noteq> None \<or> rr_scheme res = ''http''"
  by (induction services) (auto simp: bind_outcome_Return error_result_def StaticSchema_def split: if_splits)

lemma ruler_host: "Ruler_Parse random_int rt now r req cache = Return (req', cache', result) \<Longrightarrow> r_host req' = r_host req"
  by (auto simp: Ruler_Parse_def Let_def bind_outcome_Return case_prod_unfold split: if_splits option.splits)

lemma resolver_marks:
  assumes "Resolver_Parse random_int rt now r req cache = Return (req', cache', url, events)"
  shows "r_host req' = r_host req \<and> (url = None \<longrightarrow> req_get req' SandwichInternalFlag = SandwichBackendError \<and> events = [])"
proof -
  obtain req1 result where p: "Ruler_Parse random_int rt now r req cache = Return (req1, cache', result)"
    using assms by (auto simp: Resolver_Parse_def bind_outcome_Return Let_def case_prod_unfold split: if_splits option.splits)
  from ruler_host [OF p] p assms show ?thesis
    by (auto simp: Resolver_Parse_def ResolveError_def Let_def split: if_splits option.splits)
qed

lemma resolver_scheme:
  "Resolver_Parse random_int rt now r req cache = Return (req', cache', Some url, events) \<Longrightarrow> u_scheme url = ''http''"
  by (auto simp: Resolver_Parse_def ResolveError_def Ruler_Parse_def MatchAPIRule_def ResolveCustomService_def
      bind_outcome_Return Let_def case_prod_unfold frontend_result_def error_result_def StaticSchema_def
      dest: custom_scheme split: if_splits option.splits list.splits)

text \<open>A configuration without files, and run-time tables with one back end service.\<close>

definition sample_cfg :: Config where
  "sample_cfg = the (Merge (\<lambda>_. (zero_PxyFrontConfig, True)) (\<lambda>_. (zero_PxyBackendConfig, True)) (Some GetDefaultConfig))"

definition sample_rt :: runtime where
  "sample_rt = \<lparr>rt_Domains = [''a.com''],
     rt_map = \<lparr>dr_domains = [''a.com''], dr_domainsMap = [(''a.com'', \<lparr>sm_frontend = [], sm_backend = ''svc''\<rparr>)],
               dr_domainFrontMap = []\<rparr>,
     rt_ports = [(''a.com'', [8080])]\<rparr>"

definition sample_req :: Request where
  "sample_req = \<lparr>r_method = ''GET'', r_host = ''a.com'', r_remote = ''1.2.3.4:5'', r_proto = ''HTTP/1.1'',
     r_url = Some (empty_url\<lparr>u_path := ''/x''\<rparr>), r_header = [], r_body = [], r_length = 0\<rparr>"


section \<open>The rules that count\<close>

text \<open>
  Of the API rules of a host only the first usable one is ever looked at: when it does not match
  the path, the request goes to the front end although a later rule matches, and the result is the
  same as without the later rules; a request to \<open>localhost\<close> or \<open>127.0.0.1\<close> never resolves.
\<close>

theorem only_first_rule:
  assumes "rule_API rule \<noteq> []" and "rule_Backend rule \<noteq> []"
  shows "MatchAPIRule rt now req (rule # later) cache = MatchAPIRule rt now req [rule] cache
    \<and> (\<not> hasPrefix (u_path url) (rule_API rule) \<and> r_url req = Some url \<longrightarrow>
         MatchAPIRule rt now req (rule # later) cache = Return (cache, None))
    \<and> (r_host local \<in> {''localhost'', ''127.0.0.1''} \<and> r_url local = Some url \<longrightarrow>
         (\<exists>req'. Resolver_Parse random_int rt now r local cache = Return (req', cache, None, [])
            \<and> req_get req' SandwichInternalFlag = SandwichBackendError))"
  using assms
  by (auto simp: MatchAPIRule_def Resolver_Parse_def Ruler_Parse_def ResolveError_def error_result_def StaticHost_def Let_def
      split: option.splits)

theorem only_first_rule_witness:
  "let r1 = \<lparr>rule_API = ''/a'', rule_Rewrite = [], rule_UseRewrite = False, rule_Backend = ''svc''\<rparr>;
       r2 = \<lparr>rule_API = ''/x'', rule_Rewrite = [], rule_UseRewrite = False, rule_Backend = ''svc''\<rparr>
   in MatchAPIRule sample_rt 0 sample_req [r1, r2] [] = Return ([], None)"
proof -
  let ?r1 = "\<lparr>rule_API = ''/a'', rule_Rewrite = [], rule_UseRewrite = False, rule_Backend = ''svc''\<rparr>"
  have "\<not> hasPrefix (u_path (empty_url\<lparr>u_path := ''/x''\<rparr>)) (rule_API ?r1)"
    "r_url sample_req = Some (empty_url\<lparr>u_path := ''/x''\<rparr>)"
    by (simp_all add: sample_req_def hasPrefix_def)
  moreover have "rule_API ?r1 \<noteq> []" "rule_Backend ?r1 \<noteq> []" by simp_all
  ultimately show ?thesis unfolding Let_def using only_first_rule [where rule = ?r1] by blast
qed

end
