(* ===== verification/FlowRecord.thy ===== *)
theory FlowRecord
  imports FlowControl
begin

text \<open>
  The flow recorder of \<open>gateway/flow_control/flow_record.go\<close>: which requests are recorded, the
  buffer of records, and its flushing to a file. The JSON encoders, \<open>URL.String\<close> and the results
  of file operations are parameters. A flush takes the buffer's contents under the lock and stores
  them later without it, so that several flushes may be under way at once.
\<close>

section \<open>Records\<close>

record FlowRecord =
  rec_timestamp :: time
  rec_host :: string
  rec_clientIP :: string
  rec_userAgent :: string
  rec_url :: string
  rec_method :: string
  rec_status :: string
  rec_ruleName :: string
  rec_reason :: string
  rec_headers :: string
  rec_referer :: string
  rec_requestSize :: int

record FlowRecorder =
  fre_config :: FlowRecordConfig
  fre_buffer :: "FlowRecord list"

definition NewFlowRecorder :: "FlowRecordConfig \<Rightarrow> FlowRecorder" where
  "NewFlowRecorder cfg = \<lparr>fre_config = cfg, fre_buffer = []\<rparr>"

definition recorder_getClientIP :: "Request \<Rightarrow> string" where
  "recorder_getClientIP req =
     (let xff = req_get req ''X-Forwarded-For'' in
      if xff \<noteq> []
      then (case indexChar CHR '','' xff of
              Some idx \<Rightarrow> trimSpace (take idx xff)
            | None \<Rightarrow> trimSpace xff)
      else let xri = req_get req ''X-Real-IP'' in
        if xri \<noteq> [] then xri
        else (case lastIndexChar CHR '':'' (r_remote req) of
                Some idx \<Rightarrow> take idx (r_remote req)
              | None \<Rightarrow> r_remote req))"

text \<open>\<open>req.URL.String()\<close> of a request without URL is a nil dereference.\<close>

definition createRecord ::
    "((string \<times> string) list \<Rightarrow> string) \<Rightarrow> (URL \<Rightarrow> string) \<Rightarrow> time \<Rightarrow> Request \<Rightarrow> string \<Rightarrow> string \<Rightarrow> string \<Rightarrow> FlowRecord outcome" where
  "createRecord json_headers url_string now req status ruleName reason =
     (case r_url req of
        None \<Rightarrow> Panic
      | Some url \<Rightarrow> Return
         \<lparr>rec_timestamp = now, rec_host = r_host req, rec_clientIP = recorder_getClientIP req,
          rec_userAgent = req_get req ''User-Agent'', rec_url = url_string url, rec_method = r_method req,
          rec_status = status, rec_ruleName = ruleName, rec_reason = reason,
          rec_headers = json_headers (map (\<lambda>k. (k, req_get req k))
            [''User-Agent'', ''X-Forwarded-For'', ''X-Real-IP'', ''Accept'', ''Accept-Language'', ''Content-Type'']),
          rec_referer = req_get req ''Referer'', rec_requestSize = r_length req\<rparr>)"

text \<open>The flag says whether a flush is started because the buffer is full.\<close>

definition addRecord :: "FlowRecord \<Rightarrow> FlowRecorder \<Rightarrow> FlowRecorder \<times> bool" where
  "addRecord rcd fr =
     (let fr = fr\<lparr>fre_buffer := fre_buffer fr @ [rcd]\<rparr> in (fr, length (fre_buffer fr) \<ge> 100))"

definition RecordBlocked ::
    "((string \<times> string) list \<Rightarrow> string) \<Rightarrow> (URL \<Rightarrow> string) \<Rightarrow> time \<Rightarrow> Request \<Rightarrow> FlowCheckResult \<Rightarrow> FlowRecorder \<Rightarrow> FlowRecorder outcome" where
  "RecordBlocked json_headers url_string now req result fr =
     (if \<not> frc_enabled (fre_config fr) \<or> \<not> frc_recordBlocked (fre_config fr) then Return fr
      else bind_outcome (createRecord json_headers url_string now req ''blocked'' (res_ruleName result) (res_reason result))
        (\<lambda>rcd. Return (fst (addRecord rcd fr))))"

definition RecordAllowed ::
    "((string \<times> string) list \<Rightarrow> string) \<Rightarrow> (URL \<Rightarrow> string) \<Rightarrow> time \<Rightarrow> Request \<Rightarrow> FlowRecorder \<Rightarrow> FlowRecorder outcome" where
  "RecordAllowed json_headers url_string now req fr =
     (if \<not> frc_enabled (fre_config fr) \<or> \<not> frc_recordAllowed (fre_config fr) then Return fr
      else bind_outcome (createRecord json_headers url_string now req ''allowed'' [] [])
        (\<lambda>rcd. Return (fst (addRecord rcd fr))))"

section \<open>Flushing\<close>

text \<open>The part of \<open>doFlush\<close> under the lock: the records taken, if there are any.\<close>

definition doFlush_take :: "FlowRecorder \<Rightarrow> FlowRecorder \<times> FlowRecord list option" where
  "doFlush_take fr =
     (if fre_buffer fr = [] then (fr, None) else (fr\<lparr>fre_buffer := []\<rparr>, Some (fre_buffer fr)))"

text \<open>
  The records written to the file: none when it cannot be opened, else those that could be encoded
  and written.
\<close>

definition storeToFile :: "bool \<Rightarrow> (FlowRecord \<Rightarrow> bool) \<Rightarrow> FlowRecord list \<Rightarrow> FlowRecord list \<Rightarrow> FlowRecord list" where
  "storeToFile open_ok write_ok records file = (if open_ok then file @ filter write_ok records else file)"

text \<open>\<open>data.AddInfluxData\<close> has an empty body: nothing is stored.\<close>

definition AddInfluxData :: "FlowRecord \<Rightarrow> FlowRecord list \<Rightarrow> FlowRecord list" where
  "AddInfluxData rcd stored = stored"

definition storeToInflux :: "bool \<Rightarrow> bool \<Rightarrow> (FlowRecord \<Rightarrow> bool) \<Rightarrow> FlowRecord list \<Rightarrow> FlowRecord list \<Rightarrow> FlowRecord list" where
  "storeToInflux influx_enabled open_ok write_ok records file =
     (if \<not> influx_enabled then storeToFile open_ok write_ok records file
      else fold (\<lambda>rcd stored. if rec_status rcd = ''blocked'' then AddInfluxData rcd stored else stored) records file)"

definition storeToMongo :: "bool \<Rightarrow> (FlowRecord \<Rightarrow> bool) \<Rightarrow> FlowRecord list \<Rightarrow> FlowRecord list \<Rightarrow> FlowRecord list" where
  "storeToMongo open_ok write_ok records file = storeToFile open_ok write_ok records file"

definition doFlush_store ::
    "FlowRecordConfig \<Rightarrow> bool \<Rightarrow> bool \<Rightarrow> (FlowRecord \<Rightarrow> bool) \<Rightarrow> FlowRecord list \<Rightarrow> FlowRecord list \<Rightarrow> FlowRecord list" where
  "doFlush_store cfg influx_enabled open_ok write_ok records file =
     (if frc_storageType cfg = ''influx'' then storeToInflux influx_enabled open_ok write_ok records file
      else if frc_storageType cfg = ''mongo'' then storeToMongo open_ok write_ok records file
      else storeToFile open_ok write_ok records file)"

section \<open>One view of the client\<close>

text \<open>
  The recorder and the flow controller, each with its own code for it, always agree on the
  address of a request's client.
\<close>

theorem client_ip_agrees: "recorder_getClientIP req = getClientIP req"
  by (simp add: recorder_getClientIP_def getClientIP_def hd_splitChar Let_def split: option.splits)

section \<open>No record is lost or doubled\<close>

text \<open>
  The recorder with the batches taken and not yet stored, and the file. A step adds a record, takes
  a batch, or stores one of the batches under way.
\<close>

record recording =
  rg_recorder :: FlowRecorder
  rg_taken :: "FlowRecord list list"
  rg_file :: "FlowRecord list"

datatype rec_op = AddOp FlowRecord | TakeOp | StoreOp nat

fun rec_step :: "bool \<Rightarrow> rec_op \<Rightarrow> recording \<Rightarrow> recording" where
  "rec_step influx (AddOp rcd) s = s\<lparr>rg_recorder := fst (addRecord rcd (rg_recorder s))\<rparr>"
| "rec_step influx TakeOp s =
     (case doFlush_take (rg_recorder s) of
        (fr, None) \<Rightarrow> s
      | (fr, Some batch) \<Rightarrow> s\<lparr>rg_recorder := fr, rg_taken := rg_taken s @ [batch]\<rparr>)"
| "rec_step influx (StoreOp i) s =
     (if i < length (rg_taken s)
      then s\<lparr>rg_taken := take i (rg_taken s) @ drop (Suc i) (rg_taken s),
             rg_file := doFlush_store (fre_config (rg_recorder s)) influx True (\<lambda>_. True) (rg_taken s ! i) (rg_file s)\<rparr>
      else s)"

definition rec_run :: "bool \<Rightarrow> FlowRecordConfig \<Rightarrow> rec_op list \<Rightarrow> recording" where
  "rec_run influx cfg ops =
     fold (rec_step influx) ops \<lparr>rg_recorder = NewFlowRecorder cfg, rg_taken = [], rg_file = []\<rparr>"

fun recorded :: "rec_op list \<Rightarrow> FlowRecord list" where
  "recorded [] = []"
| "recorded (AddOp rcd # ops) = rcd # recorded ops"
| "recorded (op # ops) = recorded ops"

definition held :: "recording \<Rightarrow> FlowRecord multiset" where
  "held s = mset (rg_file s) + mset (concat (rg_taken s)) + mset (fre_buffer (rg_recorder s))"

lemma store_to_file:
  assumes "frc_storageType cfg \<noteq> ''influx'' \<or> \<not> influx"
  shows "doFlush_store cfg influx True (\<lambda>_. True) records file = file @ records"
  using assms by (auto simp: doFlush_store_def storeToInflux_def storeToMongo_def storeToFile_def)

lemma store_to_influx:
  "frc_storageType cfg = ''influx'' \<Longrightarrow> doFlush_store cfg True ok wr records file = file"
proof -
  have "fold (\<lambda>rcd stored. if rec_status rcd = ''blocked'' then AddInfluxData rcd stored else stored) records file = file"
    by (induction records) (simp_all add: AddInfluxData_def)
  then show "frc_storageType cfg = ''influx'' \<Longrightarrow> ?thesis" by (simp add: doFlush_store_def storeToInflux_def)
qed

lemma mset_concat_remove:
  "i < length xs \<Longrightarrow> mset (xs ! i) + mset (concat (take i xs @ drop (Suc i) xs)) = mset (concat xs)"
proof -
  assume i: "i < length xs"
  have "concat xs = concat (take i xs) @ xs ! i @ concat (drop (Suc i) xs)"
    using id_take_nth_drop [OF i] by (metis concat.simps(2) concat_append)
  then show ?thesis by simp
qed

lemma step_held:
  assumes "frc_storageType (fre_config (rg_recorder s)) \<noteq> ''influx'' \<or> \<not> influx"
  shows "held (rec_step influx op s) = held s + (case op of AddOp rcd \<Rightarrow> {#rcd#} | _ \<Rightarrow> {#})"
    and "fre_config (rg_recorder (rec_step influx op s)) = fre_config (rg_recorder s)"
proof -
  show "held (rec_step influx op s) = held s + (case op of AddOp rcd \<Rightarrow> {#rcd#} | _ \<Rightarrow> {#})"
  proof (cases op)
    case (StoreOp i)
    show ?thesis
    proof (cases "i < length (rg_taken s)")
      case True
      with mset_concat_remove [OF True] StoreOp show ?thesis
        by (simp add: held_def store_to_file [OF assms] ac_simps)
    qed (simp add: StoreOp)
  qed (auto simp: held_def addRecord_def doFlush_take_def Let_def split: option.splits)
  show "fre_config (rg_recorder (rec_step influx op s)) = fre_config (rg_recorder s)"
    by (cases op) (simp_all add: addRecord_def doFlush_take_def Let_def split: option.splits)
qed

lemma run_held:
  assumes "frc_storageType (fre_config (rg_recorder s)) \<noteq> ''influx'' \<or> \<not> influx"
  shows "held (fold (rec_step influx) ops s) = held s + mset (recorded ops)"
  using assms
proof (induction ops arbitrary: s)
  case (Cons op ops)
  note step = step_held [OF Cons.prems, of op]
  have "held (fold (rec_step influx) ops (rec_step influx op s)) = held (rec_step influx op s) + mset (recorded ops)"
    using Cons.prems by (intro Cons.IH) (simp only: step(2))
  with step(1) show ?case by (cases op) simp_all
qed simp

lemma run_influx:
  assumes "frc_storageType (fre_config (rg_recorder s)) = ''influx''"
  shows "rg_file (fold (rec_step True) ops s) = rg_file s"
  using assms
proof (induction ops arbitrary: s)
  case (Cons op ops)
  have "rg_file (rec_step True op s) = rg_file s"
    "fre_config (rg_recorder (rec_step True op s)) = fre_config (rg_recorder s)"
    using Cons.prems
    by (cases op; simp add: store_to_influx addRecord_def doFlush_take_def Let_def split: option.splits)+
  with Cons show ?case by simp
qed simp


definition sample_record :: FlowRecord where
  "sample_record = \<lparr>rec_timestamp = 0, rec_host = ''h'', rec_clientIP = [], rec_userAgent = [], rec_url = [],
     rec_method = ''GET'', rec_status = ''blocked'', rec_ruleName = [], rec_reason = [], rec_headers = [],
     rec_referer = [], rec_requestSize = 0\<rparr>"


end
