(* ===== verification/PreHandlers.thy ===== *)
theory PreHandlers
  imports FlowRecord GatewayRuntime
begin

text \<open>
  The request handlers of \<open>gateway/prehandler\<close> that the director runs before it resolves a request:
  the header sanitizer, the domain check, the rate limiter and the image protection, and their
  manager. A handler takes the request and the global flow recorder and returns both, itself with
  its state, and an error if it refuses the request.
\<close>

section \<open>Header sanitizer\<close>

record HeaderSanitizer =
  hs_enabled :: bool
  hs_deny :: "(string, unit) gomap"
  hs_keep :: "(string, unit) gomap"

definition denied_headers :: "string list" where
  "denied_headers = [''Authorization'', ''Proxy-Authorization'', ''Cookie'', ''X-Forwarded-For'', ''X-Real-IP'',
     ''X-Client-IP'', ''Forwarded'', ''X-Forwarded-Proto'', ''X-Forwarded-Host'', ''X-Forwarded-Port'',
     ''X-Amzn-Trace-Id'', ''X-Request-Id'', ''CF-Connecting-IP'']"

definition NewHeaderSanitizer :: "Config \<Rightarrow> HeaderSanitizer" where
  "NewHeaderSanitizer cf =
     (let ph = cfg_proxyHeader cf;
          k = fold (\<lambda>key. gm_put key ()) [ph_traceId ph, ph_frontendHostHeader ph, ph_backendHeader ph, ph_proxyApp ph] [];
          d = fold (\<lambda>key. gm_put key ()) denied_headers []
      in \<lparr>hs_enabled = san_enabled (mw_sanitizer (cfg_middleware cf)), hs_deny = d, hs_keep = k\<rparr>)"

text \<open>The loop over the denied names, in the order \<open>ord\<close> in which the map is iterated.\<close>

definition Sanitizer_Access :: "(string \<times> unit) list \<Rightarrow> HeaderSanitizer \<Rightarrow> Request \<Rightarrow> Request" where
  "Sanitizer_Access ord h r =
     (if \<not> hs_enabled h then r
      else fold (\<lambda>(name, _) r. if gm_get (hs_keep h) name \<noteq> None then r else req_del name r) ord r)"

section \<open>Domain check\<close>

record PreCheckDomains =
  pcd_enabled :: bool
  pcd_allowedDomains :: "string list"

definition NewPreCheckDomains :: "Config \<Rightarrow> runtime \<Rightarrow> PreCheckDomains" where
  "NewPreCheckDomains cf rt =
     \<lparr>pcd_enabled = dck_enabled (mw_domainCheck (cfg_middleware cf)), pcd_allowedDomains = rt_Domains rt\<rparr>"

definition PreCheckDomains_Handle :: "PreCheckDomains \<Rightarrow> Request \<Rightarrow> string option" where
  "PreCheckDomains_Handle cf r =
     (let domain = r_host r in
      if domain = [] then None
      else if domain = ''127.0.0.1'' \<or> domain = ''localhost'' then None
      else if domain \<in> set (pcd_allowedDomains cf) then None
      else Some (''domain '' @ domain @ '' not allowed''))"

section \<open>Rate limiter\<close>

definition RequestFlag :: string where "RequestFlag = ''X-Sandwich-Request-Flag''"
definition SandwichReqLimit :: string where "SandwichReqLimit = ''SandwichReqLimit''"

record 'r PreRateLimiter =
  prl_enabled :: bool
  prl_fc :: "'r FlowController option"

definition NewRateLimiter :: "Config \<Rightarrow> 'r PreRateLimiter" where
  "NewRateLimiter cf =
     \<lparr>prl_enabled = fcc_enabled (ft_flowControl (cfg_features cf)),
      prl_fc = Some (NewFlowController (ft_flowControl (cfg_features cf)))\<rparr>"

text \<open>The surroundings of a call: the parameters of the components below and the clock.\<close>

record 'r pre_ctx =
  pc_new_limiter :: "float64 \<Rightarrow> int \<Rightarrow> 'r"
  pc_limiter_allow :: "time \<Rightarrow> 'r \<Rightarrow> 'r \<times> bool"
  pc_clock :: check_clock
  pc_now :: time
  pc_json_headers :: "(string \<times> string) list \<Rightarrow> string"
  pc_url_string :: "URL \<Rightarrow> string"
  pc_hostname :: "string \<Rightarrow> string option"
  pc_deny_order :: "(string \<times> unit) list"

definition RateLimiter_Handle ::
    "'r pre_ctx \<Rightarrow> 'r PreRateLimiter \<Rightarrow> FlowRecorder option \<Rightarrow> Request \<Rightarrow>
     ('r PreRateLimiter \<times> FlowRecorder option \<times> Request \<times> string option) outcome" where
  "RateLimiter_Handle ctx r rcd req =
     (if \<not> prl_enabled r then Return (r, rcd, req, None)
      else (case prl_fc r of
              None \<Rightarrow> Return (r, rcd, req, None)
            | Some fc \<Rightarrow>
               (let (fc', result) = CheckRequest (pc_new_limiter ctx) (pc_limiter_allow ctx) (pc_clock ctx) req fc;
                    r = r\<lparr>prl_fc := Some fc'\<rparr>
                in if \<not> res_allowed result
                   then bind_outcome
                     (case rcd of None \<Rightarrow> Return None
                      | Some fr \<Rightarrow> bind_outcome (RecordBlocked (pc_json_headers ctx) (pc_url_string ctx) (pc_now ctx) req result fr) (Return \<circ> Some))
                     (\<lambda>rcd. Return (r, rcd, req_set RequestFlag SandwichReqLimit req, None))
                   else bind_outcome
                     (case rcd of None \<Rightarrow> Return None
                      | Some fr \<Rightarrow> bind_outcome (RecordAllowed (pc_json_headers ctx) (pc_url_string ctx) (pc_now ctx) req fr) (Return \<circ> Some))
                     (\<lambda>rcd. Return (r, rcd, req, None)))))"

section \<open>Image protection\<close>

record ImageProtect =
  ip_enabled :: bool
  ip_mime :: "string list"
  ip_allow :: "string list"

definition NewImageProtect :: "Config \<Rightarrow> ImageProtect" where
  "NewImageProtect cfg =
     (let c = mw_imageProtect (cfg_middleware cfg)
      in \<lparr>ip_enabled = imp_enabled c, ip_mime = imp_imageType c, ip_allow = imp_allowReferer c\<rparr>)"

fun isInSlice :: "string \<Rightarrow> string list \<Rightarrow> bool" where
  "isInSlice src [] = False"
| "isInSlice src (v # vs) = (if v = src then True else isInSlice src vs)"

text \<open>\<open>hostname\<close> is \<open>url.Parse\<close> followed by \<open>Hostname\<close>; \<open>None\<close> is a parse error.\<close>

definition ImageProtect_isValid :: "(string \<Rightarrow> string option) \<Rightarrow> ImageProtect \<Rightarrow> string \<Rightarrow> string \<Rightarrow> bool" where
  "ImageProtect_isValid hostname i contentType referer =
     (let baseType = toLower (hd (splitChar CHR '';'' contentType)) in
      if \<not> isInSlice baseType (ip_mime i) then False
      else (case hostname referer of
              None \<Rightarrow> False
            | Some baseReferer \<Rightarrow> if \<not> isInSlice baseReferer (ip_allow i) then False else True))"

definition ImageProtect_Handle :: "(string \<Rightarrow> string option) \<Rightarrow> ImageProtect \<Rightarrow> Request \<Rightarrow> string option" where
  "ImageProtect_Handle hostname i r =
     (if \<not> ip_enabled i then None
      else if \<not> ImageProtect_isValid hostname i (req_get r ''Content-Type'') (req_get r ''Referer'')
      then Some ''access denied'' else None)"

section \<open>The interface PreHandler and its manager\<close>

datatype 'r PreHandler =
  SanitizerHandler HeaderSanitizer | DomainHandler PreCheckDomains
| LimiterHandler "'r PreRateLimiter" | ImageHandler ImageProtect

type_synonym 'r pre_state = "'r PreHandler \<times> FlowRecorder option \<times> Request \<times> string option"

fun PreHandler_Handle :: "'r pre_ctx \<Rightarrow> 'r PreHandler \<Rightarrow> FlowRecorder option \<Rightarrow> Request \<Rightarrow> 'r pre_state outcome" where
  "PreHandler_Handle ctx (SanitizerHandler h) rcd r =
     Return (SanitizerHandler h, rcd, Sanitizer_Access (pc_deny_order ctx) h r, None)"
| "PreHandler_Handle ctx (DomainHandler h) rcd r = Return (DomainHandler h, rcd, r, PreCheckDomains_Handle h r)"
| "PreHandler_Handle ctx (LimiterHandler h) rcd r =
     bind_outcome (RateLimiter_Handle ctx h rcd r) (\<lambda>(h, rcd, r, err). Return (LimiterHandler h, rcd, r, err))"
| "PreHandler_Handle ctx (ImageHandler h) rcd r =
     Return (ImageHandler h, rcd, r, ImageProtect_Handle (pc_hostname ctx) h r)"

fun PreHandler_Name :: "'r PreHandler \<Rightarrow> string" where
  "PreHandler_Name (SanitizerHandler h) = ''HeaderSanitizer''"
| "PreHandler_Name (DomainHandler h) = ''PreCheckDomains''"
| "PreHandler_Name (LimiterHandler h) = ''RateLimiter''"
| "PreHandler_Name (ImageHandler h) = ''ImageProtect''"

fun PreHandler_Enabled :: "'r PreHandler \<Rightarrow> bool" where
  "PreHandler_Enabled (SanitizerHandler h) = hs_enabled h"
| "PreHandler_Enabled (DomainHandler h) = pcd_enabled h"
| "PreHandler_Enabled (LimiterHandler h) = prl_enabled h"
| "PreHandler_Enabled (ImageHandler h) = ip_enabled h"

text \<open>The manager's list of handlers, in the order of registration.\<close>

definition PreManager_Add :: "'r PreHandler \<Rightarrow> 'r PreHandler list \<Rightarrow> 'r PreHandler list" where
  "PreManager_Add ph handlers = handlers @ [ph]"

definition InitPreHandlerManager :: "Config \<Rightarrow> runtime \<Rightarrow> 'r PreHandler list" where
  "InitPreHandlerManager cf rt =
     PreManager_Add (ImageHandler (NewImageProtect cf))
      (PreManager_Add (LimiterHandler (NewRateLimiter cf))
       (PreManager_Add (DomainHandler (NewPreCheckDomains cf rt))
        (PreManager_Add (SanitizerHandler (NewHeaderSanitizer cf)) [])))"

text \<open>The director's loop over the handlers: the first error ends it.\<close>

fun run_handlers ::
    "('ctx \<Rightarrow> 'h \<Rightarrow> 'rcd \<Rightarrow> Request \<Rightarrow> ('h \<times> 'rcd \<times> Request \<times> string option) outcome) \<Rightarrow>
     'ctx \<Rightarrow> 'h list \<Rightarrow> 'rcd \<Rightarrow> Request \<Rightarrow> ('h list \<times> 'rcd \<times> Request \<times> string option) outcome" where
  "run_handlers handle ctx [] rcd r = Return ([], rcd, r, None)"
| "run_handlers handle ctx (h # hs) rcd r =
     bind_outcome (handle ctx h rcd r) (\<lambda>(h, rcd, r, err).
       case err of
         Some e \<Rightarrow> Return (h # hs, rcd, r, Some e)
       | None \<Rightarrow> bind_outcome (run_handlers handle ctx hs rcd r) (\<lambda>(hs, rcd, r, err). Return (h # hs, rcd, r, err)))"

text \<open>What the director relies on: a handler changes nothing but the header of a request.\<close>

definition same_but_header :: "Request \<Rightarrow> Request \<Rightarrow> bool" where
  "same_but_header r r' \<longleftrightarrow> r' = r\<lparr>r_header := r_header r'\<rparr>"

lemma same_refl [simp]: "same_but_header r r"
  by (simp add: same_but_header_def)

lemma same_trans: "same_but_header r r' \<Longrightarrow> same_but_header r' r'' \<Longrightarrow> same_but_header r r''"
  by (simp add: same_but_header_def) (metis Request.surjective Request.update_convs(6))

lemma same_set [simp]: "same_but_header r (req_set k v r)"
  by (simp add: same_but_header_def req_set_def)

lemma same_del [simp]: "same_but_header r (req_del k r)"
  by (simp add: same_but_header_def req_del_def)

locale pre_handler =
  fixes handle :: "'ctx \<Rightarrow> 'h \<Rightarrow> 'rcd \<Rightarrow> Request \<Rightarrow> ('h \<times> 'rcd \<times> Request \<times> string option) outcome"
    and name_of :: "'h \<Rightarrow> string"
  assumes handle_header: "handle ctx h rcd r = Return (h', rcd', r', err) \<Longrightarrow> same_but_header r r'"
    and handle_name: "handle ctx h rcd r = Return (h', rcd', r', err) \<Longrightarrow> name_of h' = name_of h"
begin

lemma run_header: "run_handlers handle ctx hs rcd r = Return (hs', rcd', r', err) \<Longrightarrow> same_but_header r r'"
proof (induction hs arbitrary: rcd r hs')
  case (Cons h hs)
  obtain h1 rcd1 r1 e1 where h: "handle ctx h rcd r = Return (h1, rcd1, r1, e1)"
    using Cons.prems by (auto simp: bind_outcome_Return)
  note s1 = handle_header [OF h]
  show ?case
  proof (cases e1)
    case None
    then obtain hs2 where "run_handlers handle ctx hs rcd1 r1 = Return (hs2, rcd', r', err)"
      using Cons.prems h by (auto simp: bind_outcome_Return)
    with Cons.IH s1 same_trans show ?thesis by blast
  next
    case (Some e)
    with Cons.prems h s1 show ?thesis by simp
  qed
qed simp

lemma run_names: "run_handlers handle ctx hs rcd r = Return (hs', rcd', r', err) \<Longrightarrow> map name_of hs' = map name_of hs"
proof (induction hs arbitrary: rcd r hs')
  case (Cons h hs)
  obtain h1 rcd1 r1 e1 where h: "handle ctx h rcd r = Return (h1, rcd1, r1, e1)"
    using Cons.prems by (auto simp: bind_outcome_Return)
  with Cons handle_name [OF h] show ?case
    by (cases e1) (auto simp: bind_outcome_Return)
qed simp

lemma run_first_error:
  "handle ctx h rcd r = Return (h', rcd', r', Some e) \<Longrightarrow>
     run_handlers handle ctx (h # hs) rcd r = Return (h' # hs, rcd', r', Some e)"
  by simp

end

lemma access_same: "same_but_header r (Sanitizer_Access ord h r)"
proof -
  have "same_but_header r (fold (\<lambda>(name, _) r. if gm_get (hs_keep h) name \<noteq> None then r else req_del name r) ord r)" for r
  proof (induction ord arbitrary: r)
    case (Cons kv ord)
    obtain k u where kv: "kv = (k, u :: unit)" by (meson surj_pair)
    have "same_but_header r (if gm_get (hs_keep h) k \<noteq> None then r else req_del k r)" by simp
    then show ?case
      using same_trans [OF _ Cons.IH [of "if gm_get (hs_keep h) k \<noteq> None then r else req_del k r"]] by (simp add: kv)
  qed simp
  then show ?thesis by (simp add: Sanitizer_Access_def)
qed

interpretation handlers: pre_handler PreHandler_Handle PreHandler_Name
proof
  fix ctx :: "'a pre_ctx" and h rcd r h' rcd' r' err
  assume a: "PreHandler_Handle ctx h rcd r = Return (h', rcd', r', err)"
  show "same_but_header r r'"
    using a access_same by (cases h) (auto simp: RateLimiter_Handle_def bind_outcome_Return Let_def case_prod_unfold
        split: if_splits option.splits)
  show "PreHandler_Name h' = PreHandler_Name h"
    using a by (cases h) (auto simp: bind_outcome_Return)
qed

section \<open>What the sanitizer removes\<close>

lemma fold_del_get:
  "req_get (fold (\<lambda>(name, _) r. if P name then r else req_del name r) ord r) k =
     (if \<exists>name \<in> fst ` set ord. \<not> P name \<and> canonicalKey name = canonicalKey k then [] else req_get r k)"
proof (induction ord arbitrary: r)
  case (Cons kv ord)
  obtain name u where "kv = (name, u)" by (meson surj_pair)
  with Cons show ?case by auto
qed simp

lemma deny_keys: "fst ` set (hs_deny (NewHeaderSanitizer cf)) = set denied_headers"
proof -
  have put: "fst ` set (gm_put k v m) = insert k (fst ` set m)" for k v and m :: "(string, unit) gomap"
    unfolding dom_map_of_conv_image_fst [symmetric] by (simp add: update_conv')
  have "fst ` set (fold (\<lambda>key. gm_put key ()) names m) = fst ` set m \<union> set names" for m :: "(string, unit) gomap" and names
  proof (induction names arbitrary: m)
    case (Cons a names)
    show ?case by (simp add: Cons put [of a "()" m])
  qed simp
  from this [of denied_headers "[]"] show ?thesis by (simp add: NewHeaderSanitizer_def Let_def)
qed

definition kept :: "Config \<Rightarrow> string set" where
  "kept cf = (let ph = cfg_proxyHeader cf
     in {ph_traceId ph, ph_frontendHostHeader ph, ph_backendHeader ph, ph_proxyApp ph})"

lemma keep_keys: "gm_get (hs_keep (NewHeaderSanitizer cf)) name \<noteq> None \<longleftrightarrow> name \<in> kept cf"
  by (auto simp: NewHeaderSanitizer_def Let_def kept_def update_conv')

lemma sanitizer_get:
  assumes "hs_enabled h" and "h = NewHeaderSanitizer cf" and "iteration_of ord (hs_deny h)"
  shows "req_get (Sanitizer_Access ord h r) k =
    (if \<exists>name \<in> set denied_headers - kept cf. canonicalKey name = canonicalKey k then [] else req_get r k)"
proof -
  have "fst ` set ord = set denied_headers"
    using deny_keys [of cf] iteration_set [OF assms(3)] assms(2) by simp
  then show ?thesis
    using assms(1) keep_keys [of cf] unfolding assms(2)
    by (auto simp: Sanitizer_Access_def fold_del_get)
qed

text \<open>
  C34. An enabled sanitizer removes exactly the sensitive headers that the configuration does not keep
  by name, in whatever case the client wrote them and in whatever order the map is iterated, and
  leaves every other header alone; when the forwarding headers are not kept, the client address
  that flow control and its records use afterwards is the one of the connection, whatever the
  client claimed.
\<close>

theorem sanitizer_effect:
  assumes "hs_enabled h" and "h = NewHeaderSanitizer cf" and "iteration_of ord (hs_deny h)"
  shows "(\<forall>k. req_get (Sanitizer_Access ord h r) k =
       (if \<exists>name \<in> set denied_headers - kept cf. canonicalKey name = canonicalKey k then [] else req_get r k))
    \<and> (''X-Forwarded-For'' \<notin> kept cf \<and> ''X-Real-IP'' \<notin> kept cf \<longrightarrow>
       getClientIP (Sanitizer_Access ord h r) =
         (case lastIndexChar CHR '':'' (r_remote r) of None \<Rightarrow> r_remote r | Some i \<Rightarrow> take i (r_remote r)))"
proof (intro conjI allI impI)
  show get: "req_get (Sanitizer_Access ord h r) k =
      (if \<exists>name \<in> set denied_headers - kept cf. canonicalKey name = canonicalKey k then [] else req_get r k)" for k
    by (rule sanitizer_get [OF assms])
  assume keep: "''X-Forwarded-For'' \<notin> kept cf \<and> ''X-Real-IP'' \<notin> kept cf"
  have "''X-Forwarded-For'' \<in> set denied_headers" "''X-Real-IP'' \<in> set denied_headers"
    by (simp_all add: denied_headers_def)
  then have "req_get (Sanitizer_Access ord h r) ''X-Forwarded-For'' = []"
    "req_get (Sanitizer_Access ord h r) ''X-Real-IP'' = []"
    using keep get by (metis DiffI)+
  moreover have "r_remote (Sanitizer_Access ord h r) = r_remote r"
    using access_same [of r ord h] by (metis Request.select_convs(3) Request.surjective Request.update_convs(6) same_but_header_def)
  ultimately show "getClientIP (Sanitizer_Access ord h r) =
      (case lastIndexChar CHR '':'' (r_remote r) of None \<Rightarrow> r_remote r | Some i \<Rightarrow> take i (r_remote r))"
    by (simp add: getClientIP_def split: option.splits)
qed

definition plain_config :: Config where
  "plain_config = the (Merge (\<lambda>_. (zero_PxyFrontConfig, True)) (\<lambda>_. (zero_PxyBackendConfig, True)) (Some GetDefaultConfig))"

definition spoofed_request :: Request where
  "spoofed_request = \<lparr>r_method = ''GET'', r_host = ''a.com'', r_remote = ''1.2.3.4:5'', r_proto = ''HTTP/1.1'',
     r_url = Some empty_url, r_header = [(''X-Forwarded-For'', [''9.9.9.9''])], r_body = [], r_length = 0\<rparr>"

theorem sanitizer_effect_witness:
  "let cf = plain_config\<lparr>cfg_middleware := zero_MiddlewareConfig\<lparr>mw_sanitizer := \<lparr>san_enabled = True\<rparr>\<rparr>\<rparr>;
       h = NewHeaderSanitizer cf
   in getClientIP (Sanitizer_Access (hs_deny h) h spoofed_request) = ''1.2.3.4''"
proof -
  define cf where "cf = plain_config\<lparr>cfg_middleware := zero_MiddlewareConfig\<lparr>mw_sanitizer := \<lparr>san_enabled = True\<rparr>\<rparr>\<rparr>"
  have "hs_enabled (NewHeaderSanitizer cf)" by (simp add: NewHeaderSanitizer_def cf_def Let_def)
  moreover have "''X-Forwarded-For'' \<notin> kept cf" "''X-Real-IP'' \<notin> kept cf"
    by (simp_all add: kept_def cf_def plain_config_def Merge_def GetDefaultConfig_def Let_def)
  ultimately show ?thesis
    using sanitizer_effect [of "NewHeaderSanitizer cf" cf "hs_deny (NewHeaderSanitizer cf)" spoofed_request]
    unfolding Let_def cf_def [symmetric] by (simp add: spoofed_request_def)
qed

section \<open>What the other handlers refuse\<close>

text \<open>
  The domain check refuses exactly the hosts that are neither empty nor local nor among the
  domains known when it was created; the setting that should turn it on or off has no influence.
\<close>

theorem domain_check:
  "(PreCheckDomains_Handle (NewPreCheckDomains cf rt) r = None \<longleftrightarrow>
      r_host r \<in> {[], ''127.0.0.1'', ''localhost''} \<union> set (rt_Domains rt))
   \<and> PreCheckDomains_Handle (d\<lparr>pcd_enabled := False\<rparr>) r = PreCheckDomains_Handle (d\<lparr>pcd_enabled := True\<rparr>) r"
  by (auto simp: PreCheckDomains_Handle_def NewPreCheckDomains_def Let_def)

text \<open>
  C36. The rate limiting handler never refuses a request: when the flow controller denies it, the
  handler only marks its header (unless recording it panics), and the director goes on.
\<close>

theorem rate_limiter_never_refuses:
  assumes "RateLimiter_Handle ctx h rcd r = Return (h', rcd', r', err)"
  shows "err = None
    \<and> (prl_enabled h \<and> prl_fc h = Some fc
         \<and> \<not> res_allowed (snd (CheckRequest (pc_new_limiter ctx) (pc_limiter_allow ctx) (pc_clock ctx) r fc))
       \<longrightarrow> r' = req_set RequestFlag SandwichReqLimit r)"
  using assms by (auto simp: RateLimiter_Handle_def Let_def case_prod_unfold bind_outcome_Return split: if_splits option.splits)

definition blocking_config :: FlowControlConfig where
  "blocking_config = \<lparr>fcc_enabled = True,
     fcc_globalLimit = \<lparr>lim_requests = 0, lim_window = ''10'', lim_unit = ''s'', lim_mode = ''fixed''\<rparr>,
     fcc_rules = [], fcc_recording = zero_FlowRecordConfig\<rparr>"

definition sample_ctx :: "unit pre_ctx" where
  "sample_ctx = \<lparr>pc_new_limiter = \<lambda>_ _. (), pc_limiter_allow = \<lambda>_ r. (r, True), pc_clock = \<lambda>_. (\<lambda>_ _. 0, \<lambda>_ _. 0),
     pc_now = 0, pc_json_headers = \<lambda>_. [], pc_url_string = \<lambda>_. [], pc_hostname = Some, pc_deny_order = []\<rparr>"

theorem rate_limiter_never_refuses_witness:
  "\<exists>h'. RateLimiter_Handle sample_ctx \<lparr>prl_enabled = True, prl_fc = Some (NewFlowController blocking_config)\<rparr> None spoofed_request
     = Return (h', None, req_set RequestFlag SandwichReqLimit spoofed_request, None)"
proof -
  let ?h = "\<lparr>prl_enabled = True, prl_fc = Some (NewFlowController blocking_config)\<rparr> :: unit PreRateLimiter"
  have pd: "parseDuration ''10'' ''s'' = Some (10 * Second)"
    by (simp add: parseDuration_def atoi_def digitVal_def Let_def in_int64_bounds Second_def)
  have denied: "\<not> res_allowed (snd (CheckRequest (pc_new_limiter sample_ctx) (pc_limiter_allow sample_ctx)
      (pc_clock sample_ctx) spoofed_request (NewFlowController blocking_config)))"
    by (simp add: CheckRequest_def NewFlowController_def blocking_config_def getSortedRules_def createRateLimiter_def
        List.map_filter_def parseLimit_def pd sample_ctx_def RateLimiter_Allow_def newStrategy_def Let_def
        NewFixedWindowLimiter_def FixedWindow_Allow_def global_exceeded_def time_after_def time_add_def Second_def)
  obtain h' where run: "RateLimiter_Handle sample_ctx ?h None spoofed_request
      = Return (h', None, req_set RequestFlag SandwichReqLimit spoofed_request, None)"
    using denied by (simp add: RateLimiter_Handle_def Let_def case_prod_unfold)
  from rate_limiter_never_refuses [OF run, of "NewFlowController blocking_config"] denied run show ?thesis by auto
qed

text \<open>
  Enabled image protection lets exactly the requests through whose Content-Type is a configured
  image type and whose Referer host is allowed: every request without a Content-Type, image or
  not, is refused unless the empty type is configured.
\<close>

theorem image_protection:
  assumes "ip_enabled i"
  shows "(ImageProtect_Handle hostname i r = None \<longleftrightarrow>
       toLower (hd (splitChar CHR '';'' (req_get r ''Content-Type''))) \<in> set (ip_mime i)
       \<and> (\<exists>h. hostname (req_get r ''Referer'') = Some h \<and> h \<in> set (ip_allow i)))
    \<and> (req_get r ''Content-Type'' = [] \<and> [] \<notin> set (ip_mime i) \<longrightarrow>
       ImageProtect_Handle hostname i r = Some ''access denied'')"
proof -
  have slice: "isInSlice v vs \<longleftrightarrow> v \<in> set vs" for v vs by (induction vs) auto
  show ?thesis
    using assms by (auto simp: ImageProtect_Handle_def ImageProtect_isValid_def slice toLower_def Let_def split: option.splits)
qed

theorem image_protection_witness:
  "ImageProtect_Handle Some \<lparr>ip_enabled = True, ip_mime = [''image/png''], ip_allow = [''a.com'']\<rparr> spoofed_request
     = Some ''access denied''"
proof -
  have "req_get spoofed_request ''Content-Type'' = []"
    by (simp add: spoofed_request_def req_get_def hdr_get_def canonicalKey_def isTokenByte_def tokenCode_def
        toUpperChar_def toLowerChar_def)
  then show ?thesis
    using image_protection [of "\<lparr>ip_enabled = True, ip_mime = [''image/png''], ip_allow = [''a.com'']\<rparr>" Some spoofed_request]
    by simp
qed

end
