(* ===== verification/Gzip.thy ===== *)
theory Gzip
  imports GoHttp Config
begin

text \<open>
  The gzip response modifier (\<open>gateway/modifier/gzip.go\<close>) with its two object pools. The compressor
  is a parameter; a pool is the list of its idle objects, and which of them \<open>Get\<close> returns, or none
  (a new object), is an argument. An idle writer is its compression level, an idle buffer its
  contents. A body is the list of its bytes that have not been read.
\<close>

section \<open>Header names\<close>

lemma canonical_names [simp]:
  "canonicalKey ''Content-Encoding'' = ''Content-Encoding''"
  "canonicalKey ''Content-Length'' = ''Content-Length''"
  "canonicalKey ''Content-Range'' = ''Content-Range''"
  "canonicalKey ''Content-Type'' = ''Content-Type''"
  "canonicalKey ''Accept-Encoding'' = ''Accept-Encoding''"
  "canonicalKey ''Vary'' = ''Vary''"
  by code_simp+

section \<open>The modifier\<close>

record GzipModifier =
  gm_enabled :: bool
  gm_level :: int
  gm_types :: "string list"
  gm_threshold :: int
  gm_writers :: "int list"
  gm_buffers :: "string list"

text \<open>
  \<open>ge_gz\<close> is a gzip writer of a level on some data (\<open>None\<close> is a write error), \<open>ge_fails\<close> says after
  how many bytes reading a body fails, if it does, and the choices are those of the pools.
\<close>

record gzip_env =
  ge_gz :: "int \<Rightarrow> string \<Rightarrow> string option"
  ge_fails :: "string \<Rightarrow> nat option"
  ge_buffer :: "nat option"
  ge_writer :: "nat option"

definition NewGzipModifier :: "Config \<Rightarrow> GzipModifier" where
  "NewGzipModifier cfg =
     (let gz = mw_gzip (cfg_middleware cfg)
      in \<lparr>gm_enabled = gz_enabled gz, gm_level = gz_level gz, gm_types = gz_types gz,
          gm_threshold = gz_threshold gz, gm_writers = [], gm_buffers = []\<rparr>)"

definition clientSupportsGzip :: "Request \<Rightarrow> bool" where
  "clientSupportsGzip request = strContains (toLower (req_get request ''Accept-Encoding'')) ''gzip''"

definition shouldCompress :: "GzipModifier \<Rightarrow> Response \<Rightarrow> bool" where
  "shouldCompress g response =
     (let contentType = resp_get response ''Content-Type'' in
      if contentType = [] then False
      else (let mainType = trimSpace (toLower (hd (splitChar CHR '';'' contentType)))
            in list_ex (\<lambda>allowedType. equalFold mainType (trimSpace allowedType)) (gm_types g)))"

text \<open>
  \<open>gzip.NewWriterLevel\<close> accepts the levels from \<open>HuffmanOnly\<close> (-2) to \<open>BestCompression\<close> (9); for any
  other the pool's \<open>New\<close> returns a nil writer, whose \<open>Reset\<close> panics.
\<close>

definition valid_level :: "int \<Rightarrow> bool" where
  "valid_level level \<longleftrightarrow> - 2 \<le> level \<and> level \<le> 9"

definition compressData :: "gzip_env \<Rightarrow> GzipModifier \<Rightarrow> string \<Rightarrow> (GzipModifier \<times> string option) outcome" where
  "compressData env g data =
     (let (b, bufs) = pool_take (ge_buffer env) (gm_buffers g);
          buf = (case b of None \<Rightarrow> [] | Some x \<Rightarrow> x);
          (w, writers) = pool_take (ge_writer env) (gm_writers g);
          level = (case w of None \<Rightarrow> gm_level g | Some l \<Rightarrow> l)
      in if \<not> valid_level level then Panic
         else (let g = g\<lparr>gm_buffers := [] # bufs, gm_writers := level # writers\<rparr>
               in Return (g, map_option (\<lambda>out. buf @ out) (ge_gz env level data))))"

definition GzipModifier_ModifyResponse ::
    "gzip_env \<Rightarrow> GzipModifier \<Rightarrow> Response \<Rightarrow> (GzipModifier \<times> Response \<times> string option) outcome" where
  "GzipModifier_ModifyResponse env g response =
     (if \<not> gm_enabled g then Return (g, response, None)
      else if \<not> clientSupportsGzip (resp_request response) then Return (g, response, None)
      else if \<not> shouldCompress g response then Return (g, response, None)
      else if resp_get response ''Content-Encoding'' \<noteq> [] then Return (g, response, None)
      else if (let ct = resp_get response ''Content-Length''
               in ct \<noteq> [] \<and> (case atoi ct of Some n \<Rightarrow> n \<le> gm_threshold g | None \<Rightarrow> False))
      then Return (g, response, None)
      else (let originalBody = resp_body response in
        case ge_fails env originalBody of
          Some n \<Rightarrow> Return (g, response\<lparr>resp_body := drop n originalBody\<rparr>, Some ''read error'')
        | None \<Rightarrow>
            if int (length originalBody) \<le> gm_threshold g then Return (g, response, None)
            else bind_outcome (compressData env g originalBody) (\<lambda>(g, result).
              case result of
                None \<Rightarrow> Return (g, response, None)
              | Some compressedBody \<Rightarrow>
                  if length originalBody \<le> length compressedBody then Return (g, response, None)
                  else (let response = resp_set ''Content-Encoding'' ''gzip'' response;
                            response = resp_set ''Content-Length'' (itoa (int (length compressedBody))) response;
                            response = resp_del ''Content-Range'' response
                        in Return (g, response\<lparr>resp_body := compressedBody\<rparr>, None)))))"

definition GzipModifier_UpdateConfig :: "Config \<Rightarrow> GzipModifier \<Rightarrow> GzipModifier" where
  "GzipModifier_UpdateConfig cfg g =
     (let gz = mw_gzip (cfg_middleware cfg);
          oldLevel = gm_level g;
          g = g\<lparr>gm_enabled := gz_enabled gz, gm_level := gz_level gz, gm_types := gz_types gz\<rparr>
      in if oldLevel \<noteq> gm_level g then g\<lparr>gm_writers := []\<rparr> else g)"

section \<open>What the pools hold\<close>

definition pools_clean :: "GzipModifier \<Rightarrow> bool" where
  "pools_clean g \<longleftrightarrow> set (gm_buffers g) \<subseteq> {[]} \<and> set (gm_writers g) \<subseteq> {gm_level g}"

lemma pools_clean_new: "pools_clean (NewGzipModifier cfg)"
  by (simp add: pools_clean_def NewGzipModifier_def Let_def)

lemma pools_clean_update: "pools_clean g \<Longrightarrow> pools_clean (GzipModifier_UpdateConfig cfg g)"
  by (auto simp: pools_clean_def GzipModifier_UpdateConfig_def Let_def)

text \<open>With clean pools the compressor sees an empty buffer and a writer of the configured level.\<close>

lemma compressData_clean:
  assumes "pools_clean g"
  shows "compressData env g data =
    (if \<not> valid_level (gm_level g) then Panic
     else Return (g\<lparr>gm_buffers := [] # snd (pool_take (ge_buffer env) (gm_buffers g)),
                    gm_writers := gm_level g # snd (pool_take (ge_writer env) (gm_writers g))\<rparr>,
                  ge_gz env (gm_level g) data))"
proof -
  obtain b bufs where b: "pool_take (ge_buffer env) (gm_buffers g) = (b, bufs)" by fastforce
  obtain w ws where w: "pool_take (ge_writer env) (gm_writers g) = (w, ws)" by fastforce
  have "(case b of None \<Rightarrow> [] | Some x \<Rightarrow> x) = []"
    using assms pool_take_Some b by (fastforce simp: pools_clean_def split: option.splits)
  moreover have "(case w of None \<Rightarrow> gm_level g | Some l \<Rightarrow> l) = gm_level g"
    using assms pool_take_Some w by (fastforce simp: pools_clean_def split: option.splits)
  ultimately show ?thesis by (cases "ge_gz env (gm_level g) data") (simp_all add: compressData_def b w Let_def)
qed

lemma pools_clean_compress:
  assumes "pools_clean g" and run: "compressData env g data = Return (g', c)"
  shows "pools_clean g' \<and> gm_level g' = gm_level g \<and> c = ge_gz env (gm_level g) data"
proof -
  have "set (snd (pool_take (ge_buffer env) (gm_buffers g))) \<subseteq> {[]}"
    "set (snd (pool_take (ge_writer env) (gm_writers g))) \<subseteq> {gm_level g}"
    using assms(1) pool_take_set unfolding pools_clean_def by (meson subset_trans)+
  with run assms(1) show ?thesis
    by (auto simp: compressData_clean pools_clean_def split: if_splits)
qed

text \<open>The body as the client reads it, with a decompressor of its own.\<close>

definition decoded :: "(string \<Rightarrow> string option) \<Rightarrow> Response \<Rightarrow> string option" where
  "decoded gunzip r =
     (if resp_get r ''Content-Encoding'' = ''gzip'' then gunzip (resp_body r) else Some (resp_body r))"

lemma gzip_cases:
  assumes run: "GzipModifier_ModifyResponse env g r = Return (g', r', err)" and clean: "pools_clean g"
    and "ge_fails env (resp_body r) = None"
  shows "err = None \<and> pools_clean g' \<and>
    (r' = r \<or> (resp_get r ''Content-Encoding'' = [] \<and> gm_enabled g \<and> clientSupportsGzip (resp_request r)
       \<and> (\<exists>c. ge_gz env (gm_level g) (resp_body r) = Some c \<and> length c < length (resp_body r)
          \<and> r' = (resp_del ''Content-Range'' (resp_set ''Content-Length'' (itoa (int (length c)))
                    (resp_set ''Content-Encoding'' ''gzip'' r)))\<lparr>resp_body := c\<rparr>)))"
proof (cases "\<exists>g2 c. compressData env g (resp_body r) = Return (g2, c)")
  case True
  then obtain g2 c where c: "compressData env g (resp_body r) = Return (g2, c)" by blast
  from pools_clean_compress [OF clean c] run clean assms(3) c show ?thesis
    by (auto simp: GzipModifier_ModifyResponse_def Let_def not_le split: if_splits option.splits)
next
  case False
  with run clean assms(3) show ?thesis
    by (cases "compressData env g (resp_body r)")
      (auto simp: GzipModifier_ModifyResponse_def Let_def split: if_splits)
qed

text \<open>
  C9. Compression is transparent: whatever the pools hold between calls and whichever of their
  objects are used again, a client that decompresses what is marked as gzip reads the bytes the
  backend sent; nothing is changed for a client that does not accept gzip; a body that is replaced
  gets shorter, was compressed at the configured level, and its \<open>Content-Length\<close> is the new length.
  The pools are clean again afterwards.
\<close>

theorem gzip_transparent:
  assumes gunzip: "\<And>level data out. ge_gz env level data = Some out \<Longrightarrow> gunzip out = Some data"
    and "pools_clean g" and "valid_level (gm_level g)" and "ge_fails env (resp_body r) = None"
  shows "\<exists>g' r'. GzipModifier_ModifyResponse env g r = Return (g', r', None) \<and> pools_clean g'
    \<and> decoded gunzip r' = decoded gunzip r
    \<and> resp_status r' = resp_status r \<and> resp_request r' = resp_request r
    \<and> (r' \<noteq> r \<longrightarrow> clientSupportsGzip (resp_request r) \<and> length (resp_body r') < length (resp_body r)
         \<and> ge_gz env (gm_level g) (resp_body r) = Some (resp_body r')
         \<and> resp_get r' ''Content-Length'' = itoa (int (length (resp_body r'))))"
proof -
  obtain g2 c where "compressData env g (resp_body r) = Return (g2, c)"
    using assms(2,3) by (simp add: compressData_clean)
  with assms(4) have "GzipModifier_ModifyResponse env g r \<noteq> Panic" "GzipModifier_ModifyResponse env g r \<noteq> Blocked"
    by (auto simp: GzipModifier_ModifyResponse_def Let_def split: if_splits option.splits)
  then obtain g' r' err where run: "GzipModifier_ModifyResponse env g r = Return (g', r', err)"
    by (cases "GzipModifier_ModifyResponse env g r") auto
  note cases = gzip_cases [OF run assms(2,4)]
  have "decoded gunzip r' = decoded gunzip r \<and> resp_status r' = resp_status r \<and> resp_request r' = resp_request r
    \<and> (r' \<noteq> r \<longrightarrow> clientSupportsGzip (resp_request r) \<and> length (resp_body r') < length (resp_body r)
         \<and> ge_gz env (gm_level g) (resp_body r) = Some (resp_body r')
         \<and> resp_get r' ''Content-Length'' = itoa (int (length (resp_body r'))))"
    using cases gunzip by (auto simp: decoded_def resp_defs hdr_laws)
  with cases run show ?thesis by blast
qed

text \<open>A codec that shortens a run of four equal letters at the start, as an example.\<close>

definition sample_gz :: "int \<Rightarrow> string \<Rightarrow> string option" where
  "sample_gz level data =
     (if take 4 data = ''aaaa'' then Some (CHR ''Z'' # drop 4 data) else Some (CHR ''R'' # data))"

definition sample_gunzip :: "string \<Rightarrow> string option" where
  "sample_gunzip out =
     (case out of
        [] \<Rightarrow> None
      | c # cs \<Rightarrow> if c = CHR ''Z'' then Some (''aaaa'' @ cs) else if c = CHR ''R'' then Some cs else None)"

lemma sample_gunzip_gz: "sample_gz level data = Some out \<Longrightarrow> sample_gunzip out = Some data"
proof (cases "take 4 data = ''aaaa''")
  case True
  then have "''aaaa'' @ drop 4 data = data" by (metis append_take_drop_id)
  with True show "sample_gz level data = Some out \<Longrightarrow> ?thesis" by (auto simp: sample_gz_def sample_gunzip_def)
qed (auto simp: sample_gz_def sample_gunzip_def)

definition sample_response :: Response where
  "sample_response = \<lparr>resp_status = 200, resp_header = [(''Content-Type'', [''text/html''])],
     resp_body = ''aaaabc'', resp_length = 6,
     resp_request = \<lparr>r_method = ''GET'', r_host = ''a.com'', r_remote = [], r_proto = [], r_url = None,
       r_header = [(''Accept-Encoding'', [''gzip''])], r_body = [], r_length = 0\<rparr>\<rparr>"

definition sample_modifier :: GzipModifier where
  "sample_modifier = \<lparr>gm_enabled = True, gm_level = 6, gm_types = [''text/html''], gm_threshold = 0,
     gm_writers = [6], gm_buffers = [[]]\<rparr>"

definition sample_env :: gzip_env where
  "sample_env = \<lparr>ge_gz = sample_gz, ge_fails = \<lambda>_. None, ge_buffer = Some 0, ge_writer = None\<rparr>"

theorem gzip_transparent_witness:
  "\<exists>g' r'. GzipModifier_ModifyResponse sample_env sample_modifier sample_response = Return (g', r', None)
     \<and> pools_clean g' \<and> resp_body sample_response = ''aaaabc''
     \<and> decoded sample_gunzip r' = Some ''aaaabc''"
proof -
  have "\<And>level data out. ge_gz sample_env level data = Some out \<Longrightarrow> sample_gunzip out = Some data"
    by (simp add: sample_env_def sample_gunzip_gz)
  moreover have "pools_clean sample_modifier" "valid_level (gm_level sample_modifier)"
    "ge_fails sample_env (resp_body sample_response) = None"
    by (simp_all add: pools_clean_def valid_level_def sample_modifier_def sample_env_def)
  ultimately have "\<exists>g' r'. GzipModifier_ModifyResponse sample_env sample_modifier sample_response = Return (g', r', None)
      \<and> pools_clean g' \<and> decoded sample_gunzip r' = decoded sample_gunzip sample_response"
    using gzip_transparent [of sample_env sample_gunzip sample_modifier sample_response] by blast
  then show ?thesis by (simp add: decoded_def sample_response_def resp_get_def hdr_get_def)
qed

end
