(* ===== verification/GzipOptimized.thy ===== *)
theory GzipOptimized
  imports Gzip
begin

text \<open>
  The optimized gzip modifier (\<open>gateway/modifier/gzip_optimized.go\<close>): a cache of compressed bodies,
  compression in a worker goroutine for large bodies, and statistics. The result of a worker that
  misses its deadline is dropped. The waits (for a worker, for its result), the clock readings and
  the iteration orders of maps are in the environment of a call.
\<close>

section \<open>State\<close>

record CacheEntry =
  ce_data :: string
  ce_headers :: "(string, string) gomap"
  ce_timestamp :: time

record OptimizedGzip =
  og_gzip :: GzipModifier
  og_asyncThreshold :: int
  og_maxWorkers :: int
  og_cache :: "(string, CacheEntry) gomap"
  og_cacheEnabled :: bool
  og_cacheTTL :: duration
  og_totalRequests :: int
  og_compressedCount :: int
  og_cacheHits :: int
  og_avgCompressionTime :: duration

text \<open>
  \<open>oe_gzip\<close> is the environment of the pools, the compressor and the body; \<open>oe_worker\<close> whether a
  worker gets free in time, \<open>oe_result\<close> whether its result comes in time; \<open>oe_order\<close> the order in
  which a map of headers is iterated.
\<close>

record optimized_env =
  oe_gzip :: gzip_env
  oe_worker :: bool
  oe_result :: bool
  oe_order :: "(string, string) gomap \<Rightarrow> (string \<times> string) list"
  oe_start :: time
  oe_lookup :: time
  oe_store :: time
  oe_end :: time

definition NewOptimizedGzipModifier :: "int \<Rightarrow> Config \<Rightarrow> OptimizedGzip" where
  "NewOptimizedGzipModifier numCPU cfg =
     \<lparr>og_gzip = NewGzipModifier cfg, og_asyncThreshold = 100 * 1024, og_maxWorkers = numCPU, og_cache = [],
      og_cacheEnabled = True, og_cacheTTL = 5 * Minute, og_totalRequests = 0, og_compressedCount = 0,
      og_cacheHits = 0, og_avgCompressionTime = 0\<rparr>"

section \<open>The cache\<close>

definition generateCacheKey :: "string \<Rightarrow> string outcome" where
  "generateCacheKey data =
     (if data = [] then Panic
      else Return (itoa (int (length data)) @ CHR ''_'' # itoa (of_char (hd data)) @ CHR ''_'' # itoa (of_char (last data))))"

definition getFromCache :: "time \<Rightarrow> string \<Rightarrow> OptimizedGzip \<Rightarrow> (OptimizedGzip \<times> CacheEntry option) outcome" where
  "getFromCache now data g =
     (if \<not> og_cacheEnabled g then Return (g, None)
      else bind_outcome (generateCacheKey data) (\<lambda>key.
        case gm_get (og_cache g) key of
          None \<Rightarrow> Return (g, None)
        | Some entry \<Rightarrow>
            if time_sub now (ce_timestamp entry) < og_cacheTTL g then Return (g, Some entry)
            else Return (g\<lparr>og_cache := gm_delete key (og_cache g)\<rparr>, None)))"

definition cacheResult :: "time \<Rightarrow> string \<Rightarrow> string \<Rightarrow> (string, string) gomap \<Rightarrow> OptimizedGzip \<Rightarrow> OptimizedGzip outcome" where
  "cacheResult now original compressed headers g =
     (if \<not> og_cacheEnabled g then Return g
      else bind_outcome (generateCacheKey original) (\<lambda>key.
        Return (g\<lparr>og_cache := gm_put key \<lparr>ce_data = compressed, ce_headers = headers, ce_timestamp = now\<rparr> (og_cache g)\<rparr>)))"

definition set_headers :: "(string \<times> string) list \<Rightarrow> Response \<Rightarrow> Response" where
  "set_headers ord response = fold (\<lambda>(key, value) r. resp_set key value r) ord response"

definition applyCachedResponse :: "optimized_env \<Rightarrow> CacheEntry \<Rightarrow> Response \<Rightarrow> Response" where
  "applyCachedResponse env entry response =
     set_headers (oe_order env (ce_headers entry)) (response\<lparr>resp_body := ce_data entry\<rparr>)"

text \<open>One tick of the goroutine that removes old entries.\<close>

definition cleanupCache_tick :: "time \<Rightarrow> OptimizedGzip \<Rightarrow> OptimizedGzip" where
  "cleanupCache_tick now g =
     g\<lparr>og_cache := filter (\<lambda>(key, entry). \<not> og_cacheTTL g < time_sub now (ce_timestamp entry)) (og_cache g)\<rparr>"

section \<open>Compression\<close>

definition compress_headers :: "string \<Rightarrow> (string, string) gomap" where
  "compress_headers compressed =
     [(''Content-Encoding'', ''gzip''), (''Content-Length'', itoa (int (length compressed))), (''Vary'', ''Accept-Encoding'')]"

definition optimized_compressData ::
    "optimized_env \<Rightarrow> string \<Rightarrow> OptimizedGzip \<Rightarrow> (OptimizedGzip \<times> (string \<times> (string, string) gomap) option) outcome" where
  "optimized_compressData env data g =
     bind_outcome (compressData (oe_gzip env) (og_gzip g) data) (\<lambda>(gm, result).
       Return (g\<lparr>og_gzip := gm\<rparr>, map_option (\<lambda>compressed. (compressed, compress_headers compressed)) result))"

definition applyCompression ::
    "optimized_env \<Rightarrow> string \<Rightarrow> (string, string) gomap \<Rightarrow> Response \<Rightarrow> OptimizedGzip \<Rightarrow> OptimizedGzip \<times> Response" where
  "applyCompression env data headers response g =
     (let response = set_headers (oe_order env headers) (response\<lparr>resp_body := data\<rparr>);
          response = resp_set ''Content-Length'' (itoa (int (length data))) (resp_del ''Content-Length'' response)
      in (g\<lparr>og_compressedCount := wrap64 (og_compressedCount g + 1)\<rparr>, response))"

text \<open>The use of a result: kept only if it is shorter, then applied and cached.\<close>

definition use_result ::
    "optimized_env \<Rightarrow> string \<Rightarrow> (string \<times> (string, string) gomap) option \<Rightarrow> Response \<Rightarrow> OptimizedGzip \<Rightarrow>
     (OptimizedGzip \<times> Response) outcome" where
  "use_result env data result response g =
     (case result of
        None \<Rightarrow> Return (g, response\<lparr>resp_body := data\<rparr>)
      | Some (compressed, headers) \<Rightarrow>
          if length data \<le> length compressed then Return (g, response\<lparr>resp_body := data\<rparr>)
          else (let (g, response) = applyCompression env compressed headers response g
                in bind_outcome (cacheResult (oe_store env) data compressed headers g) (\<lambda>g. Return (g, response))))"

definition compressSync :: "optimized_env \<Rightarrow> Response \<Rightarrow> string \<Rightarrow> OptimizedGzip \<Rightarrow> (OptimizedGzip \<times> Response) outcome" where
  "compressSync env response data g =
     bind_outcome (optimized_compressData env data g) (\<lambda>(g, result). use_result env data result response g)"

definition compressAsync :: "optimized_env \<Rightarrow> Response \<Rightarrow> string \<Rightarrow> OptimizedGzip \<Rightarrow> (OptimizedGzip \<times> Response) outcome" where
  "compressAsync env response data g =
     (if \<not> oe_worker env then compressSync env response data g
      else bind_outcome (optimized_compressData env data g) (\<lambda>(g, result).
        if oe_result env then use_result env data result response g
        else Return (g, response\<lparr>resp_body := data\<rparr>)))"

section \<open>The modifier\<close>

definition optimized_shouldCompress :: "OptimizedGzip \<Rightarrow> Response \<Rightarrow> bool" where
  "optimized_shouldCompress g response =
     (if resp_get response ''Content-Encoding'' \<noteq> [] then False
      else (let contentType = resp_get response ''Content-Type''
            in if contentType = [] then False
               else list_ex (\<lambda>supportedType. strContains (toLower contentType) (toLower supportedType))
                      (gm_types (og_gzip g))))"

definition updateStats :: "duration \<Rightarrow> OptimizedGzip \<Rightarrow> OptimizedGzip" where
  "updateStats dur g =
     (let total = wrap64 (og_totalRequests g + 1);
          g = g\<lparr>og_totalRequests := total\<rparr>
      in if total = 1 then g\<lparr>og_avgCompressionTime := dur\<rparr>
         else g\<lparr>og_avgCompressionTime :=
           wrap64 (go_div (wrap64 (wrap64 (og_avgCompressionTime g * wrap64 (total - 1)) + dur)) total)\<rparr>)"

definition optimized_modify ::
    "optimized_env \<Rightarrow> OptimizedGzip \<Rightarrow> Response \<Rightarrow> (OptimizedGzip \<times> Response \<times> string option) outcome" where
  "optimized_modify env g response =
     (if \<not> gm_enabled (og_gzip g) then Return (g, response, None)
      else if \<not> clientSupportsGzip (resp_request response) then Return (g, response, None)
      else if \<not> optimized_shouldCompress g response then Return (g, response, None)
      else (let originalData = resp_body response in
        case ge_fails (oe_gzip env) originalData of
          Some n \<Rightarrow> Return (g, response\<lparr>resp_body := drop n originalData\<rparr>, Some ''read error'')
        | None \<Rightarrow>
            if int (length originalData) < gm_threshold (og_gzip g) then Return (g, response, None)
            else bind_outcome (if og_cacheEnabled g then getFromCache (oe_lookup env) originalData g else Return (g, None))
              (\<lambda>(g, cached).
                case cached of
                  Some entry \<Rightarrow>
                    Return (g\<lparr>og_cacheHits := wrap64 (og_cacheHits g + 1)\<rparr>, applyCachedResponse env entry response, None)
                | None \<Rightarrow>
                    bind_outcome
                      (if og_asyncThreshold g \<le> int (length originalData)
                       then compressAsync env response originalData g else compressSync env response originalData g)
                      (\<lambda>(g, response). Return (g, response, None)))))"

text \<open>The deferred update of the statistics runs on every path that returns.\<close>

definition Optimized_ModifyResponse ::
    "optimized_env \<Rightarrow> OptimizedGzip \<Rightarrow> Response \<Rightarrow> (OptimizedGzip \<times> Response \<times> string option) outcome" where
  "Optimized_ModifyResponse env g response =
     bind_outcome (optimized_modify env g response) (\<lambda>(g, response, err).
       Return (updateStats (time_sub (oe_end env) (oe_start env)) g, response, err))"

definition Optimized_Use :: "optimized_env \<Rightarrow> OptimizedGzip \<Rightarrow> Response \<Rightarrow> (OptimizedGzip \<times> Response) outcome" where
  "Optimized_Use env g response =
     (if gm_enabled (og_gzip g)
      then bind_outcome (Optimized_ModifyResponse env g response) (\<lambda>(g, response, err). Return (g, response))
      else Return (g, response))"

definition Optimized_UpdateConfig :: "Config \<Rightarrow> OptimizedGzip \<Rightarrow> OptimizedGzip" where
  "Optimized_UpdateConfig cfg g =
     (let gm = GzipModifier_UpdateConfig cfg (og_gzip g)
      in g\<lparr>og_gzip := gm\<lparr>gm_threshold := gz_threshold (mw_gzip (cfg_middleware cfg))\<rparr>\<rparr>)"

section \<open>Keys and headers\<close>

definition same_shape :: "string \<Rightarrow> string \<Rightarrow> bool" where
  "same_shape a b \<longleftrightarrow> a \<noteq> [] \<and> b \<noteq> [] \<and> length a = length b \<and> hd a = hd b \<and> last a = last b"

text \<open>The key of a body is only its length, its first and its last byte.\<close>

lemma cache_key_same: "generateCacheKey a = Return k \<and> generateCacheKey b = Return k \<Longrightarrow> same_shape a b"
proof -
  assume k: "generateCacheKey a = Return k \<and> generateCacheKey b = Return k"
  then have ne: "a \<noteq> []" "b \<noteq> []" by (auto simp: generateCacheKey_def)
  have sep: "digitVal CHR ''_'' = None" "CHR ''_'' \<noteq> CHR ''-''" by (simp_all add: digitVal_def)
  from k ne have eq: "itoa (int (length a)) @ CHR ''_'' # itoa (of_char (hd a)) @ CHR ''_'' # itoa (of_char (last a))
      = itoa (int (length b)) @ CHR ''_'' # itoa (of_char (hd b)) @ CHR ''_'' # itoa (of_char (last b))"
    by (simp add: generateCacheKey_def)
  note cut1 = itoa_cut [OF sep eq]
  note cut2 = itoa_cut [OF sep conjunct2 [OF cut1]]
  from cut1 cut2 itoa_inj [OF conjunct2 [OF cut2]] ne show ?thesis
    unfolding same_shape_def by (metis char_of_char of_nat_eq_iff of_nat_of_char)
qed

lemma cache_key_shape: "same_shape a b \<Longrightarrow> generateCacheKey a = generateCacheKey b"
  by (simp add: same_shape_def generateCacheKey_def)

lemma set_headers_same:
  "resp_status (set_headers ord r) = resp_status r \<and> resp_request (set_headers ord r) = resp_request r
   \<and> resp_body (set_headers ord r) = resp_body r"
  unfolding set_headers_def by (induction ord arbitrary: r) (auto simp: resp_set_def)

lemma set_headers_get:
  "resp_get (set_headers ord r) k =
     (case find (\<lambda>kv. canonicalKey (fst kv) = canonicalKey k) (rev ord) of Some kv \<Rightarrow> snd kv | None \<Rightarrow> resp_get r k)"
proof (induction ord rule: rev_induct)
  case (snoc kv ord)
  then show ?case by (cases kv) (auto simp: set_headers_def resp_defs hdr_laws)
qed (simp add: set_headers_def)

lemma compress_headers_get:
  assumes "iteration_of ord (compress_headers c)"
  shows "resp_get (set_headers ord r) ''Content-Encoding'' = ''gzip''"
proof -
  have set: "set ord = set (compress_headers c)" by (rule iteration_set [OF assms])
  have "find (\<lambda>kv. canonicalKey (fst kv) = canonicalKey ''Content-Encoding'') (rev ord) \<noteq> None"
    using set unfolding find_None_iff by (fastforce simp: compress_headers_def)
  then obtain kv where kv: "find (\<lambda>kv. canonicalKey (fst kv) = canonicalKey ''Content-Encoding'') (rev ord) = Some kv"
    by blast
  then have "kv \<in> set ord" "canonicalKey (fst kv) = ''Content-Encoding''"
    by (auto simp: find_Some_iff) (metis nth_mem set_rev length_rev)
  then show ?thesis using kv by (auto simp: set_headers_get set compress_headers_def)
qed

section \<open>What the client receives\<close>

definition orders_ok :: "optimized_env \<Rightarrow> bool" where
  "orders_ok env \<longleftrightarrow> (\<forall>m. iteration_of (oe_order env m) m)"

definition cache_sound :: "(string \<Rightarrow> string option) \<Rightarrow> OptimizedGzip \<Rightarrow> bool" where
  "cache_sound gunzip g \<longleftrightarrow>
     (\<forall>k e. gm_get (og_cache g) k = Some e \<longrightarrow>
        ce_headers e = compress_headers (ce_data e) \<and>
        (\<exists>d. generateCacheKey d = Return k \<and> gunzip (ce_data e) = Some d))"

lemma cache_sound_new: "cache_sound gunzip (NewOptimizedGzipModifier cpu cfg)"
  by (simp add: cache_sound_def NewOptimizedGzipModifier_def)

lemma applied_decoded:
  assumes ord: "orders_ok env" and "gunzip c = Some data"
  shows "applyCompression env c (compress_headers c) r g = (g', r') \<Longrightarrow>
     decoded gunzip r' = Some data \<and> og_gzip g' = og_gzip g \<and> og_cache g' = og_cache g
     \<and> og_cacheEnabled g' = og_cacheEnabled g \<and> resp_body r' = c"
  using compress_headers_get [of "oe_order env (compress_headers c)" c] ord set_headers_same [of "oe_order env (compress_headers c)"] assms(2)
  by (auto simp: orders_ok_def applyCompression_def Let_def decoded_def resp_defs hdr_laws)

lemma cached_decoded:
  assumes ord: "orders_ok env" and "gunzip (ce_data e) = Some data"
    and "ce_headers e = compress_headers (ce_data e)"
  shows "decoded gunzip (applyCachedResponse env e r) = Some data"
  using compress_headers_get [of "oe_order env (compress_headers (ce_data e))" "ce_data e"] ord set_headers_same assms(2,3)
  by (simp add: orders_ok_def applyCachedResponse_def decoded_def)

lemma cacheResult_ok:
  assumes "cache_sound gunzip g" and "gunzip c = Some data" and "data \<noteq> [] \<or> \<not> og_cacheEnabled g"
  shows "\<exists>g'. cacheResult now data c (compress_headers c) g = Return g' \<and> cache_sound gunzip g'
    \<and> og_gzip g' = og_gzip g
    \<and> (og_cacheEnabled g \<longrightarrow> (\<exists>k. generateCacheKey data = Return k
         \<and> gm_get (og_cache g') k = Some \<lparr>ce_data = c, ce_headers = compress_headers c, ce_timestamp = now\<rparr>))"
proof (cases "og_cacheEnabled g")
  case True
  with assms(3) obtain k where k: "generateCacheKey data = Return k" by (auto simp: generateCacheKey_def)
  with True assms show ?thesis by (auto simp: cacheResult_def cache_sound_def)
qed (use assms in \<open>simp add: cacheResult_def\<close>)

lemma use_result_ok:
  assumes ord: "orders_ok env" and "cache_sound gunzip g"
    and result: "result = None \<or> (\<exists>c. result = Some (c, compress_headers c) \<and> gunzip c = Some data)"
    and "data \<noteq> [] \<or> \<not> og_cacheEnabled g" and "resp_body r = data" and "resp_get r ''Content-Encoding'' = []"
  shows "\<exists>g' r'. use_result env data result r g = Return (g', r') \<and> cache_sound gunzip g'
    \<and> og_gzip g' = og_gzip g \<and> decoded gunzip r' = Some data"
proof (cases "\<exists>c. result = Some (c, compress_headers c) \<and> gunzip c = Some data \<and> length c < length data")
  case True
  then obtain c where c: "result = Some (c, compress_headers c)" "gunzip c = Some data" "length c < length data" by blast
  obtain g1 r1 where a: "applyCompression env c (compress_headers c) r g = (g1, r1)" by fastforce
  note r1 = applied_decoded [where gunzip = gunzip, OF ord c(2) a]
  with assms(2) have "cache_sound gunzip g1" by (simp add: cache_sound_def)
  with cacheResult_ok [of gunzip g1 c data "oe_store env"] c(2) assms(4) r1 obtain g2
    where "cacheResult (oe_store env) data c (compress_headers c) g1 = Return g2" "cache_sound gunzip g2"
      "og_gzip g2 = og_gzip g1" by auto
  with c a r1 show ?thesis by (simp add: use_result_def Let_def)
next
  case False
  with result have "use_result env data result r g = Return (g, r\<lparr>resp_body := data\<rparr>)"
    by (auto simp: use_result_def)
  moreover have "decoded gunzip (r\<lparr>resp_body := data\<rparr>) = Some data"
    using assms(6) by (simp add: decoded_def resp_get_def)
  ultimately show ?thesis using assms(2) by blast
qed

lemma compress_ok:
  assumes gunzip: "\<And>level d out. ge_gz (oe_gzip env) level d = Some out \<Longrightarrow> gunzip out = Some d"
    and ord: "orders_ok env" and "cache_sound gunzip g"
    and "pools_clean (og_gzip g)" and "valid_level (gm_level (og_gzip g))"
    and "data \<noteq> [] \<or> \<not> og_cacheEnabled g" and "resp_body r = data" and "resp_get r ''Content-Encoding'' = []"
  shows "\<exists>g' r'. (if b then compressAsync env r data g else compressSync env r data g) = Return (g', r')
    \<and> cache_sound gunzip g' \<and> pools_clean (og_gzip g') \<and> decoded gunzip r' = Some data"
proof -
  obtain gm c where c: "compressData (oe_gzip env) (og_gzip g) data = Return (gm, c)"
    using assms(4,5) by (simp add: compressData_clean)
  note clean = pools_clean_compress [OF assms(4) c]
  let ?g = "g\<lparr>og_gzip := gm\<rparr>"
  let ?result = "map_option (\<lambda>compressed. (compressed, compress_headers compressed)) c"
  have run: "optimized_compressData env data g = Return (?g, ?result)"
    by (simp add: optimized_compressData_def c)
  have "?result = None \<or> (\<exists>c. ?result = Some (c, compress_headers c) \<and> gunzip c = Some data)"
    using clean gunzip by (cases c) auto
  moreover have "cache_sound gunzip ?g" using assms(3) by (simp add: cache_sound_def)
  ultimately obtain g' r' where use: "use_result env data ?result r ?g = Return (g', r')" "cache_sound gunzip g'"
      "og_gzip g' = gm" "decoded gunzip r' = Some data"
    using use_result_ok [OF ord, of gunzip ?g ?result data r] assms(6-8) by auto
  moreover have "decoded gunzip (r\<lparr>resp_body := data\<rparr>) = Some data" using assms(7,8) by (simp add: decoded_def resp_get_def)
  ultimately show ?thesis
    using run clean \<open>cache_sound gunzip ?g\<close> by (auto simp: compressAsync_def compressSync_def)
qed

lemma lookup_ok:
  assumes "cache_sound gunzip g" and "data \<noteq> [] \<or> \<not> og_cacheEnabled g"
  shows "\<exists>g1 cached. (if og_cacheEnabled g then getFromCache now data g else Return (g, None)) = Return (g1, cached)
    \<and> cache_sound gunzip g1 \<and> og_gzip g1 = og_gzip g \<and> og_cacheEnabled g1 = og_cacheEnabled g
    \<and> og_asyncThreshold g1 = og_asyncThreshold g
    \<and> (\<forall>e. cached = Some e \<longrightarrow> og_cacheEnabled g \<and> ce_headers e = compress_headers (ce_data e)
         \<and> (\<exists>d. gunzip (ce_data e) = Some d \<and> same_shape d data))"
proof (cases "og_cacheEnabled g")
  case True
  with assms(2) obtain k where k: "generateCacheKey data = Return k" by (auto simp: generateCacheKey_def)
  show ?thesis
  proof (cases "gm_get (og_cache g) k")
    case (Some e)
    with assms(1) obtain d where "ce_headers e = compress_headers (ce_data e)" "gunzip (ce_data e) = Some d"
      "generateCacheKey d = Return k" unfolding cache_sound_def by blast
    with k cache_key_same assms(1) True Some show ?thesis
      by (auto simp: getFromCache_def cache_sound_def)
  qed (use True k assms(1) in \<open>simp add: getFromCache_def\<close>)
qed (use assms in simp)

text \<open>
  What the optimized modifier sends decodes to a body of the same length with the same first and
  last byte as the backend's, and to the backend's own body when the cache is off; the cache only
  ever holds compressed bodies under their keys. (An empty body panics when the cache is on.)
\<close>

theorem optimized_same_shape:
  assumes gunzip: "\<And>level d out. ge_gz (oe_gzip env) level d = Some out \<Longrightarrow> gunzip out = Some d"
    and ord: "orders_ok env"
    and pools: "pools_clean (og_gzip g)" "valid_level (gm_level (og_gzip g))" and sound: "cache_sound gunzip g"
    and body: "ge_fails (oe_gzip env) (resp_body r) = None" "resp_body r \<noteq> [] \<or> \<not> og_cacheEnabled g"
  shows "\<exists>g' r'. Optimized_ModifyResponse env g r = Return (g', r', None)
    \<and> cache_sound gunzip g' \<and> pools_clean (og_gzip g')
    \<and> (decoded gunzip r' = decoded gunzip r
       \<or> og_cacheEnabled g \<and> (\<exists>d. decoded gunzip r' = Some d \<and> same_shape d (resp_body r)))"
proof -
  define skip where "skip \<longleftrightarrow> \<not> gm_enabled (og_gzip g) \<or> \<not> clientSupportsGzip (resp_request r)
    \<or> \<not> optimized_shouldCompress g r \<or> int (length (resp_body r)) < gm_threshold (og_gzip g)"
  obtain g1 cached where look: "(if og_cacheEnabled g then getFromCache (oe_lookup env) (resp_body r) g else Return (g, None))
      = Return (g1, cached)" "cache_sound gunzip g1" "og_gzip g1 = og_gzip g" "og_cacheEnabled g1 = og_cacheEnabled g"
      "og_asyncThreshold g1 = og_asyncThreshold g"
    and hit: "\<And>e. cached = Some e \<Longrightarrow> og_cacheEnabled g \<and> ce_headers e = compress_headers (ce_data e)
         \<and> (\<exists>d. gunzip (ce_data e) = Some d \<and> same_shape d (resp_body r))"
    using lookup_ok [OF sound body(2)] by metis
  have "\<exists>g2 r'. optimized_modify env g r = Return (g2, r', None) \<and> cache_sound gunzip g2 \<and> pools_clean (og_gzip g2)
    \<and> (decoded gunzip r' = decoded gunzip r
       \<or> og_cacheEnabled g \<and> (\<exists>d. decoded gunzip r' = Some d \<and> same_shape d (resp_body r)))"
  proof (cases skip)
    case True
    then have "optimized_modify env g r = Return (g, r, None)"
      using body(1) by (auto simp: skip_def optimized_modify_def Let_def)
    with sound pools show ?thesis by blast
  next
    case go: False
    then have CE: "resp_get r ''Content-Encoding'' = []"
      by (auto simp: skip_def optimized_shouldCompress_def split: if_splits)
    then have dec: "decoded gunzip r = Some (resp_body r)" by (simp add: decoded_def)
    have unfold: "optimized_modify env g r = (case cached of
        Some entry \<Rightarrow> Return (g1\<lparr>og_cacheHits := wrap64 (og_cacheHits g1 + 1)\<rparr>, applyCachedResponse env entry r, None)
      | None \<Rightarrow> bind_outcome (if og_asyncThreshold g1 \<le> int (length (resp_body r))
           then compressAsync env r (resp_body r) g1 else compressSync env r (resp_body r) g1)
         (\<lambda>(g, response). Return (g, response, None)))"
      using go body(1) look(1) by (simp add: skip_def optimized_modify_def Let_def)
    show ?thesis
    proof (cases cached)
      case (Some e)
      with hit obtain d where "gunzip (ce_data e) = Some d" "same_shape d (resp_body r)" by blast
      moreover have "cache_sound gunzip (g1\<lparr>og_cacheHits := wrap64 (og_cacheHits g1 + 1)\<rparr>)"
        using look(2) by (simp add: cache_sound_def)
      ultimately show ?thesis
        using unfold Some hit cached_decoded [OF ord, of gunzip e d] look(3) pools(1) by auto
    next
      case None
      from compress_ok [where gunzip = gunzip and env = env and data = "resp_body r" and r = r and g = g1 and b = "og_asyncThreshold g1 \<le> int (length (resp_body r))"]
      obtain g2 r' where "(if og_asyncThreshold g1 \<le> int (length (resp_body r))
           then compressAsync env r (resp_body r) g1 else compressSync env r (resp_body r) g1) = Return (g2, r')"
        "cache_sound gunzip g2" "pools_clean (og_gzip g2)" "decoded gunzip r' = Some (resp_body r)"
        using gunzip ord pools look body(2) CE by auto
      with unfold None dec show ?thesis by simp
    qed
  qed
  then show ?thesis
    by (auto simp: Optimized_ModifyResponse_def updateStats_def cache_sound_def Let_def)
qed

definition sample_optimized :: OptimizedGzip where
  "sample_optimized = \<lparr>og_gzip = sample_modifier, og_asyncThreshold = 100 * 1024, og_maxWorkers = 4, og_cache = [],
     og_cacheEnabled = True, og_cacheTTL = 5 * Minute, og_totalRequests = 0, og_compressedCount = 0,
     og_cacheHits = 0, og_avgCompressionTime = 0\<rparr>"

definition sample_optimized_env :: optimized_env where
  "sample_optimized_env = \<lparr>oe_gzip = sample_env, oe_worker = True, oe_result = True, oe_order = id,
     oe_start = 0, oe_lookup = 1, oe_store = 2, oe_end = 3\<rparr>"

lemma sample_optimized_ready:
  "orders_ok sample_optimized_env" "pools_clean (og_gzip sample_optimized)"
  "valid_level (gm_level (og_gzip sample_optimized))" "og_cache sample_optimized = []"
  "cache_sound gunzip sample_optimized" "og_cacheEnabled sample_optimized"
  "ge_gz (oe_gzip sample_optimized_env) = sample_gz" "ge_fails (oe_gzip sample_optimized_env) b = None"
  by (simp_all add: orders_ok_def sample_optimized_env_def sample_optimized_def sample_modifier_def pools_clean_def
      valid_level_def cache_sound_def sample_env_def)

theorem optimized_same_shape_witness:
  "\<exists>g' r' d. Optimized_ModifyResponse sample_optimized_env sample_optimized sample_response = Return (g', r', None)
     \<and> decoded sample_gunzip r' = Some d \<and> length d = 6"
proof -
  have "\<exists>g' r'. Optimized_ModifyResponse sample_optimized_env sample_optimized sample_response = Return (g', r', None)
    \<and> cache_sound sample_gunzip g' \<and> pools_clean (og_gzip g')
    \<and> (decoded sample_gunzip r' = decoded sample_gunzip sample_response
       \<or> og_cacheEnabled sample_optimized \<and> (\<exists>d. decoded sample_gunzip r' = Some d \<and> same_shape d (resp_body sample_response)))"
    by (rule optimized_same_shape)
      (auto simp: sample_optimized_ready sample_gunzip_gz sample_response_def)
  moreover have "decoded sample_gunzip sample_response = Some ''aaaabc''"
    by (simp add: decoded_def sample_response_def resp_get_def hdr_get_def)
  moreover have "length (resp_body sample_response) = 6" by (simp add: sample_response_def)
  ultimately show ?thesis unfolding same_shape_def by fastforce
qed

section \<open>The body of another response\<close>

text \<open>A response that the modifier would compress.\<close>

definition eligible :: "optimized_env \<Rightarrow> OptimizedGzip \<Rightarrow> Response \<Rightarrow> bool" where
  "eligible env g r \<longleftrightarrow> gm_enabled (og_gzip g) \<and> clientSupportsGzip (resp_request r) \<and> optimized_shouldCompress g r
     \<and> ge_fails (oe_gzip env) (resp_body r) = None \<and> gm_threshold (og_gzip g) \<le> int (length (resp_body r))"

lemma eligible_modify:
  "eligible env g r \<Longrightarrow> og_cacheEnabled g \<Longrightarrow> optimized_modify env g r =
     bind_outcome (getFromCache (oe_lookup env) (resp_body r) g) (\<lambda>(g, cached). case cached of
         Some entry \<Rightarrow> Return (g\<lparr>og_cacheHits := wrap64 (og_cacheHits g + 1)\<rparr>, applyCachedResponse env entry r, None)
       | None \<Rightarrow> bind_outcome (if og_asyncThreshold g \<le> int (length (resp_body r))
           then compressAsync env r (resp_body r) g else compressSync env r (resp_body r) g)
         (\<lambda>(g, response). Return (g, response, None)))"
  by (simp add: eligible_def optimized_modify_def Let_def)

definition same_settings :: "GzipModifier \<Rightarrow> GzipModifier \<Rightarrow> bool" where
  "same_settings a b \<longleftrightarrow> gm_enabled a = gm_enabled b \<and> gm_level a = gm_level b \<and> gm_types a = gm_types b
     \<and> gm_threshold a = gm_threshold b"

lemma shouldCompress_cong:
  "same_settings (og_gzip g) (og_gzip g') \<Longrightarrow> resp_header r = resp_header r' \<Longrightarrow>
     optimized_shouldCompress g r = optimized_shouldCompress g' r'"
  by (simp add: optimized_shouldCompress_def same_settings_def resp_get_def)

lemma compress_stores:
  assumes "pools_clean (og_gzip g)" and "valid_level (gm_level (og_gzip g))" and "og_cacheEnabled g"
    and gz: "ge_gz (oe_gzip env) (gm_level (og_gzip g)) data = Some c" "length c < length data"
    and time: "oe_result env \<or> \<not> oe_worker env"
  shows "\<exists>g1 r1 k. (if b then compressAsync env r data g else compressSync env r data g) = Return (g1, r1)
    \<and> generateCacheKey data = Return k
    \<and> gm_get (og_cache g1) k = Some \<lparr>ce_data = c, ce_headers = compress_headers c, ce_timestamp = oe_store env\<rparr>
    \<and> same_settings (og_gzip g1) (og_gzip g)
    \<and> og_cacheEnabled g1 \<and> og_cacheTTL g1 = og_cacheTTL g \<and> resp_body r1 = c"
proof -
  from gz(2) have "data \<noteq> []" by auto
  then obtain k where k: "generateCacheKey data = Return k" by (simp add: generateCacheKey_def)
  obtain gm where gm: "compressData (oe_gzip env) (og_gzip g) data = Return (gm, Some c)"
      "same_settings gm (og_gzip g)"
    using assms(1,2) gz(1) by (simp add: compressData_clean same_settings_def)
  then have "optimized_compressData env data g = Return (g\<lparr>og_gzip := gm\<rparr>, Some (c, compress_headers c))"
    by (simp add: optimized_compressData_def)
  with gm(2) k gz(2) time assms(3) show ?thesis
    by (auto simp: compressAsync_def compressSync_def use_result_def applyCompression_def cacheResult_def Let_def
        set_headers_same resp_set_def resp_del_def)
qed

text \<open>
  The key collides: after a response has been compressed and cached, an eligible response with
  another body that only agrees with it in length, first and last byte is answered, within the
  lifetime of the entry, with the body of the first.
\<close>

theorem optimized_wrong_body:
  assumes pools: "pools_clean (og_gzip g)" "valid_level (gm_level (og_gzip g))"
    and cache: "og_cacheEnabled g" "og_cache g = []"
    and r1: "eligible env1 g r1" "ge_gz (oe_gzip env1) (gm_level (og_gzip g)) (resp_body r1) = Some c"
      "length c < length (resp_body r1)" "oe_result env1 \<or> \<not> oe_worker env1"
    and r2: "eligible env2 g r2" "same_shape (resp_body r1) (resp_body r2)"
      "time_sub (oe_lookup env2) (oe_store env1) < og_cacheTTL g"
  shows "\<exists>g1 r1' g2 r2'. Optimized_ModifyResponse env1 g r1 = Return (g1, r1', None)
    \<and> Optimized_ModifyResponse env2 g1 r2 = Return (g2, r2', None)
    \<and> resp_body r1' = c \<and> resp_body r2' = c"
proof -
  from compress_stores [OF pools cache(1) r1(2-4), of "og_asyncThreshold g \<le> int (length (resp_body r1))" r1]
  obtain g1 r1' k where run: "(if og_asyncThreshold g \<le> int (length (resp_body r1))
        then compressAsync env1 r1 (resp_body r1) g else compressSync env1 r1 (resp_body r1) g) = Return (g1, r1')"
    and k: "generateCacheKey (resp_body r1) = Return k"
    and g1: "gm_get (og_cache g1) k = Some \<lparr>ce_data = c, ce_headers = compress_headers c, ce_timestamp = oe_store env1\<rparr>"
      "same_settings (og_gzip g1) (og_gzip g)" "og_cacheEnabled g1"
      "og_cacheTTL g1 = og_cacheTTL g" "resp_body r1' = c"
    by blast
  have "getFromCache (oe_lookup env1) (resp_body r1) g = Return (g, None)"
    using cache k by (simp add: getFromCache_def)
  with run have first: "optimized_modify env1 g r1 = Return (g1, r1', None)"
    by (simp add: eligible_modify [OF r1(1) cache(1)])
  let ?g = "updateStats (time_sub (oe_end env1) (oe_start env1)) g1"
  have g: "og_cache ?g = og_cache g1" "og_gzip ?g = og_gzip g1" "og_cacheEnabled ?g" "og_cacheTTL ?g = og_cacheTTL g"
    using g1 by (simp_all add: updateStats_def Let_def)
  then have "eligible env2 ?g r2"
    using r2(1) g1(2) shouldCompress_cong [of ?g g r2 r2] by (simp add: eligible_def same_settings_def)
  moreover have "getFromCache (oe_lookup env2) (resp_body r2) ?g
      = Return (?g, Some \<lparr>ce_data = c, ce_headers = compress_headers c, ce_timestamp = oe_store env1\<rparr>)"
    using g g1 k r2(2,3) cache_key_shape [OF r2(2)] by (simp add: getFromCache_def)
  ultimately have "\<exists>g2 r2'. optimized_modify env2 ?g r2 = Return (g2, r2', None) \<and> resp_body r2' = c"
    using g(3) by (simp add: eligible_modify applyCachedResponse_def set_headers_same)
  with first g1(5) show ?thesis by (auto simp: Optimized_ModifyResponse_def)
qed

theorem optimized_wrong_body_witness:
  "\<exists>g1 r1' g2 r2'. Optimized_ModifyResponse sample_optimized_env sample_optimized sample_response = Return (g1, r1', None)
     \<and> Optimized_ModifyResponse sample_optimized_env g1 (sample_response\<lparr>resp_body := ''aPRIVc''\<rparr>) = Return (g2, r2', None)
     \<and> sample_gunzip (resp_body r2') = Some ''aaaabc''"
proof -
  let ?r2 = "sample_response\<lparr>resp_body := ''aPRIVc''\<rparr>"
  have lower: "clientSupportsGzip (resp_request sample_response)" "optimized_shouldCompress sample_optimized sample_response"
    by code_simp+
  have "eligible sample_optimized_env sample_optimized sample_response"
    using lower by (simp add: eligible_def sample_optimized_ready sample_optimized_def sample_modifier_def)
  moreover have "eligible sample_optimized_env sample_optimized ?r2"
    using lower shouldCompress_cong [of sample_optimized sample_optimized sample_response ?r2]
    by (simp add: eligible_def sample_optimized_ready sample_optimized_def sample_modifier_def same_settings_def)
  moreover have "ge_gz (oe_gzip sample_optimized_env) (gm_level (og_gzip sample_optimized)) (resp_body sample_response) = Some ''Zbc''"
    by (simp add: sample_optimized_ready sample_gz_def sample_response_def)
  moreover have "same_shape (resp_body sample_response) (resp_body ?r2)"
    by (simp add: same_shape_def sample_response_def)
  moreover have "length ''Zbc'' < length (resp_body sample_response)" by (simp add: sample_response_def)
  moreover have "oe_result sample_optimized_env" by (simp add: sample_optimized_env_def)
  moreover have "time_sub (oe_lookup sample_optimized_env) (oe_store sample_optimized_env) < og_cacheTTL sample_optimized"
    by (simp add: sample_optimized_env_def sample_optimized_def time_defs)
  ultimately obtain g1 r1' g2 r2' where
    "Optimized_ModifyResponse sample_optimized_env sample_optimized sample_response = Return (g1, r1', None)"
    "Optimized_ModifyResponse sample_optimized_env g1 ?r2 = Return (g2, r2', None)" "resp_body r2' = ''Zbc''"
    using optimized_wrong_body [of sample_optimized sample_optimized_env sample_response "''Zbc''" sample_optimized_env ?r2]
      sample_optimized_ready by blast
  moreover have "sample_gunzip ''Zbc'' = Some ''aaaabc''" by (simp add: sample_gunzip_def)
  ultimately show ?thesis by auto
qed

end
