(* ===== verification/Modifiers.thy ===== *)
theory Modifiers
  imports Gzip Resolver
begin

text \<open>
  The response modifiers of \<open>gateway/modifier\<close> (trace id, security headers, cache control, custom
  headers, gzip, CORS), the helper functions of \<open>internal/utils/header.go\<close>, the modifier chain and
  its manager. The global configuration is an argument; a modifier's call gives the modifier with
  its state, and the response. The iteration order of a map of headers is in the environment.
\<close>

record mod_env =
  me_gzip :: gzip_env
  me_trace :: string
  me_order :: "(string, string) gomap \<Rightarrow> (string \<times> string) list"

section \<open>Header helpers\<close>

definition AddHeader :: "(string \<times> string) list \<Rightarrow> Response \<Rightarrow> Response" where
  "AddHeader ord response =
     fold (\<lambda>(key, value) r. if resp_get r key = [] then resp_add key value r else r) ord response"

text \<open>\<open>newTraceId\<close> is what \<open>generateTraceId\<close> returns.\<close>

definition AddTrace :: "string \<Rightarrow> Config \<Rightarrow> string \<Rightarrow> Response \<Rightarrow> Response" where
  "AddTrace newTraceId cfg traceHeader response =
     (let traceIdHeader = ph_traceId (cfg_proxyHeader cfg);
          traceIdHeader = (if traceIdHeader = [] then traceHeader else traceIdHeader);
          traceId = req_get (resp_request response) traceIdHeader
      in if traceId = [] then resp_set traceIdHeader newTraceId response
         else resp_set traceIdHeader traceId response)"

definition AddSecureHeader :: "Config \<Rightarrow> Response \<Rightarrow> Response" where
  "AddSecureHeader cfg response =
     (let sec = cfg_security cfg;
          r = resp_set ''X-Content-Type-Options'' ''nosniff'' response;
          r = (if sec_xssProtection sec then resp_set ''X-XSS-Protection'' ''1; mode=block'' r else r);
          r = (if sec_iFrameProtection sec then resp_set ''X-Frame-Options'' ''DENY'' r else r);
          r = (if sec_hSTS sec
               then (let hstsHeader = ''max-age=31536000;'';
                         hstsHeader = (if sec_hSTSSubdomain sec then hstsHeader @ ''includeSubDomains;'' else hstsHeader);
                         hstsHeader = (if sec_hSTSPreload sec then hstsHeader @ ''preload'' else hstsHeader)
                     in resp_set ''Strict-Transport-Security'' hstsHeader r)
               else r);
          r = (if sec_sameSite sec then resp_set ''Set-Cookie'' ''SameSite=Strict; Path=/; Secure; HttpOnly'' r else r)
      in resp_set ''Referrer-Policy'' ''strict-origin-when-cross-origin'' r)"

section \<open>The simple modifiers\<close>

record TraceModifier =
  tm_enable :: bool
  tm_header :: string

definition NewTraceModifier :: "Config \<Rightarrow> TraceModifier" where
  "NewTraceModifier cfg =
     \<lparr>tm_enable = trc_enabled (mw_trace (cfg_middleware cfg)), tm_header = trc_traceId (mw_trace (cfg_middleware cfg))\<rparr>"

definition Trace_Use :: "string \<Rightarrow> Config \<Rightarrow> TraceModifier \<Rightarrow> Response \<Rightarrow> Response" where
  "Trace_Use newTraceId cfg t response =
     (if \<not> tm_enable t then response else AddTrace newTraceId cfg (tm_header t) response)"

record SecureHeaderModifier =
  shm_enable :: bool

definition NewSecureHeaderModifier :: "Config \<Rightarrow> SecureHeaderModifier" where
  "NewSecureHeaderModifier cfg = \<lparr>shm_enable = mw_secureHeader (cfg_middleware cfg)\<rparr>"

definition Secure_ModifyResponse :: "Config \<Rightarrow> SecureHeaderModifier \<Rightarrow> Response \<Rightarrow> Response" where
  "Secure_ModifyResponse cfg s response = (if \<not> shm_enable s then response else AddSecureHeader cfg response)"

record NoCache =
  nc_enabled :: bool

definition NewNoCache :: "Config \<Rightarrow> NoCache" where
  "NewNoCache cfg = \<lparr>nc_enabled = mw_noCache (cfg_middleware cfg)\<rparr>"

definition NoCache_Use :: "NoCache \<Rightarrow> Response \<Rightarrow> Response" where
  "NoCache_Use n response =
     (if \<not> nc_enabled n then response
      else (let cacheHeader = resp_get response ''Cache-Control'' in
        if cacheHeader \<noteq> [] then resp_add ''Cache-Control'' cacheHeader response
        else if IsBackend (resp_request response) then resp_add ''Cache-Control'' ''no-cache'' response
        else response))"

record CorsHeaderModifier =
  cm_enabled :: bool
  cm_headers :: "string list"
  cm_methods :: "string list"
  cm_origins :: "string list"

definition defaultHeaders :: "string list" where
  "defaultHeaders = [''Content-Type'', ''Origin'', ''Authorization'']"

definition defaultMethods :: "string list" where
  "defaultMethods = [''GET'', ''HEAD'', ''POST'', ''PUT'', ''PATCH'', ''DELETE'']"

definition defaultOrigins :: "string list" where
  "defaultOrigins = [''*'']"

definition NewCorsHeaderModifier :: "Config \<Rightarrow> CorsHeaderModifier" where
  "NewCorsHeaderModifier cfg =
     (let c = mw_cORS (cfg_middleware cfg)
      in \<lparr>cm_enabled = crs_enabled c, cm_headers = crs_header c, cm_methods = crs_method c, cm_origins = crs_origin c\<rparr>)"

definition Cors_ModifyResponse :: "CorsHeaderModifier \<Rightarrow> Response \<Rightarrow> Response" where
  "Cors_ModifyResponse c response =
     (let origins = (if cm_origins c = [] then defaultOrigins else cm_origins c);
          methods = (if cm_methods c = [] then defaultMethods else cm_methods c);
          headers = (if cm_headers c = [] then defaultHeaders else cm_headers c);
          r = resp_set ''Access-Control-Allow-Origin'' (strJoin '','' origins) response;
          r = resp_set ''Access-Control-Allow-Methods'' (strJoin '','' methods) r;
          r = resp_set ''Access-Control-Allow-Headers'' (strJoin '','' headers) r
      in resp_set ''Access-Control-Allow-Credentials'' ''true'' r)"

section \<open>Custom headers\<close>

record CustomHeaderModifier =
  chm_enabled :: bool
  chm_headers :: "(string, string) gomap"

text \<open>Copying a map entry by entry gives a map with the same entries, in whatever order.\<close>

definition copy_map :: "(string \<times> string) list \<Rightarrow> (string, string) gomap" where
  "copy_map ord = fold (\<lambda>(key, value). gm_put key value) ord []"

definition NewCustomHeaderModifier :: "mod_env \<Rightarrow> Config \<Rightarrow> CustomHeaderModifier" where
  "NewCustomHeaderModifier env cfg =
     \<lparr>chm_enabled = (0 < length (cfg_customHeader cfg)), chm_headers = copy_map (me_order env (cfg_customHeader cfg))\<rparr>"

definition Custom_ModifyResponse :: "mod_env \<Rightarrow> CustomHeaderModifier \<Rightarrow> Response \<Rightarrow> Response" where
  "Custom_ModifyResponse env m response =
     (if \<not> chm_enabled m then response else AddHeader (me_order env (chm_headers m)) response)"

definition Custom_UpdateConfig :: "mod_env \<Rightarrow> Config \<Rightarrow> CustomHeaderModifier \<Rightarrow> CustomHeaderModifier" where
  "Custom_UpdateConfig env cfg m =
     (let headers = copy_map (me_order env (cfg_customHeader cfg))
      in m\<lparr>chm_headers := headers, chm_enabled := (0 < length headers)\<rparr>)"

definition Custom_AddHeader :: "string \<Rightarrow> string \<Rightarrow> CustomHeaderModifier \<Rightarrow> CustomHeaderModifier" where
  "Custom_AddHeader key value m =
     (if key = [] then m
      else (let m = m\<lparr>chm_headers := gm_put key value (chm_headers m)\<rparr>
            in if \<not> chm_enabled m \<and> 0 < length (chm_headers m) then m\<lparr>chm_enabled := True\<rparr> else m))"

definition Custom_RemoveHeader :: "string \<Rightarrow> CustomHeaderModifier \<Rightarrow> CustomHeaderModifier" where
  "Custom_RemoveHeader key m =
     (if key = [] then m
      else (let m = m\<lparr>chm_headers := gm_delete key (chm_headers m)\<rparr>
            in if length (chm_headers m) = 0 then m\<lparr>chm_enabled := False\<rparr> else m))"

definition Custom_GetHeaders :: "mod_env \<Rightarrow> CustomHeaderModifier \<Rightarrow> (string, string) gomap" where
  "Custom_GetHeaders env m = copy_map (me_order env (chm_headers m))"

text \<open>\<open>None\<close> is the nil map.\<close>

definition Custom_SetHeaders :: "mod_env \<Rightarrow> (string, string) gomap option \<Rightarrow> CustomHeaderModifier \<Rightarrow> CustomHeaderModifier" where
  "Custom_SetHeaders env headers m =
     (case headers of
        None \<Rightarrow> m
      | Some hs \<Rightarrow> (let headers = copy_map (me_order env hs)
                    in m\<lparr>chm_headers := headers, chm_enabled := (0 < length headers)\<rparr>))"

definition Custom_ClearHeaders :: "CustomHeaderModifier \<Rightarrow> CustomHeaderModifier" where
  "Custom_ClearHeaders m = m\<lparr>chm_headers := [], chm_enabled := False\<rparr>"

definition Custom_HasHeader :: "string \<Rightarrow> CustomHeaderModifier \<Rightarrow> bool" where
  "Custom_HasHeader key m = (gm_get (chm_headers m) key \<noteq> None)"

definition Custom_GetHeader :: "string \<Rightarrow> CustomHeaderModifier \<Rightarrow> string \<times> bool" where
  "Custom_GetHeader key m = (case gm_get (chm_headers m) key of None \<Rightarrow> ([], False) | Some v \<Rightarrow> (v, True))"

section \<open>The interface Modifier\<close>

datatype Modifier =
  TraceMod TraceModifier | SecureMod SecureHeaderModifier | NoCacheMod NoCache
| CustomMod CustomHeaderModifier | GzipMod GzipModifier | CorsMod CorsHeaderModifier

fun Modifier_ModifyResponse ::
    "mod_env \<Rightarrow> Config \<Rightarrow> Modifier \<Rightarrow> Response \<Rightarrow> (Modifier \<times> Response \<times> string option) outcome" where
  "Modifier_ModifyResponse env cfg (TraceMod t) r = Return (TraceMod t, r, None)"
| "Modifier_ModifyResponse env cfg (SecureMod s) r = Return (SecureMod s, Secure_ModifyResponse cfg s r, None)"
| "Modifier_ModifyResponse env cfg (NoCacheMod n) r = Return (NoCacheMod n, NoCache_Use n r, None)"
| "Modifier_ModifyResponse env cfg (CustomMod m) r = Return (CustomMod m, Custom_ModifyResponse env m r, None)"
| "Modifier_ModifyResponse env cfg (GzipMod g) r =
     bind_outcome (GzipModifier_ModifyResponse (me_gzip env) g r) (\<lambda>(g, r, err). Return (GzipMod g, r, err))"
| "Modifier_ModifyResponse env cfg (CorsMod c) r = Return (CorsMod c, Cors_ModifyResponse c r, None)"

text \<open>\<open>Use\<close> drops the error of \<open>ModifyResponse\<close>; only the trace id modifier works in \<open>Use\<close> alone.\<close>

fun Modifier_Use :: "mod_env \<Rightarrow> Config \<Rightarrow> Modifier \<Rightarrow> Response \<Rightarrow> (Modifier \<times> Response) outcome" where
  "Modifier_Use env cfg (TraceMod t) r = Return (TraceMod t, Trace_Use (me_trace env) cfg t r)"
| "Modifier_Use env cfg m r =
     bind_outcome (Modifier_ModifyResponse env cfg m r) (\<lambda>(m, r, err). Return (m, r))"

fun Modifier_IsEnabled :: "Modifier \<Rightarrow> bool" where
  "Modifier_IsEnabled (TraceMod t) = tm_enable t"
| "Modifier_IsEnabled (SecureMod s) = shm_enable s"
| "Modifier_IsEnabled (NoCacheMod n) = nc_enabled n"
| "Modifier_IsEnabled (CustomMod m) = chm_enabled m"
| "Modifier_IsEnabled (GzipMod g) = gm_enabled g"
| "Modifier_IsEnabled (CorsMod c) = cm_enabled c"

fun Modifier_UpdateConfig :: "mod_env \<Rightarrow> Config \<Rightarrow> Modifier \<Rightarrow> Modifier outcome" where
  "Modifier_UpdateConfig env cfg (TraceMod t) = Return (TraceMod t)"
| "Modifier_UpdateConfig env cfg (SecureMod s) = Panic"
| "Modifier_UpdateConfig env cfg (NoCacheMod n) = Panic"
| "Modifier_UpdateConfig env cfg (CustomMod m) = Return (CustomMod (Custom_UpdateConfig env cfg m))"
| "Modifier_UpdateConfig env cfg (GzipMod g) = Return (GzipMod (GzipModifier_UpdateConfig cfg g))"
| "Modifier_UpdateConfig env cfg (CorsMod c) = Panic"

fun Modifier_GetName :: "Modifier \<Rightarrow> string" where
  "Modifier_GetName (TraceMod t) = ''trace-id''"
| "Modifier_GetName (SecureMod s) = ''secure-header''"
| "Modifier_GetName (NoCacheMod n) = ''nocache''"
| "Modifier_GetName (CustomMod m) = ''custom-header''"
| "Modifier_GetName (GzipMod g) = ''gzip''"
| "Modifier_GetName (CorsMod c) = ''cors''"

section \<open>Chain and manager\<close>

text \<open>The chain is the list of its modifiers; \<open>None\<close> is a nil interface value.\<close>

definition Chain_AddModifier :: "'m option \<Rightarrow> 'm list \<Rightarrow> 'm list" where
  "Chain_AddModifier modifier chain = (case modifier of None \<Rightarrow> chain | Some m \<Rightarrow> chain @ [m])"

text \<open>The chain shares its modifiers, so a call's effect on one stays in the chain.\<close>

fun Chain_ModifyResponse ::
    "('m \<Rightarrow> bool) \<Rightarrow> ('m \<Rightarrow> 'r \<Rightarrow> ('m \<times> 'r \<times> string option) outcome) \<Rightarrow> 'm list \<Rightarrow> 'r \<Rightarrow>
     ('m list \<times> 'r \<times> string option) outcome" where
  "Chain_ModifyResponse enabled modify [] r = Return ([], r, None)"
| "Chain_ModifyResponse enabled modify (m # ms) r =
     (if enabled m
      then bind_outcome (modify m r) (\<lambda>(m, r, err).
        case err of
          Some e \<Rightarrow> Return (m # ms, r, Some e)
        | None \<Rightarrow> bind_outcome (Chain_ModifyResponse enabled modify ms r) (\<lambda>(ms, r, err). Return (m # ms, r, err)))
      else bind_outcome (Chain_ModifyResponse enabled modify ms r) (\<lambda>(ms, r, err). Return (m # ms, r, err)))"

fun Chain_UpdateConfig :: "('m \<Rightarrow> 'm outcome) \<Rightarrow> 'm list \<Rightarrow> 'm list outcome" where
  "Chain_UpdateConfig update [] = Return []"
| "Chain_UpdateConfig update (m # ms) =
     bind_outcome (update m) (\<lambda>m. bind_outcome (Chain_UpdateConfig update ms) (\<lambda>ms. Return (m # ms)))"

definition Chain_GetEnabledModifiers :: "('m \<Rightarrow> bool) \<Rightarrow> 'm list \<Rightarrow> 'm list" where
  "Chain_GetEnabledModifiers enabled chain = filter enabled chain"

fun Chain_GetModifierByName :: "('m \<Rightarrow> string) \<Rightarrow> string \<Rightarrow> 'm list \<Rightarrow> 'm option" where
  "Chain_GetModifierByName get_name name [] = None"
| "Chain_GetModifierByName get_name name (m # ms) =
     (if get_name m = name then Some m else Chain_GetModifierByName get_name name ms)"

text \<open>\<open>InitModifiers\<close> on the new manager of the program.\<close>

definition InitModifiers :: "mod_env \<Rightarrow> Config \<Rightarrow> Modifier list" where
  "InitModifiers env cfg =
     fold Chain_AddModifier
       [Some (TraceMod (NewTraceModifier cfg)), Some (SecureMod (NewSecureHeaderModifier cfg)),
        Some (NoCacheMod (NewNoCache cfg)), Some (CustomMod (NewCustomHeaderModifier env cfg)),
        Some (GzipMod (NewGzipModifier cfg)), Some (CorsMod (NewCorsHeaderModifier cfg))] []"

definition Manager_GetGzipModifier :: "Modifier list \<Rightarrow> GzipModifier option" where
  "Manager_GetGzipModifier chain =
     (case Chain_GetModifierByName Modifier_GetName ''gzip'' chain of Some (GzipMod g) \<Rightarrow> Some g | _ \<Rightarrow> None)"

definition Manager_GetCustomHeaderModifier :: "Modifier list \<Rightarrow> CustomHeaderModifier option" where
  "Manager_GetCustomHeaderModifier chain =
     (case Chain_GetModifierByName Modifier_GetName ''custom_header'' chain of Some (CustomMod m) \<Rightarrow> Some m | _ \<Rightarrow> None)"

datatype status_detail = NoDetail | GzipDetail int "string list" | HeadersDetail int

record ManagerStatus =
  ms_total :: int
  ms_enabled :: int
  ms_modifiers :: "(string \<times> bool \<times> status_detail) list"

definition Manager_GetStatus :: "mod_env \<Rightarrow> Modifier list \<Rightarrow> ManagerStatus" where
  "Manager_GetStatus env chain =
     \<lparr>ms_total = int (length chain), ms_enabled = int (length (Chain_GetEnabledModifiers Modifier_IsEnabled chain)),
      ms_modifiers = map (\<lambda>m. (Modifier_GetName m, Modifier_IsEnabled m,
        case m of GzipMod g \<Rightarrow> GzipDetail (gm_level g) (gm_types g)
        | CustomMod c \<Rightarrow> HeadersDetail (int (length (Custom_GetHeaders env c))) | _ \<Rightarrow> NoDetail)) chain\<rparr>"

text \<open>
  The proxy calls \<open>Use\<close> on the enabled modifiers, one after the other (the loop of
  \<open>ProxyModifyResponse\<close> in \<open>gateway/core/core.go\<close>).
\<close>

fun use_all :: "('m \<Rightarrow> 'r \<Rightarrow> ('m \<times> 'r) outcome) \<Rightarrow> 'm list \<Rightarrow> 'r \<Rightarrow> ('m list \<times> 'r) outcome" where
  "use_all use [] r = Return ([], r)"
| "use_all use (m # ms) r =
     bind_outcome (use m r) (\<lambda>(m, r). bind_outcome (use_all use ms r) (\<lambda>(ms, r). Return (m # ms, r)))"

text \<open>The modifiers are shared objects: what happens to an enabled one happens in the chain.\<close>

fun put_back :: "('m \<Rightarrow> bool) \<Rightarrow> 'm list \<Rightarrow> 'm list \<Rightarrow> 'm list" where
  "put_back enabled [] used = []"
| "put_back enabled (m # ms) used =
     (if enabled m then (case used of [] \<Rightarrow> m # put_back enabled ms [] | u # us \<Rightarrow> u # put_back enabled ms us)
      else m # put_back enabled ms used)"

definition ProxyModifyResponse :: "mod_env \<Rightarrow> Config \<Rightarrow> Modifier list \<Rightarrow> Response \<Rightarrow> (Modifier list \<times> Response) outcome" where
  "ProxyModifyResponse env cfg chain response =
     bind_outcome (use_all (Modifier_Use env cfg) (Chain_GetEnabledModifiers Modifier_IsEnabled chain) response)
       (\<lambda>(mods, response). Return (put_back Modifier_IsEnabled chain mods, response))"

section \<open>What the client of the interface relies on\<close>

text \<open>
  The contract of a modifier: it never touches the status, the request or the declared length of a
  response, keeps its name and whether it is enabled, and \<open>Use\<close> is \<open>ModifyResponse\<close> without the
  error, the modifiers in \<open>use_only\<close> excepted.
\<close>

definition same_response :: "Response \<Rightarrow> Response \<Rightarrow> bool" where
  "same_response r r' \<longleftrightarrow> resp_status r' = resp_status r \<and> resp_request r' = resp_request r \<and> resp_length r' = resp_length r"

lemma same_response_refl [simp, intro]: "same_response r r"
  by (simp add: same_response_def)

lemma same_response_trans: "same_response r r' \<Longrightarrow> same_response r' r'' \<Longrightarrow> same_response r r''"
  by (simp add: same_response_def)

lemma same_response_header [simp]:
  "same_response r (resp_set k v r') = same_response r r'" "same_response r (resp_add k v r') = same_response r r'"
  "same_response r (resp_del k r') = same_response r r'" "same_response r (r'\<lparr>resp_body := b\<rparr>) = same_response r r'"
  by (simp_all add: same_response_def resp_set_def resp_add_def resp_del_def)

locale modifier =
  fixes use :: "'m \<Rightarrow> Response \<Rightarrow> ('m \<times> Response) outcome"
    and modify :: "'m \<Rightarrow> Response \<Rightarrow> ('m \<times> Response \<times> string option) outcome"
    and enabled :: "'m \<Rightarrow> bool"
    and name_of :: "'m \<Rightarrow> string"
    and use_only :: "'m \<Rightarrow> bool"
  assumes use_response: "use m r = Return (m', r') \<Longrightarrow> same_response r r'"
    and use_keeps: "use m r = Return (m', r') \<Longrightarrow> name_of m' = name_of m \<and> enabled m' = enabled m"
    and use_modify: "\<not> use_only m \<Longrightarrow> use m r = bind_outcome (modify m r) (\<lambda>(m, r, err). Return (m, r))"
begin

lemma use_all_response: "use_all use ms r = Return (ms', r') \<Longrightarrow> same_response r r'"
proof (induction ms arbitrary: r ms')
  case (Cons m ms)
  then show ?case by (auto simp: bind_outcome_Return dest: use_response intro: same_response_trans)
qed simp

lemma use_all_names: "use_all use ms r = Return (ms', r') \<Longrightarrow> map name_of ms' = map name_of ms"
proof (induction ms arbitrary: r ms')
  case (Cons m ms)
  then show ?case by (auto simp: bind_outcome_Return dest: use_keeps)
qed simp

text \<open>Where no modifier works in \<open>Use\<close> alone, a chain that returns no error does what the loop does.\<close>

lemma chain_is_use_all:
  "\<forall>m \<in> set ms. enabled m \<longrightarrow> \<not> use_only m \<Longrightarrow> Chain_ModifyResponse enabled modify ms r = Return (ms', r', None) \<Longrightarrow>
     \<exists>es. use_all use (filter enabled ms) r = Return (es, r')"
proof (induction ms arbitrary: r ms')
  case (Cons m ms)
  show ?case
  proof (cases "enabled m")
    case True
    with Cons.prems(2) obtain m1 r1 ms1 where m: "modify m r = Return (m1, r1, None)"
      and ms: "Chain_ModifyResponse enabled modify ms r1 = Return (ms1, r', None)"
      by (auto simp: bind_outcome_Return split: option.splits)
    have "use m r = Return (m1, r1)" using Cons.prems(1) m True by (simp add: use_modify)
    moreover obtain es where "use_all use (filter enabled ms) r1 = Return (es, r')"
      using Cons.IH [OF _ ms] Cons.prems(1) by auto
    ultimately show ?thesis using True by simp
  next
    case False
    with Cons show ?thesis by (auto simp: bind_outcome_Return)
  qed
qed simp

end

section \<open>The contract holds for the modifiers\<close>

lemma AddHeader_same: "same_response r (AddHeader ord r)"
proof -
  have "same_response r0 r \<Longrightarrow>
    same_response r0 (fold (\<lambda>(key, value) r. if resp_get r key = [] then resp_add key value r else r) ord r)" for r0 r
    by (induction ord arbitrary: r) (auto simp: case_prod_unfold)
  then show ?thesis by (simp add: AddHeader_def)
qed

lemma simple_modifiers_same:
  "same_response r (Trace_Use t cfg m r)" "same_response r (Secure_ModifyResponse cfg s r)"
  "same_response r (NoCache_Use n r)" "same_response r (Custom_ModifyResponse env c r)"
  "same_response r (Cors_ModifyResponse cors r)"
  by (simp_all add: Trace_Use_def AddTrace_def Secure_ModifyResponse_def AddSecureHeader_def NoCache_Use_def
      Custom_ModifyResponse_def AddHeader_same Cors_ModifyResponse_def Let_def)

lemma compressData_settings: "compressData env g d = Return (g', c) \<Longrightarrow> gm_enabled g' = gm_enabled g"
  by (auto simp: compressData_def Let_def case_prod_unfold split: if_splits)

lemma gzip_result:
  "GzipModifier_ModifyResponse env g r = Return (g', r', err) \<Longrightarrow>
     same_response r r' \<and> gm_enabled g' = gm_enabled g
     \<and> (canonicalKey k \<notin> {''Content-Encoding'', ''Content-Length'', ''Content-Range''} \<longrightarrow>
          hdr_values (resp_header r') k = hdr_values (resp_header r) k)"
  unfolding GzipModifier_ModifyResponse_def Let_def
  by (cases "compressData env g (resp_body r)")
    (auto split: if_splits option.splits dest: compressData_settings simp: resp_values)

fun trace_only :: "Modifier \<Rightarrow> bool" where
  "trace_only (TraceMod t) = True"
| "trace_only m = False"

interpretation mods: modifier "Modifier_Use env cfg" "Modifier_ModifyResponse env cfg" Modifier_IsEnabled Modifier_GetName trace_only
  for env cfg
proof
  fix m r m' r'
  assume use: "Modifier_Use env cfg m r = Return (m', r')"
  show "same_response r r'"
    using use by (cases m) (auto simp: bind_outcome_Return simple_modifiers_same dest: gzip_result)
  show "Modifier_GetName m' = Modifier_GetName m \<and> Modifier_IsEnabled m' = Modifier_IsEnabled m"
    using use by (cases m) (auto simp: bind_outcome_Return dest: gzip_result)
next
  fix m r
  assume "\<not> trace_only m"
  then show "Modifier_Use env cfg m r = bind_outcome (Modifier_ModifyResponse env cfg m r) (\<lambda>(m, r, err). Return (m, r))"
    by (cases m) simp_all
qed


definition sample_chain :: "Modifier list" where
  "sample_chain = [TraceMod \<lparr>tm_enable = False, tm_header = []\<rparr>, NoCacheMod \<lparr>nc_enabled = True\<rparr>]"

definition plain_mod_env :: mod_env where
  "plain_mod_env = \<lparr>me_gzip = sample_env, me_trace = ''trace-1'', me_order = id\<rparr>"

definition same_site_config :: Config where
  "same_site_config = (the (Merge (\<lambda>_. (zero_PxyFrontConfig, True)) (\<lambda>_. (zero_PxyBackendConfig, True)) (Some GetDefaultConfig)))
     \<lparr>cfg_security := zero_SecurityConfig\<lparr>sec_sameSite := True\<rparr>,
      cfg_middleware := zero_MiddlewareConfig\<lparr>mw_secureHeader := True\<rparr>, cfg_customHeader := []\<rparr>"


section \<open>Headers that later modifiers leave alone\<close>

lemma response_names [simp]:
  "canonicalKey ''Cache-Control'' = ''Cache-Control''"
  "canonicalKey ''Set-Cookie'' = ''Set-Cookie''"
  "canonicalKey ''X-Content-Type-Options'' = ''X-Content-Type-Options''"
  "canonicalKey ''X-XSS-Protection'' = ''X-Xss-Protection''"
  "canonicalKey ''X-Frame-Options'' = ''X-Frame-Options''"
  "canonicalKey ''Strict-Transport-Security'' = ''Strict-Transport-Security''"
  "canonicalKey ''Referrer-Policy'' = ''Referrer-Policy''"
  "canonicalKey ''Access-Control-Allow-Origin'' = ''Access-Control-Allow-Origin''"
  "canonicalKey ''Access-Control-Allow-Methods'' = ''Access-Control-Allow-Methods''"
  "canonicalKey ''Access-Control-Allow-Headers'' = ''Access-Control-Allow-Headers''"
  "canonicalKey ''Access-Control-Allow-Credentials'' = ''Access-Control-Allow-Credentials''"
  by code_simp+

definition rewritten :: "string set" where
  "rewritten = {''Cache-Control'', ''Content-Encoding'', ''Content-Length'', ''Content-Range'',
     ''Access-Control-Allow-Origin'', ''Access-Control-Allow-Methods'', ''Access-Control-Allow-Headers'',
     ''Access-Control-Allow-Credentials''}"

lemma resp_get_values: "resp_get r k = (case hdr_values (resp_header r) k of [] \<Rightarrow> [] | v # _ \<Rightarrow> v)"
  by (simp add: resp_get_def hdr_get_values)

lemma hdr_values_cong: "canonicalKey k = canonicalKey k' \<Longrightarrow> hdr_values h k = hdr_values h k'"
  by (simp add: hdr_values_def)

lemma AddHeader_keeps:
  "resp_get r k \<noteq> [] \<Longrightarrow> hdr_values (resp_header (AddHeader ord r)) k = hdr_values (resp_header r) k"
  unfolding AddHeader_def
proof (induction ord arbitrary: r)
  case (Cons kv ord)
  obtain key val where kv: "kv = (key, val)" by (meson surj_pair)
  let ?r = "if resp_get r key = [] then resp_add key val r else r"
  have "hdr_values (resp_header ?r) k = hdr_values (resp_header r) k"
    using Cons.prems hdr_values_cong [of k key] by (auto simp: resp_values resp_get_values)
  with Cons.IH [of ?r] Cons.prems kv show ?case by (simp add: resp_get_values)
qed simp

text \<open>The trace id modifier may set any header, the security modifier sets those of \<open>AddSecureHeader\<close>.\<close>

fun overwrites :: "Modifier \<Rightarrow> bool" where
  "overwrites (TraceMod t) = True"
| "overwrites (SecureMod s) = True"
| "overwrites m = False"

lemma use_keeps_values:
  assumes "Modifier_Use env cfg m r = Return (m', r')" and "\<not> overwrites m"
    and "canonicalKey k \<notin> rewritten" and "resp_get r k \<noteq> []"
  shows "hdr_values (resp_header r') k = hdr_values (resp_header r) k"
  using assms by (cases m) (auto simp: bind_outcome_Return rewritten_def NoCache_Use_def Custom_ModifyResponse_def
      Cors_ModifyResponse_def Let_def resp_values AddHeader_keeps dest: gzip_result)

lemma use_all_keeps_values:
  assumes "use_all (Modifier_Use env cfg) ms r = Return (ms', r')"
    and "\<forall>m \<in> set ms. \<not> overwrites m" and "canonicalKey k \<notin> rewritten" and "resp_get r k \<noteq> []"
  shows "hdr_values (resp_header r') k = hdr_values (resp_header r) k"
  using assms
proof (induction ms arbitrary: r ms')
  case (Cons m ms)
  then obtain m1 r1 ms1 where "Modifier_Use env cfg m r = Return (m1, r1)"
    and "use_all (Modifier_Use env cfg) ms r1 = Return (ms1, r')" by (auto simp: bind_outcome_Return)
  with use_keeps_values Cons show ?case by (metis list.set_intros resp_get_values)
qed simp

lemma use_all_append:
  "use_all use (xs @ ys) r =
     bind_outcome (use_all use xs r) (\<lambda>(xs', r1). bind_outcome (use_all use ys r1) (\<lambda>(ys', r2). Return (xs' @ ys', r2)))"
proof (induction xs arbitrary: r)
  case Nil
  then show ?case by (cases "use_all use ys r") auto
next
  case (Cons x xs)
  then show ?case by (cases "use x r") (auto simp: case_prod_unfold bind_outcome_assoc)
qed

text \<open>
  Whatever modifiers run before and after it, as long as no other security or trace id modifier
  follows, the security headers reach the client as \<open>AddSecureHeader\<close> sets them; with the same-site
  protection on, \<open>Set-Cookie\<close> has that one value: every cookie that the backend set is lost. Status,
  request and declared length are untouched.
\<close>

theorem secure_headers:
  assumes "ProxyModifyResponse env cfg (before @ SecureMod \<lparr>shm_enable = True\<rparr> # after) r = Return (chain', r')"
    and "\<forall>m \<in> set after. \<not> overwrites m"
  shows "same_response r r'
    \<and> hdr_values (resp_header r') ''X-Content-Type-Options'' = [''nosniff'']
    \<and> hdr_values (resp_header r') ''Referrer-Policy'' = [''strict-origin-when-cross-origin'']
    \<and> (sec_iFrameProtection (cfg_security cfg) \<longrightarrow> hdr_values (resp_header r') ''X-Frame-Options'' = [''DENY''])
    \<and> (sec_xssProtection (cfg_security cfg) \<longrightarrow> hdr_values (resp_header r') ''X-XSS-Protection'' = [''1; mode=block''])
    \<and> (sec_sameSite (cfg_security cfg) \<longrightarrow>
         hdr_values (resp_header r') ''Set-Cookie'' = [''SameSite=Strict; Path=/; Secure; HttpOnly''])"
proof -
  let ?on = "filter Modifier_IsEnabled"
  obtain ms' where all: "use_all (Modifier_Use env cfg) (?on before @ SecureMod \<lparr>shm_enable = True\<rparr> # ?on after) r = Return (ms', r')"
    using assms(1) by (auto simp: ProxyModifyResponse_def Chain_GetEnabledModifiers_def bind_outcome_Return)
  then obtain r1 ms2 where rest: "use_all (Modifier_Use env cfg) (?on after) (AddSecureHeader cfg r1) = Return (ms2, r')"
    by (auto simp: use_all_append bind_outcome_Return Secure_ModifyResponse_def)
  have keep: "hdr_values (resp_header r') k = hdr_values (resp_header (AddSecureHeader cfg r1)) k"
    if "canonicalKey k \<notin> rewritten" "resp_get (AddSecureHeader cfg r1) k \<noteq> []" for k
    using use_all_keeps_values [OF rest _ that] assms(2) by auto
  show ?thesis
    using mods.use_all_response [OF all]
    by (simp add: keep rewritten_def resp_get_values AddSecureHeader_def Let_def resp_values)
qed

lemma same_site_chain:
  "InitModifiers plain_mod_env same_site_config =
     [TraceMod (NewTraceModifier same_site_config)] @ SecureMod \<lparr>shm_enable = True\<rparr> #
     [NoCacheMod \<lparr>nc_enabled = False\<rparr>, CustomMod \<lparr>chm_enabled = False, chm_headers = []\<rparr>,
      GzipMod (NewGzipModifier same_site_config), CorsMod (NewCorsHeaderModifier same_site_config)]"
  "\<not> tm_enable (NewTraceModifier same_site_config)" "\<not> gm_enabled (NewGzipModifier same_site_config)"
  "\<not> cm_enabled (NewCorsHeaderModifier same_site_config)" "sec_sameSite (cfg_security same_site_config)"
  by (simp_all add: InitModifiers_def Chain_AddModifier_def NewSecureHeaderModifier_def NewNoCache_def
      NewCustomHeaderModifier_def NewTraceModifier_def NewGzipModifier_def NewCorsHeaderModifier_def Let_def
      same_site_config_def copy_map_def plain_mod_env_def zero_MiddlewareConfig_def)

theorem secure_headers_witness:
  "\<exists>chain' r'. ProxyModifyResponse plain_mod_env same_site_config (InitModifiers plain_mod_env same_site_config)
       (resp_add ''Set-Cookie'' ''session=1'' sample_response) = Return (chain', r')
     \<and> hdr_values (resp_header r') ''Set-Cookie'' = [''SameSite=Strict; Path=/; Secure; HttpOnly'']"
proof -
  let ?r = "resp_add ''Set-Cookie'' ''session=1'' sample_response"
  obtain chain' r' where run: "ProxyModifyResponse plain_mod_env same_site_config
      ([TraceMod (NewTraceModifier same_site_config)] @ SecureMod \<lparr>shm_enable = True\<rparr> #
       [NoCacheMod \<lparr>nc_enabled = False\<rparr>, CustomMod \<lparr>chm_enabled = False, chm_headers = []\<rparr>,
        GzipMod (NewGzipModifier same_site_config), CorsMod (NewCorsHeaderModifier same_site_config)]) ?r = Return (chain', r')"
    by (simp add: ProxyModifyResponse_def Chain_GetEnabledModifiers_def same_site_chain)
  from secure_headers [OF run] run show ?thesis by (simp add: same_site_chain)
qed

section \<open>The manager\<close>

text \<open>
  On the program's own chain of modifiers: a configuration update always panics, in the second
  modifier, so that no modifier behind it is ever updated; the typed accessor finds the gzip
  modifier, but never the custom header modifier, whose name is written differently.
\<close>

theorem update_panics:
  "Chain_UpdateConfig (Modifier_UpdateConfig env cfg') (InitModifiers env cfg) = Panic
   \<and> Manager_GetGzipModifier (InitModifiers env cfg) = Some (NewGzipModifier cfg)
   \<and> Chain_GetModifierByName Modifier_GetName ''custom-header'' (InitModifiers env cfg) \<noteq> None
   \<and> Manager_GetCustomHeaderModifier (InitModifiers env cfg) = None"
  by (simp add: InitModifiers_def Chain_AddModifier_def Manager_GetGzipModifier_def Manager_GetCustomHeaderModifier_def)

section \<open>The custom header table\<close>

datatype custom_op = OpAdd string string | OpRemove string | OpSet "(string, string) gomap option" | OpClear | OpUpdate Config

fun custom_step :: "mod_env \<Rightarrow> custom_op \<Rightarrow> CustomHeaderModifier \<Rightarrow> CustomHeaderModifier" where
  "custom_step env (OpAdd k v) m = Custom_AddHeader k v m"
| "custom_step env (OpRemove k) m = Custom_RemoveHeader k m"
| "custom_step env (OpSet hs) m = Custom_SetHeaders env hs m"
| "custom_step env OpClear m = Custom_ClearHeaders m"
| "custom_step env (OpUpdate cfg) m = Custom_UpdateConfig env cfg m"

text \<open>What the operations mean on a finite map.\<close>

fun table_step :: "custom_op \<Rightarrow> (string \<Rightarrow> string option) \<Rightarrow> (string \<Rightarrow> string option)" where
  "table_step (OpAdd k v) t = (if k = [] then t else t(k \<mapsto> v))"
| "table_step (OpRemove k) t = (if k = [] then t else t(k := None))"
| "table_step (OpSet None) t = t"
| "table_step (OpSet (Some hs)) t = gm_get hs"
| "table_step OpClear t = Map.empty"
| "table_step (OpUpdate cfg) t = gm_get (cfg_customHeader cfg)"

definition maps_ok :: "custom_op list \<Rightarrow> bool" where
  "maps_ok ops \<longleftrightarrow> (\<forall>op \<in> set ops. (\<forall>hs. op = OpSet (Some hs) \<longrightarrow> gomap_ok hs)
     \<and> (\<forall>cfg. op = OpUpdate cfg \<longrightarrow> gomap_ok (cfg_customHeader cfg)))"

definition env_orders :: "mod_env \<Rightarrow> bool" where
  "env_orders env \<longleftrightarrow> (\<forall>m. iteration_of (me_order env m) m)"

lemma fold_put_gm:
  "distinct (map fst ord) \<Longrightarrow> gm_get (fold (\<lambda>(key, v). gm_put key v) ord m) k
     = (case map_of ord k of Some v \<Rightarrow> Some v | None \<Rightarrow> gm_get m k)"
  by (induction ord arbitrary: m) (auto simp: map_of_eq_None_iff image_iff split: option.splits)

lemma copy_map_get: "env_orders env \<Longrightarrow> gomap_ok m \<Longrightarrow> gm_get (copy_map (me_order env m)) = gm_get m"
proof
  fix k
  assume env: "env_orders env" and ok: "gomap_ok m"
  then have ord: "iteration_of (me_order env m) m" by (simp add: env_orders_def)
  then have "distinct (map fst (me_order env m))" using ok iteration_ok gomap_ok_def by blast
  moreover have "map_of (me_order env m) k = gm_get m k" using iteration_get [OF ord ok] by simp
  ultimately show "gm_get (copy_map (me_order env m)) k = gm_get m k"
    by (simp add: copy_map_def fold_put_gm split: option.split)
qed

lemma copy_map_ok: "gomap_ok (copy_map ord)"
  by (simp add: copy_map_def gomap_ok_intros)

lemma length_0_get: "(length m = 0) = (gm_get m = Map.empty)"
  by (cases m) (auto simp: fun_upd_def fun_eq_iff)

definition table_rep :: "CustomHeaderModifier \<Rightarrow> (string \<Rightarrow> string option) \<Rightarrow> bool" where
  "table_rep m t \<longleftrightarrow> gomap_ok (chm_headers m) \<and> gm_get (chm_headers m) = t \<and> (chm_enabled m \<longleftrightarrow> t \<noteq> Map.empty)"

lemma copy_map_Nil: "env_orders env \<Longrightarrow> gomap_ok m \<Longrightarrow> copy_map (me_order env m) = [] \<longleftrightarrow> m = []"
  using length_0_get [of "copy_map (me_order env m)"] length_0_get [of m] copy_map_get [of env m] by simp

lemma enabled_length: "(0 < length m) = (gm_get m \<noteq> Map.empty)"
  using length_0_get [of m] by simp

lemmas custom_rep_simps = table_rep_def Custom_AddHeader_def Custom_RemoveHeader_def Custom_SetHeaders_def
  Custom_ClearHeaders_def Custom_UpdateConfig_def Let_def enabled_length length_0_get

lemma custom_step_rep:
  "env_orders env \<Longrightarrow> maps_ok [op] \<Longrightarrow> table_rep m t \<Longrightarrow> table_rep (custom_step env op m) (table_step op t)"
proof (induction op t rule: table_step.induct)
  case (1 k v t)
  then show ?case by (auto simp: custom_rep_simps gomap_ok_intros)
next
  case (2 k t)
  have "gm_delete k (chm_headers m) = [] \<longleftrightarrow> (gm_get (chm_headers m))(k := None) = Map.empty"
    using length_0_get [of "gm_delete k (chm_headers m)"] by (simp only: gm_get_delete length_0_conv)
  with 2 show ?case by (auto simp: custom_rep_simps gomap_ok_intros)
next
  case (4 hs t)
  then show ?case by (simp add: custom_rep_simps maps_ok_def copy_map_get copy_map_ok copy_map_Nil)
next
  case (6 cfg t)
  then show ?case by (simp add: custom_rep_simps maps_ok_def copy_map_get copy_map_ok copy_map_Nil)
qed (simp_all add: custom_rep_simps)

text \<open>
  The custom header table: after any sequence of additions, removals, replacements, clearings and
  configuration updates, in whatever order maps are copied, it holds exactly the entries that the
  operations leave in a finite map, its accessors read that map, and it is enabled exactly when
  it has an entry.
\<close>

theorem custom_table:
  assumes "env_orders env" and "maps_ok (OpUpdate cfg # ops)"
  shows "let m = fold (custom_step env) ops (NewCustomHeaderModifier env cfg);
             t = fold table_step ops (gm_get (cfg_customHeader cfg))
         in (chm_enabled m \<longleftrightarrow> t \<noteq> Map.empty)
          \<and> (\<forall>k. Custom_HasHeader k m \<longleftrightarrow> t k \<noteq> None)
          \<and> (\<forall>k v. Custom_GetHeader k m = (v, True) \<longleftrightarrow> t k = Some v)
          \<and> gm_get (Custom_GetHeaders env m) = t"
proof -
  have rep: "maps_ok ops \<Longrightarrow> table_rep m t \<Longrightarrow> table_rep (fold (custom_step env) ops m) (fold table_step ops t)" for m t
  proof (induction ops arbitrary: m t)
    case (Cons op ops)
    then have "table_rep (custom_step env op m) (table_step op t)"
      by (intro custom_step_rep [OF assms(1)]) (simp_all add: maps_ok_def)
    with Cons show ?case by (simp add: maps_ok_def)
  qed simp
  have "gomap_ok (cfg_customHeader cfg)" "maps_ok ops" using assms(2) by (simp_all add: maps_ok_def)
  then have "table_rep (NewCustomHeaderModifier env cfg) (gm_get (cfg_customHeader cfg))"
    using assms(1) enabled_length [of "cfg_customHeader cfg"]
    by (simp add: table_rep_def NewCustomHeaderModifier_def copy_map_ok copy_map_get)
  from rep [OF \<open>maps_ok ops\<close> this] show ?thesis
    using assms(1) by (auto simp: Let_def table_rep_def Custom_HasHeader_def Custom_GetHeader_def Custom_GetHeaders_def
        copy_map_get split: option.splits)
qed

theorem custom_table_witness:
  "let m = fold (custom_step plain_mod_env) [OpAdd ''A'' ''1'', OpRemove ''A'']
             (NewCustomHeaderModifier plain_mod_env same_site_config)
   in \<not> chm_enabled m \<and> \<not> Custom_HasHeader ''A'' m"
  using custom_table [of plain_mod_env same_site_config "[OpAdd ''A'' ''1'', OpRemove ''A'']"]
  by (simp add: Let_def env_orders_def plain_mod_env_def maps_ok_def same_site_config_def)

end
