(* ===== verification/ErrorPage.thy ===== *)
theory ErrorPage
  imports GoHttp Config
begin

text \<open>
  The error pages of \<open>gateway/error_page\<close>: which status, headers and body an error is answered with,
  and the pages compressed in advance. The embedded pages and the compressor are parameters.
\<close>

section \<open>Pages\<close>

datatype page = Forbidden | Unavailable | Other

definition ERRORSendProxy :: string where "ERRORSendProxy = ''[Sandwich] proxy resolve error''"

text \<open>\<open>pg_gzip\<close> is \<open>gzip.NewWriter\<close> on some data (\<open>None\<close> is a write error).\<close>

record page_env =
  pg_forbidden :: string
  pg_unavailable :: string
  pg_gzip :: "string \<Rightarrow> string option"

text \<open>The variables \<open>ForbiddenPageGzip\<close> and \<open>UnavailablePageGzip\<close>; \<open>None\<close> is nil.\<close>

record page_cache =
  pc_forbiddenGzip :: "string option"
  pc_unavailableGzip :: "string option"

definition CodeMap :: "page_env \<Rightarrow> page \<Rightarrow> string" where
  "CodeMap env t = (case t of Forbidden \<Rightarrow> pg_forbidden env | Unavailable \<Rightarrow> pg_unavailable env | Other \<Rightarrow> ERRORSendProxy)"

definition InitErrorPageCache :: "page_env \<Rightarrow> page_cache" where
  "InitErrorPageCache env =
     \<lparr>pc_forbiddenGzip = pg_gzip env (pg_forbidden env), pc_unavailableGzip = pg_gzip env (pg_unavailable env)\<rparr>"

definition getGzipCache :: "page_cache \<Rightarrow> page \<Rightarrow> string option" where
  "getGzipCache c t = (case t of Forbidden \<Rightarrow> pc_forbiddenGzip c | Unavailable \<Rightarrow> pc_unavailableGzip c | Other \<Rightarrow> None)"

section \<open>Answering\<close>

definition acceptHTML :: "Request \<Rightarrow> bool" where
  "acceptHTML r = strContains (req_get r ''Accept'') ''text/html''"

definition useGzip :: "Config \<Rightarrow> Request \<Rightarrow> bool" where
  "useGzip cf request =
     (if \<not> gz_enabled (mw_gzip (cfg_middleware cf)) then False
      else strContains (req_get request ''Accept-Encoding'') ''gzip'')"

definition strictWrite :: "int \<Rightarrow> ResponseWriter \<Rightarrow> ResponseWriter" where
  "strictWrite code w = rw_Write ERRORSendProxy (rw_WriteHeader code w)"

definition minify :: "page_env \<Rightarrow> string \<Rightarrow> ResponseWriter \<Rightarrow> ResponseWriter" where
  "minify env b w =
     (let w = rw_set ''Content-Encoding'' ''gzip'' w
      in case pg_gzip env b of None \<Rightarrow> w | Some compressed \<Rightarrow> rw_Write compressed w)"

definition writeResponse :: "page_env \<Rightarrow> page_cache \<Rightarrow> Config \<Rightarrow> Request \<Rightarrow> page \<Rightarrow> ResponseWriter \<Rightarrow> ResponseWriter" where
  "writeResponse env c cf request t w =
     (if useGzip cf request
      then (case getGzipCache c t of
              Some gzipData \<Rightarrow> rw_Write gzipData (rw_set ''Content-Encoding'' ''gzip'' w)
            | None \<Rightarrow> minify env (CodeMap env t) w)
      else rw_Write (CodeMap env t) w)"

definition ErrorPage_Cache ::
    "page_env \<Rightarrow> page_cache \<Rightarrow> Config \<Rightarrow> int \<Rightarrow> Request \<Rightarrow> page \<Rightarrow> ResponseWriter \<Rightarrow> ResponseWriter" where
  "ErrorPage_Cache env c cf code r resType w =
     (if sec_strictMode (cfg_security cf) \<or> \<not> acceptHTML r then strictWrite code w
      else (let w = rw_WriteHeader 200 (rw_set ''Content-Type'' ''text/html; charset=utf-8'' w)
            in writeResponse env c cf r resType w))"

section \<open>What is sent\<close>

text \<open>
  C37. What an error is answered with: in strict mode, or to a client that does not ask for HTML,
  the status of the error and the fixed text; otherwise status 200 and the page. A client that
  accepts gzip gets the compressed page, but the header that says so is set after the headers were
  sent: no \<open>Content-Encoding\<close> ever reaches the client.
\<close>

theorem error_page_sent:
  assumes "rw_sent w = None" and "rw_body w = []" and "hdr_values (rw_header w) ''Content-Encoding'' = []"
    and "\<And>b. pg_gzip env b \<noteq> None"
  shows "let w' = ErrorPage_Cache env (InitErrorPageCache env) cf code r t w
    in if sec_strictMode (cfg_security cf) \<or> \<not> acceptHTML r
       then \<exists>h. rw_sent w' = Some (code, h) \<and> rw_body w' = ERRORSendProxy
       else \<exists>h. rw_sent w' = Some (200, h) \<and> hdr_values h ''Content-Encoding'' = []
          \<and> (if useGzip cf r then Some (rw_body w') = pg_gzip env (CodeMap env t) else rw_body w' = CodeMap env t)"
proof -
  define z where "z b = the (pg_gzip env b)" for b
  have z: "pg_gzip env b = Some (z b)" for b using assms(4) by (simp add: z_def)
  have keys: "canonicalKey ''Content-Type'' = ''Content-Type''" "canonicalKey ''Content-Encoding'' = ''Content-Encoding''"
    by code_simp+
  let ?h = "hdr_set ''Content-Type'' ''text/html; charset=utf-8'' (rw_header w)"
  have page: "rw_sent (ErrorPage_Cache env (InitErrorPageCache env) cf code r t w) = Some (200, ?h)
      \<and> (if useGzip cf r then Some (rw_body (ErrorPage_Cache env (InitErrorPageCache env) cf code r t w)) = pg_gzip env (CodeMap env t)
         else rw_body (ErrorPage_Cache env (InitErrorPageCache env) cf code r t w) = CodeMap env t)"
    if "\<not> (sec_strictMode (cfg_security cf) \<or> \<not> acceptHTML r)"
    using that assms(1,2) by (cases t)
      (simp_all add: ErrorPage_Cache_def writeResponse_def minify_def getGzipCache_def InitErrorPageCache_def
        CodeMap_def Let_def rw_set_def rw_WriteHeader_def rw_Write_def z)
  have enc: "hdr_values ?h ''Content-Encoding'' = []" using assms(3) by (simp add: hdr_values_set keys)
  have strict: "\<exists>h. rw_sent (strictWrite code w) = Some (code, h) \<and> rw_body (strictWrite code w) = ERRORSendProxy"
    using assms(1,2) by (simp add: strictWrite_def rw_WriteHeader_def rw_Write_def Let_def)
  show ?thesis
  proof (cases "sec_strictMode (cfg_security cf) \<or> \<not> acceptHTML r")
    case True
    then have "ErrorPage_Cache env (InitErrorPageCache env) cf code r t w = strictWrite code w"
      by (simp add: ErrorPage_Cache_def)
    with True strict show ?thesis by (simp only: Let_def if_True)
  next
    case False
    with page enc show ?thesis by (simp only: Let_def if_False) blast
  qed
qed

definition sample_pages :: page_env where
  "sample_pages = \<lparr>pg_forbidden = ''no'', pg_unavailable = ''down'', pg_gzip = \<lambda>b. Some (CHR ''Z'' # b)\<rparr>"

definition browser_request :: Request where
  "browser_request = \<lparr>r_method = ''GET'', r_host = ''a.com'', r_remote = [], r_proto = [], r_url = None,
     r_header = [(''Accept'', [''text/html'']), (''Accept-Encoding'', [''gzip''])], r_body = [], r_length = 0\<rparr>"

definition page_config :: Config where
  "page_config = the (Merge (\<lambda>_. (zero_PxyFrontConfig, True)) (\<lambda>_. (zero_PxyBackendConfig, True)) (Some GetDefaultConfig))"

theorem error_page_sent_witness:
  "\<exists>h. rw_sent (ErrorPage_Cache sample_pages (InitErrorPageCache sample_pages) page_config 502 browser_request Unavailable new_writer)
       = Some (200, h) \<and> hdr_values h ''Content-Encoding'' = []
     \<and> rw_body (ErrorPage_Cache sample_pages (InitErrorPageCache sample_pages) page_config 502 browser_request Unavailable new_writer)
       = ''Zdown''"
proof -
  have c: "\<not> sec_strictMode (cfg_security page_config)" "gz_enabled (mw_gzip (cfg_middleware page_config))"
    by (simp_all add: page_config_def Merge_def GetDefaultConfig_def Let_def zero_SecurityConfig_def zero_MiddlewareConfig_def)
  have h: "acceptHTML browser_request" "strContains (req_get browser_request ''Accept-Encoding'') ''gzip''"
    by code_simp+
  then have u: "useGzip page_config browser_request" using c by (simp add: useGzip_def)
  show ?thesis
    using error_page_sent [of new_writer sample_pages page_config 502 browser_request Unavailable] c h u
    by (simp add: Let_def new_writer_def sample_pages_def CodeMap_def hdr_values_def)
qed

end
