(* ===== verification/GrpcProxy.thy ===== *)
theory GrpcProxy
  imports GoHttp Config
begin

text \<open>
  The proxy from HTTP to gRPC (\<open>gateway/grpc_proxy\<close>) and the recorder that captures its answer
  (\<open>gateway/core/tansport.go\<close>). The JSON codec and the gRPC library (dialling, invoking a method,
  the metadata of a context) are parameters; \<open>'j\<close> stands for decoded JSON objects, \<open>'c\<close> for
  connections. An error is its text.
\<close>

section \<open>The recorder\<close>

record responseRecorder =
  rec_header :: Header
  rec_body :: string
  rec_status :: int

definition new_recorder :: responseRecorder where
  "new_recorder = \<lparr>rec_header = [], rec_body = [], rec_status = 0\<rparr>"

definition rec_Write :: "string \<Rightarrow> responseRecorder \<Rightarrow> responseRecorder" where
  "rec_Write data r =
     (let r = (if rec_status r = 0 then r\<lparr>rec_status := 200\<rparr> else r) in r\<lparr>rec_body := rec_body r @ data\<rparr>)"

definition rec_WriteHeader :: "int \<Rightarrow> responseRecorder \<Rightarrow> responseRecorder" where
  "rec_WriteHeader statusCode r = r\<lparr>rec_status := statusCode\<rparr>"

section \<open>Requests and responses\<close>

record 'j GrpcRequest =
  gq_service :: string
  gq_method :: string
  gq_data :: 'j
  gq_headers :: "(string, string) gomap"
  gq_timeout :: int

record 'j GrpcResponse =
  gs_success :: bool
  gs_data :: "'j option"
  gs_error :: string
  gs_code :: int
  gs_headers :: "(string, string) gomap"

record 'c GrpcProxy =
  gp_config :: GrpcProxyConfig
  gp_connPool :: "(string, 'c) gomap"

text \<open>
  \<open>gr_read\<close>: the error of reading a body, if any. \<open>gr_decode\<close>: the request structure of a body.
  \<open>gr_marshal\<close>, \<open>gr_unmarshal\<close>: request and response data. \<open>gr_invoke\<close>: a call of a method on a
  connection, with the timeout, the outgoing metadata if any, the method and the data. \<open>gr_incoming\<close>:
  the incoming metadata of the call's context. \<open>gr_encode\<close>: the JSON of a response.
\<close>

record ('j, 'c) grpc_env =
  gr_read :: "string \<Rightarrow> string option"
  gr_decode :: "string \<Rightarrow> string + 'j GrpcRequest"
  gr_marshal :: "'j \<Rightarrow> string + string"
  gr_unmarshal :: "string \<Rightarrow> 'j option"
  gr_dial :: "string \<Rightarrow> string + 'c"
  gr_invoke :: "'c \<Rightarrow> duration \<Rightarrow> (string, string) gomap option \<Rightarrow> string \<Rightarrow> string \<Rightarrow> string + string"
  gr_incoming :: "(string, string list) gomap option"
  gr_encode :: "'j GrpcResponse \<Rightarrow> string option"

definition NewGrpcProxy :: "GrpcProxyConfig \<Rightarrow> 'c GrpcProxy" where
  "NewGrpcProxy cfg = \<lparr>gp_config = cfg, gp_connPool = []\<rparr>"

text \<open>The global proxy: created only if it is enabled.\<close>

definition GetGrpcProxy :: "Config \<Rightarrow> 'c GrpcProxy option" where
  "GetGrpcProxy cfg =
     (if grc_enabled (ft_grpcProxy (cfg_features cfg)) then Some (NewGrpcProxy (ft_grpcProxy (cfg_features cfg))) else None)"

definition Grpc_IsEnabled :: "'c GrpcProxy option \<Rightarrow> bool" where
  "Grpc_IsEnabled p = (case p of None \<Rightarrow> False | Some p \<Rightarrow> grc_enabled (gp_config p))"

definition IsGrpcRequest :: "'c GrpcProxy \<Rightarrow> Request \<Rightarrow> bool" where
  "IsGrpcRequest p r =
     (if \<not> grc_enabled (gp_config p) then False
      else (let grpcFlag = req_get r (grc_grpcHeader (gp_config p)) in grpcFlag = ''true'' \<or> grpcFlag = ''1''))"

definition ValidateGrpcAddr :: "'c GrpcProxy \<Rightarrow> string \<Rightarrow> bool" where
  "ValidateGrpcAddr p addr =
     (if grc_hosts (gp_config p) = [] then False
      else list_ex (\<lambda>host. addr = host \<or> hasPrefix addr (host @ '':'')) (grc_hosts (gp_config p)))"

section \<open>Handling a request\<close>

definition writeGrpcResponse :: "('j, 'c) grpc_env \<Rightarrow> 'j GrpcResponse \<Rightarrow> responseRecorder \<Rightarrow> responseRecorder" where
  "writeGrpcResponse env resp w =
     (let w = w\<lparr>rec_header := hdr_set ''Content-Type'' ''application/json'' (rec_header w)\<rparr>;
          w = rec_WriteHeader (gs_code resp) w
      in case gr_encode env resp of None \<Rightarrow> w | Some json \<Rightarrow> rec_Write json w)"

definition error_response :: "string \<Rightarrow> int \<Rightarrow> 'j GrpcResponse" where
  "error_response message code = \<lparr>gs_success = False, gs_data = None, gs_error = message, gs_code = code, gs_headers = []\<rparr>"

definition writeErrorResponse :: "('j, 'c) grpc_env \<Rightarrow> string \<Rightarrow> int \<Rightarrow> responseRecorder \<Rightarrow> responseRecorder" where
  "writeErrorResponse env message code w = writeGrpcResponse env (error_response message code) w"

definition parseHttpRequest :: "('j, 'c) grpc_env \<Rightarrow> Request \<Rightarrow> string + 'j GrpcRequest" where
  "parseHttpRequest env r =
     (case gr_read env (r_body r) of
        Some err \<Rightarrow> Inl (''failed to read request body: '' @ err)
      | None \<Rightarrow>
         (case gr_decode env (r_body r) of
            Inl err \<Rightarrow> Inl (''failed to unmarshal request: '' @ err)
          | Inr grpcReq \<Rightarrow>
              if gq_service grpcReq = [] then Inl ''service field is required''
              else if gq_method grpcReq = [] then Inl ''method field is required''
              else Inr (if gq_timeout grpcReq \<le> 0 then grpcReq\<lparr>gq_timeout := 30\<rparr> else grpcReq)))"

definition getConnection :: "('j, 'c) grpc_env \<Rightarrow> string \<Rightarrow> 'c GrpcProxy \<Rightarrow> 'c GrpcProxy \<times> (string + 'c)" where
  "getConnection env addr p =
     (case gm_get (gp_connPool p) addr of
        Some conn \<Rightarrow> (p, Inr conn)
      | None \<Rightarrow>
         (case gr_dial env addr of
            Inl err \<Rightarrow> (p, Inl (''failed to connect to gRPC server '' @ addr @ '': '' @ err))
          | Inr conn \<Rightarrow> (p\<lparr>gp_connPool := gm_put addr conn (gp_connPool p)\<rparr>, Inr conn)))"

text \<open>The status of a failed call, from the text of its error.\<close>

definition error_code :: "string \<Rightarrow> int" where
  "error_code err =
     (if strContains err ''NotFound'' then 404
      else if strContains err ''InvalidArgument'' then 400
      else if strContains err ''Unauthenticated'' then 401
      else if strContains err ''PermissionDenied'' then 403
      else 500)"

definition first_values :: "(string \<times> string list) list \<Rightarrow> (string, string) gomap" where
  "first_values md = fold (\<lambda>(k, v) hs. case v of [] \<Rightarrow> hs | x # _ \<Rightarrow> gm_put k x hs) md []"

definition executeGrpcCall ::
    "('j, 'c) grpc_env \<Rightarrow> string \<Rightarrow> 'j GrpcRequest \<Rightarrow> 'c GrpcProxy \<Rightarrow> 'c GrpcProxy \<times> (string + 'j GrpcResponse)" where
  "executeGrpcCall env addr req p =
     (let (p, conn) = getConnection env addr p
      in case conn of
           Inl err \<Rightarrow> (p, Inl (''failed to get connection: '' @ err))
         | Inr conn \<Rightarrow>
            (let timeout = wrap64 (gq_timeout req * Second);
                 md = (if 0 < length (gq_headers req) then Some (gq_headers req) else None);
                 fullMethod = ''/'' @ gq_service req @ ''/'' @ gq_method req
             in case gr_marshal env (gq_data req) of
                  Inl err \<Rightarrow> (p, Inl (''failed to marshal request data: '' @ err))
                | Inr reqData \<Rightarrow>
                   (let hs = (case gr_incoming env of None \<Rightarrow> [] | Some inc \<Rightarrow> first_values inc)
                    in case gr_invoke env conn timeout md fullMethod reqData of
                         Inl err \<Rightarrow> (p, Inr \<lparr>gs_success = False, gs_data = None, gs_error = err,
                           gs_code = error_code err, gs_headers = hs\<rparr>)
                       | Inr respData \<Rightarrow> (p, Inr \<lparr>gs_success = True, gs_data = gr_unmarshal env respData, gs_error = [],
                           gs_code = 200, gs_headers = hs\<rparr>))))"

definition HandleGrpcRequest ::
    "('j, 'c) grpc_env \<Rightarrow> Request \<Rightarrow> 'c GrpcProxy \<times> responseRecorder \<Rightarrow> 'c GrpcProxy \<times> responseRecorder" where
  "HandleGrpcRequest env r pw =
     (let (p, w) = pw;
          grpcAddr = req_get r (grc_grpcAddr (gp_config p))
      in if grpcAddr = [] then (p, writeErrorResponse env ''missing gRPC address header'' 400 w)
         else if \<not> ValidateGrpcAddr p grpcAddr then (p, writeErrorResponse env ''gRPC address not allowed'' 403 w)
         else (case parseHttpRequest env r of
            Inl err \<Rightarrow> (p, writeErrorResponse env (''invalid request format: '' @ err @ [CHR 0x0A]) 400 w)
          | Inr grpcReq \<Rightarrow>
             (case executeGrpcCall env grpcAddr grpcReq p of
                (p, Inl err) \<Rightarrow> (p, writeErrorResponse env (''gRPC call failed: '' @ err) 500 w)
              | (p, Inr resp) \<Rightarrow> (p, writeGrpcResponse env resp w))))"

definition Grpc_Close :: "'c GrpcProxy \<Rightarrow> 'c GrpcProxy" where
  "Grpc_Close p = p\<lparr>gp_connPool := []\<rparr>"

section \<open>Who is called\<close>

definition listed :: "GrpcProxyConfig \<Rightarrow> string \<Rightarrow> bool" where
  "listed cfg addr \<longleftrightarrow> (\<exists>host \<in> set (grc_hosts cfg). addr = host \<or> hasPrefix addr (host @ '':''))"

definition pool_allowed :: "'c GrpcProxy \<Rightarrow> bool" where
  "pool_allowed p \<longleftrightarrow> (\<forall>addr. gm_get (gp_connPool p) addr \<noteq> None \<longrightarrow> listed (gp_config p) addr)"

lemma validate_hosts:
  "ValidateGrpcAddr p addr \<longleftrightarrow> listed (gp_config p) addr"
  by (auto simp: ValidateGrpcAddr_def listed_def list_ex_iff)

lemma call_pool:
  assumes "executeGrpcCall env addr req p = (p', res)" and "pool_allowed p" and "ValidateGrpcAddr p addr"
  shows "pool_allowed p' \<and> gp_config p' = gp_config p"
proof -
  have "p' = fst (getConnection env addr p)"
    using assms(1) by (auto simp: executeGrpcCall_def Let_def case_prod_unfold split: sum.splits)
  then show ?thesis
    using assms(2,3) unfolding pool_allowed_def validate_hosts
    by (auto simp: getConnection_def split: option.splits sum.splits)
qed

lemma handle_pool:
  assumes "HandleGrpcRequest env r (p, w) = (p', w')" and "pool_allowed p"
  shows "pool_allowed p' \<and> gp_config p' = gp_config p"
  using assms call_pool [where env = env and p = p and p' = p']
  by (auto simp: HandleGrpcRequest_def Let_def split: if_splits sum.splits prod.splits)

lemma call_status:
  "executeGrpcCall env addr req p = (p', Inr resp) \<Longrightarrow> gs_code resp \<in> {200, 400, 401, 403, 404, 500}"
  by (auto simp: executeGrpcCall_def error_code_def Let_def case_prod_unfold split: sum.splits if_splits)

lemma written_status:
  "rec_status (writeGrpcResponse env resp new_recorder) = (if gs_code resp = 0 \<and> gr_encode env resp \<noteq> None then 200 else gs_code resp)"
  by (simp add: writeGrpcResponse_def Let_def new_recorder_def rec_WriteHeader_def rec_Write_def split: option.splits)

definition well_formed :: "('j, 'c) grpc_env \<Rightarrow> Request \<Rightarrow> bool" where
  "well_formed env r \<longleftrightarrow> gr_read env (r_body r) = None
     \<and> (case gr_decode env (r_body r) of Inl _ \<Rightarrow> False | Inr q \<Rightarrow> gq_service q \<noteq> [] \<and> gq_method q \<noteq> [])"

lemma parse_well_formed: "(\<exists>q. parseHttpRequest env r = Inr q) \<longleftrightarrow> well_formed env r"
  by (auto simp: parseHttpRequest_def well_formed_def split: option.split sum.split)

definition named_addr :: "GrpcProxyConfig \<Rightarrow> Request \<Rightarrow> string" where
  "named_addr cfg r = req_get r (grc_grpcAddr cfg)"

lemma handle_status:
  assumes "HandleGrpcRequest env r (p, new_recorder) = (p', w)"
  shows "rec_status w \<in> {200, 400, 401, 403, 404, 500}
    \<and> (rec_status w = 200 \<longrightarrow> ValidateGrpcAddr p (named_addr (gp_config p) r) \<and> well_formed env r)
    \<and> (named_addr (gp_config p) r \<noteq> [] \<and> \<not> ValidateGrpcAddr p (named_addr (gp_config p) r) \<longrightarrow> rec_status w = 403 \<and> p' = p)"
proof (cases "named_addr (gp_config p) r = [] \<or> \<not> ValidateGrpcAddr p (named_addr (gp_config p) r)")
  case True
  with assms show ?thesis
    by (auto simp: HandleGrpcRequest_def named_addr_def Let_def writeErrorResponse_def written_status error_response_def
        split: if_splits)
next
  case ok: False
  show ?thesis
  proof (cases "parseHttpRequest env r")
    case (Inl err)
    with ok assms show ?thesis
      by (auto simp: HandleGrpcRequest_def named_addr_def Let_def writeErrorResponse_def written_status error_response_def)
  next
    case (Inr q)
    obtain p2 res where call: "executeGrpcCall env (named_addr (gp_config p) r) q p = (p2, res)" by fastforce
    have "well_formed env r" using Inr parse_well_formed by blast
    with ok assms Inr call show ?thesis
      by (cases res) (auto simp: HandleGrpcRequest_def named_addr_def Let_def writeErrorResponse_def written_status
          error_response_def dest: call_status)
  qed
qed

text \<open>The requests of a run, each with a recorder of its own.\<close>

fun grpc_run :: "('j, 'c) grpc_env \<Rightarrow> Request list \<Rightarrow> 'c GrpcProxy \<Rightarrow> 'c GrpcProxy \<times> int list" where
  "grpc_run env [] p = (p, [])"
| "grpc_run env (r # rs) p =
     (let (p, w) = HandleGrpcRequest env r (p, new_recorder); (p, ws) = grpc_run env rs p in (p, rec_status w # ws))"

definition answer_ok :: "('j, 'c) grpc_env \<Rightarrow> GrpcProxyConfig \<Rightarrow> Request \<Rightarrow> int \<Rightarrow> bool" where
  "answer_ok env cfg r st \<longleftrightarrow> st \<in> {200, 400, 401, 403, 404, 500}
     \<and> (st = 200 \<longrightarrow> listed cfg (named_addr cfg r) \<and> well_formed env r)
     \<and> (named_addr cfg r \<noteq> [] \<and> \<not> listed cfg (named_addr cfg r) \<longrightarrow> st = 403)"

lemma grpc_run_ok:
  "pool_allowed p \<Longrightarrow> grpc_run env rs p = (p', ws) \<Longrightarrow>
     pool_allowed p' \<and> gp_config p' = gp_config p \<and> list_all2 (answer_ok env (gp_config p)) rs ws"
proof (induction rs arbitrary: p p' ws)
  case (Cons r rs)
  obtain p1 w where h: "HandleGrpcRequest env r (p, new_recorder) = (p1, w)" by fastforce
  obtain ws1 where rest: "grpc_run env rs p1 = (p', ws1)" "ws = rec_status w # ws1"
    using Cons.prems(2) h by (auto simp: Let_def split: prod.splits)
  note pool = handle_pool [OF h Cons.prems(1)]
  have "answer_ok env (gp_config p) r (rec_status w)"
    using handle_status [OF h] unfolding answer_ok_def validate_hosts by blast
  then show ?case using pool Cons.IH [OF _ rest(1)] rest(2) by auto
qed simp

text \<open>
  C19. Over any run of requests on a new proxy: connections exist only to addresses on the configured
  list; every answer has one of six status codes; an address off the list is answered 403; and
  200 is only ever answered to a well-formed request that names a listed address.
\<close>

theorem grpc_whitelist:
  fixes env :: "('a, 'b) grpc_env"
  shows "case grpc_run env rs (NewGrpcProxy cfg) of (p, ws) \<Rightarrow>
     (\<forall>addr. gm_get (gp_connPool p) addr \<noteq> None \<longrightarrow> listed cfg addr) \<and> list_all2 (answer_ok env cfg) rs ws"
proof -
  obtain p ws where run: "grpc_run env rs (NewGrpcProxy cfg) = (p, ws)" by fastforce
  have "pool_allowed (NewGrpcProxy cfg :: 'b GrpcProxy)" "gp_config (NewGrpcProxy cfg :: 'b GrpcProxy) = cfg"
    by (simp_all add: pool_allowed_def NewGrpcProxy_def)
  with grpc_run_ok [OF _ run] run show ?thesis by (auto simp: pool_allowed_def)
qed

text \<open>A host that is listed without a port admits every port, and one listed with a port only that.\<close>

definition sample_grpc :: GrpcProxyConfig where
  "sample_grpc = \<lparr>grc_enabled = True, grc_hosts = [''10.0.0.1''], grc_grpcHeader = ''X-Grpc'', grc_grpcAddr = ''X-Grpc-Addr''\<rparr>"

text \<open>A gRPC library whose connections are named by their addresses and answer with an empty message.\<close>

definition sample_grpc_env :: "(string, string) grpc_env" where
  "sample_grpc_env = \<lparr>gr_read = \<lambda>_. None,
     gr_decode = \<lambda>_. Inr \<lparr>gq_service = ''svc'', gq_method = ''Get'', gq_data = ''{}'', gq_headers = [], gq_timeout = 0\<rparr>,
     gr_marshal = Inr, gr_unmarshal = Some, gr_dial = Inr, gr_invoke = \<lambda>_ _ _ _ _. Inr ''{}'', gr_incoming = None,
     gr_encode = \<lambda>_. Some ''{}''\<rparr>"

definition grpc_request :: "string \<Rightarrow> Request" where
  "grpc_request addr = \<lparr>r_method = ''POST'', r_host = [], r_remote = [], r_proto = [], r_url = None,
     r_header = [(''X-Grpc-Addr'', [addr])], r_body = [], r_length = 0\<rparr>"

theorem grpc_whitelist_witness:
  "snd (grpc_run sample_grpc_env [grpc_request ''10.0.0.1:80'', grpc_request ''10.0.0.2:80''] (NewGrpcProxy sample_grpc)) = [200, 403]
   \<and> listed sample_grpc (named_addr sample_grpc (grpc_request ''10.0.0.1:80''))"
proof -
  let ?rs = "[grpc_request ''10.0.0.1:80'', grpc_request ''10.0.0.2:80'']"
  have run: "snd (grpc_run sample_grpc_env ?rs (NewGrpcProxy sample_grpc)) = [200, 403]" by code_simp
  then show ?thesis
    using grpc_whitelist [where env = sample_grpc_env and rs = ?rs and cfg = sample_grpc]
    by (auto simp: answer_ok_def split: prod.splits)
qed

end
