(* ===== verification/CoreProxy.thy ===== *)
theory CoreProxy
  imports PreHandlers Modifiers GrpcProxy ErrorPage Breaker
begin

text \<open>
  The reverse proxy itself (\<open>gateway/core\<close>): the director, the transport, the error handler, and how
  \<open>httputil.ReverseProxy\<close> calls them. The gateway's singletons are the fields of one record that every
  call threads through; the network (the \<open>http.RoundTripper\<close> below the gateway's own) is a parameter.
\<close>

section \<open>The gateway's state\<close>

record ('r, 'c) gateway =
  gw_cfg :: Config
  gw_runtime :: runtime
  gw_ruler :: Ruler
  gw_cache :: balancer_cache
  gw_handlers :: "'r PreHandler list"
  gw_recorder :: "FlowRecorder option"
  gw_breaker :: Breaker
  gw_modifiers :: "Modifier list"
  gw_grpc :: "'c GrpcProxy option"
  gw_pages :: page_cache

text \<open>
  \<open>en_http\<close> sends a request and returns an error or a response; \<open>en_random\<close> is the random choice of
  the balancer, \<open>en_now\<close> the clock.
\<close>

record ('r, 'j, 'c) core_env =
  en_random :: "int \<Rightarrow> int \<Rightarrow> int"
  en_now :: time
  en_pre :: "'r pre_ctx"
  en_mod :: mod_env
  en_page :: page_env
  en_grpc :: "('j, 'c) grpc_env"
  en_http :: "Request \<Rightarrow> string + Response"

definition SchemeSandwich :: string where "SchemeSandwich = ''ProxySandwich''"
definition SchemeGrpc :: string where "SchemeGrpc = ''ProxyGrpc''"
definition SandwichBucketLimit :: string where "SandwichBucketLimit = ''SandwichBucketLimit''"
definition SandwichDomainNotAllow :: string where "SandwichDomainNotAllow = ''SandwichDomainNotAllow''"

section \<open>Director\<close>

text \<open>The events are what the director and the resolver ask the statistics to count.\<close>

definition ProxyDirector ::
    "('r, 'j, 'c) core_env \<Rightarrow> ('r, 'c) gateway \<Rightarrow> Request \<Rightarrow> (('r, 'c) gateway \<times> Request \<times> stat_event list) outcome" where
  "ProxyDirector env gw request =
     (if Grpc_IsEnabled (gw_grpc gw) \<and> (case gw_grpc gw of None \<Rightarrow> False | Some proxy \<Rightarrow> IsGrpcRequest proxy request)
      then Return (gw, request\<lparr>r_url := Some (empty_url\<lparr>u_scheme := SchemeGrpc\<rparr>)\<rparr>, [])
      else (let counted = [EvAdd Total, EvDomain (r_host request), EvGeo (r_remote request)] in
        bind_outcome (run_handlers PreHandler_Handle (en_pre env) (gw_handlers gw) (gw_recorder gw) request)
          (\<lambda>(handlers, recorder, request, err).
            let gw = gw\<lparr>gw_handlers := handlers, gw_recorder := recorder\<rparr> in
            case err of
              Some e \<Rightarrow> Return (gw, request\<lparr>r_url := Some (empty_url\<lparr>u_scheme := SchemeSandwich\<rparr>)\<rparr>, counted)
            | None \<Rightarrow>
                bind_outcome (Resolver_Parse (en_random env) (gw_runtime gw) (en_now env) (gw_ruler gw) request (gw_cache gw))
                  (\<lambda>(request, cache, url, events).
                    Return (gw\<lparr>gw_cache := cache\<rparr>, request\<lparr>r_url := url\<rparr>, counted @ events)))))"

section \<open>Transport\<close>

definition handleGrpcProxy ::
    "('j, 'c) grpc_env \<Rightarrow> 'c GrpcProxy option \<Rightarrow> Request \<Rightarrow> 'c GrpcProxy option \<times> Response" where
  "handleGrpcProxy env proxy req =
     (case proxy of
        None \<Rightarrow> (None, \<lparr>resp_status = 503, resp_header = [], resp_body = [], resp_length = 0, resp_request = req\<rparr>)
      | Some p \<Rightarrow>
         (let (p, recorder) = HandleGrpcRequest env req (p, new_recorder)
          in (Some p, \<lparr>resp_status = rec_status recorder, resp_header = rec_header recorder, resp_body = rec_body recorder,
                resp_length = int (length (rec_body recorder)), resp_request = req\<rparr>)))"

definition RoundTrip ::
    "('r, 'j, 'c) core_env \<Rightarrow> ('r, 'c) gateway \<Rightarrow> Request \<Rightarrow> ('r, 'c) gateway \<times> (string + Response)" where
  "RoundTrip env gw req =
     (case r_url req of
        None \<Rightarrow> (gw, en_http env req)
      | Some url \<Rightarrow>
          if u_scheme url = SchemeGrpc
          then (let (proxy, resp) = handleGrpcProxy (en_grpc env) (gw_grpc gw) req
                in (gw\<lparr>gw_grpc := proxy\<rparr>, Inr resp))
          else (gw, en_http env req))"

section \<open>Error handler\<close>

definition ProxyErrorHandler ::
    "('r, 'j, 'c) core_env \<Rightarrow> ('r, 'c) gateway \<Rightarrow> ResponseWriter \<Rightarrow> Request \<Rightarrow>
     (('r, 'c) gateway \<times> ResponseWriter \<times> stat_event list) outcome" where
  "ProxyErrorHandler env gw writer request =
     (let counted = [EvAdd Fail];
          flag = req_get request SandwichInternalFlag;
          page = (\<lambda>code t. ErrorPage_Cache (en_page env) (gw_pages gw) (gw_cfg gw) code request t writer)
      in if flag = SandwichBucketLimit then Return (gw, rw_WriteHeader 504 writer, counted)
         else if flag = SandwichReqLimit then Return (gw, page 429 Forbidden, counted)
         else if flag = SandwichDomainNotAllow then Return (gw, page 403 Forbidden, counted)
         else if flag = SandwichBackendError
         then bind_outcome (Breaker_Set (r_host request) (gw_breaker gw)) (\<lambda>(b, ok).
                Return (gw\<lparr>gw_breaker := b\<rparr>, page 502 Unavailable, counted))
         else Return (gw, page 502 Unavailable, counted))"

section \<open>One request through the proxy\<close>

text \<open>
  \<open>ReverseProxy.ServeHTTP\<close>, as \<open>NewHttpProxy\<close> and \<open>NewFastProxy\<close> configure it: director, transport,
  and then the response modifiers or, on an error, the error handler.
\<close>

datatype reply = Responded Response | Failed ResponseWriter

definition ServeHTTP ::
    "('r, 'j, 'c) core_env \<Rightarrow> ('r, 'c) gateway \<Rightarrow> Request \<Rightarrow> (('r, 'c) gateway \<times> reply \<times> stat_event list) outcome" where
  "ServeHTTP env gw request =
     bind_outcome (ProxyDirector env gw request) (\<lambda>(gw, request, events).
       case RoundTrip env gw request of
         (gw, Inl err) \<Rightarrow>
           bind_outcome (ProxyErrorHandler env gw new_writer request) (\<lambda>(gw, writer, events').
             Return (gw, Failed writer, events @ events'))
       | (gw, Inr response) \<Rightarrow>
           bind_outcome (ProxyModifyResponse (en_mod env) (gw_cfg gw) (gw_modifiers gw) response) (\<lambda>(mods, response).
             Return (gw\<lparr>gw_modifiers := mods\<rparr>, Responded response, events)))"

section \<open>Creation\<close>

datatype transport_kind = OriginTransport | FastTransport

text \<open>The shared transport is created by the first call, whatever later calls ask for.\<close>

definition getOptimizedTransport :: "string \<Rightarrow> transport_kind option \<Rightarrow> transport_kind" where
  "getOptimizedTransport transport shared =
     (case shared of
        Some t \<Rightarrow> t
      | None \<Rightarrow> if transport = ''http'' then OriginTransport else if transport = ''fasthttp'' then FastTransport else OriginTransport)"

record ReverseProxyConf =
  rp_transport :: transport_kind
  rp_flushInterval :: duration
  rp_bufSize :: int

definition new_proxy :: "string \<Rightarrow> Config \<Rightarrow> transport_kind option \<Rightarrow> ReverseProxyConf" where
  "new_proxy transport cfg shared =
     \<lparr>rp_transport = getOptimizedTransport transport shared,
      rp_flushInterval = wrap64 (DefaultInt64 (px_flushInterval (cfg_coreProxy cfg)) 100 * 10 ^ 6),
      rp_bufSize = DefaultInt (px_bufSize (cfg_coreProxy cfg)) (32 * 1024)\<rparr>"

definition NewHttpProxy :: "Config \<Rightarrow> transport_kind option \<Rightarrow> ReverseProxyConf" where
  "NewHttpProxy = new_proxy ''http''"

definition NewFastProxy :: "Config \<Rightarrow> transport_kind option \<Rightarrow> ReverseProxyConf" where
  "NewFastProxy = new_proxy ''fasthttp''"

text \<open>\<open>Proxy.Create\<close>: the handler is created once.\<close>

definition Proxy_Create :: "Config \<Rightarrow> transport_kind option \<Rightarrow> ReverseProxyConf option \<Rightarrow> ReverseProxyConf" where
  "Proxy_Create cfg shared existing =
     (case existing of
        Some h \<Rightarrow> h
      | None \<Rightarrow>
          if px_proxyMode (cfg_coreProxy cfg) = ''http'' then NewHttpProxy cfg shared
          else if px_proxyMode (cfg_coreProxy cfg) = ''fasthttp'' then NewFastProxy cfg shared
          else NewHttpProxy cfg shared)"

text \<open>A buffer pool: idle buffers as their length and capacity; \<open>Put\<close> drops those of another capacity.\<close>

record syncBufferPool =
  bp_pool :: "(int \<times> int) list"
  bp_bufSize :: int

definition getBufferPool :: "int \<Rightarrow> syncBufferPool" where
  "getBufferPool bufSize = \<lparr>bp_pool = [], bp_bufSize = bufSize\<rparr>"

definition Buffer_Get :: "nat option \<Rightarrow> syncBufferPool \<Rightarrow> (syncBufferPool \<times> (int \<times> int)) outcome" where
  "Buffer_Get choice s =
     (case pool_take choice (bp_pool s) of
        (Some buf, pool) \<Rightarrow> Return (s\<lparr>bp_pool := pool\<rparr>, buf)
      | (None, pool) \<Rightarrow> if bp_bufSize s < 0 then Panic else Return (s, (bp_bufSize s, bp_bufSize s)))"

definition Buffer_Put :: "int \<times> int \<Rightarrow> syncBufferPool \<Rightarrow> syncBufferPool" where
  "Buffer_Put buf s = (if snd buf = bp_bufSize s then s\<lparr>bp_pool := buf # bp_pool s\<rparr> else s)"

section \<open>Where the director sends a request\<close>

fun can_refuse :: "'r PreHandler \<Rightarrow> bool" where
  "can_refuse (DomainHandler d) = True"
| "can_refuse (ImageHandler i) = ip_enabled i"
| "can_refuse h = False"

lemma limiter_no_error: "RateLimiter_Handle ctx h rcd r = Return (h', rcd', r', err) \<Longrightarrow> err = None"
  by (auto simp: RateLimiter_Handle_def Let_def case_prod_unfold bind_outcome_Return split: if_splits option.splits)

lemma handler_refuses:
  "PreHandler_Handle ctx h rcd r = Return (h', rcd', r', Some e) \<Longrightarrow> can_refuse h"
  by (cases h) (auto simp: bind_outcome_Return ImageProtect_Handle_def dest: limiter_no_error split: if_splits)

lemma handlers_refuse:
  "run_handlers PreHandler_Handle ctx hs rcd r = Return (hs', rcd', r', Some e) \<Longrightarrow> \<exists>h \<in> set hs. can_refuse h"
proof (induction hs arbitrary: rcd r hs')
  case (Cons h hs)
  then obtain h1 rcd1 r1 e1 where h: "PreHandler_Handle ctx h rcd r = Return (h1, rcd1, r1, e1)"
    by (auto simp: bind_outcome_Return)
  with Cons show ?case by (cases e1) (auto simp: bind_outcome_Return dest: handler_refuses)
qed simp

definition grpc_request :: "('r, 'c) gateway \<Rightarrow> Request \<Rightarrow> bool" where
  "grpc_request gw req \<longleftrightarrow> (\<exists>p. gw_grpc gw = Some p \<and> IsGrpcRequest p req)"

lemma grpc_request_iff:
  "(Grpc_IsEnabled (gw_grpc gw) \<and> (case gw_grpc gw of None \<Rightarrow> False | Some proxy \<Rightarrow> IsGrpcRequest proxy req)) \<longleftrightarrow> grpc_request gw req"
  by (auto simp: grpc_request_def Grpc_IsEnabled_def IsGrpcRequest_def split: option.splits if_splits)

lemma director_cases:
  assumes "ProxyDirector env gw req = Return (gw', req', events)" and "\<not> grpc_request gw req"
  obtains hs rcd req1 err where "run_handlers PreHandler_Handle (en_pre env) (gw_handlers gw) (gw_recorder gw) req = Return (hs, rcd, req1, err)"
    "err \<noteq> None \<Longrightarrow> gw' = gw\<lparr>gw_handlers := hs, gw_recorder := rcd\<rparr> \<and> req' = req1\<lparr>r_url := Some (empty_url\<lparr>u_scheme := SchemeSandwich\<rparr>)\<rparr>
       \<and> events = [EvAdd Total, EvDomain (r_host req), EvGeo (r_remote req)]"
    "err = None \<Longrightarrow> \<exists>req2 cache url evs.
       Resolver_Parse (en_random env) (gw_runtime gw) (en_now env) (gw_ruler gw) req1 (gw_cache gw) = Return (req2, cache, url, evs)
       \<and> gw' = gw\<lparr>gw_handlers := hs, gw_recorder := rcd, gw_cache := cache\<rparr> \<and> req' = req2\<lparr>r_url := url\<rparr>
       \<and> events = [EvAdd Total, EvDomain (r_host req), EvGeo (r_remote req)] @ evs"
proof -
  from assms obtain hs rcd req1 err where
    r: "run_handlers PreHandler_Handle (en_pre env) (gw_handlers gw) (gw_recorder gw) req = Return (hs, rcd, req1, err)"
    by (auto simp: ProxyDirector_def grpc_request_iff bind_outcome_Return Let_def)
  show thesis
    using assms r by (intro that [OF r]) (auto simp: ProxyDirector_def grpc_request_iff bind_outcome_Return Let_def split: option.splits)
qed


text \<open>A gateway with the domain check and the sanitizer, in front of one back end service.\<close>

definition sample_core_env :: "(unit, unit, unit) core_env" where
  "sample_core_env = \<lparr>en_random = \<lambda>lo hi. lo, en_now = 0, en_pre = sample_ctx, en_mod = plain_mod_env, en_page = sample_pages,
     en_grpc = \<lparr>gr_read = \<lambda>_. None, gr_decode = \<lambda>_. Inl [], gr_marshal = \<lambda>_. Inl [], gr_unmarshal = \<lambda>_. None,
       gr_dial = \<lambda>_. Inl [], gr_invoke = \<lambda>_ _ _ _ _. Inl [], gr_incoming = None, gr_encode = \<lambda>_. None\<rparr>,
     en_http = \<lambda>_. Inl ''unsupported protocol scheme''\<rparr>"

definition sample_gateway :: "(unit, unit) gateway" where
  "sample_gateway = \<lparr>gw_cfg = page_config\<lparr>cfg_security := zero_SecurityConfig\<lparr>sec_strictMode := True\<rparr>\<rparr>,
     gw_runtime = sample_rt, gw_ruler = NewRuler sample_cfg sample_rt,
     gw_cache = [], gw_handlers = [DomainHandler \<lparr>pcd_enabled = False, pcd_allowedDomains = [''a.com'']\<rparr>],
     gw_recorder = None, gw_breaker = NewBreaker \<lparr>brk_bucket = 0, brk_maxError = 0, brk_reset = 60\<rparr>,
     gw_modifiers = [], gw_grpc = None, gw_pages = InitErrorPageCache sample_pages\<rparr>"


section \<open>What a failed request is answered with\<close>

lemma handler_flag:
  assumes "PreHandler_Handle ctx h rcd r = Return (h', rcd', r', err)"
  shows "req_get r' SandwichInternalFlag \<in> {req_get r SandwichInternalFlag, [], SandwichReqLimit}"
proof (cases h)
  case (SanitizerHandler s)
  with assms show ?thesis
    using fold_del_get [where P = "\<lambda>name. gm_get (hs_keep s) name \<noteq> None" and ord = "pc_deny_order ctx" and r = r and k = SandwichInternalFlag]
    by (auto simp: Sanitizer_Access_def split: if_splits)
next
  case (LimiterHandler l)
  with assms show ?thesis
    by (auto simp: bind_outcome_Return RateLimiter_Handle_def RequestFlag_def SandwichInternalFlag_def Let_def case_prod_unfold
        split: if_splits option.splits)
qed (use assms in auto)

lemma handlers_flag:
  "run_handlers PreHandler_Handle ctx hs rcd r = Return (hs', rcd', r', err) \<Longrightarrow>
     req_get r' SandwichInternalFlag \<in> {req_get r SandwichInternalFlag, [], SandwichReqLimit}"
proof (induction hs arbitrary: rcd r hs')
  case (Cons h hs)
  then obtain h1 rcd1 r1 e1 where h: "PreHandler_Handle ctx h rcd r = Return (h1, rcd1, r1, e1)"
    by (auto simp: bind_outcome_Return)
  with Cons handler_flag [OF h] show ?case by (cases e1) (fastforce simp: bind_outcome_Return)+
qed simp

text \<open>The status of an error, as the error handler chooses it.\<close>

definition error_status :: "string \<Rightarrow> int" where
  "error_status flag =
     (if flag = SandwichBucketLimit then 504 else if flag = SandwichReqLimit then 429
      else if flag = SandwichDomainNotAllow then 403 else 502)"

lemma error_handler_strict:
  assumes "br_serviceBucket (gw_breaker gw) = []" and "sec_strictMode (cfg_security (gw_cfg gw))"
  shows "\<exists>w h. ProxyErrorHandler env gw new_writer req = Return (gw, w, [EvAdd Fail])
    \<and> rw_sent w = Some (error_status (req_get req SandwichInternalFlag), h)"
  using assms
  by (auto simp: ProxyErrorHandler_def error_status_def Let_def Breaker_Set_def Map_Get_def ErrorPage_Cache_def strictWrite_def
      rw_WriteHeader_def rw_Write_def new_writer_def)

text \<open>The director did not address the request to any server.\<close>

definition not_routed :: "Request \<Rightarrow> bool" where
  "not_routed req \<longleftrightarrow> (case r_url req of None \<Rightarrow> True | Some url \<Rightarrow> u_scheme url = SchemeSandwich)"

text \<open>
  In strict mode, a request that a handler refuses or that does not resolve is answered 502, or
  429 if the limiter marked it on the way, never 403 or 504 (no code sets those marks), provided the
  client did not send the mark itself. The failure is counted, and the breaker, about whose domains
  nobody ever asks, records nothing.
\<close>

theorem refused_status:
  assumes "ProxyDirector env gw req = Return (gw1, req1, events1)" and "not_routed req1"
    and "req_get req SandwichInternalFlag = []"
    and fails: "\<And>r. not_routed r \<Longrightarrow> \<exists>e. en_http env r = Inl e"
    and "br_serviceBucket (gw_breaker gw) = []" and "sec_strictMode (cfg_security (gw_cfg gw))"
  shows "\<exists>gw' w events code h. ServeHTTP env gw req = Return (gw', Failed w, events)
    \<and> rw_sent w = Some (code, h) \<and> code \<in> {429, 502} \<and> EvAdd Fail \<in> set events
    \<and> gw_breaker gw' = gw_breaker gw"
proof -
  have grpc: "\<not> grpc_request gw req"
    using assms(1,2) by (auto simp: ProxyDirector_def grpc_request_iff not_routed_def SchemeGrpc_def SchemeSandwich_def)
  obtain hs rcd r2 err where
    handlers: "run_handlers PreHandler_Handle (en_pre env) (gw_handlers gw) (gw_recorder gw) req = Return (hs, rcd, r2, err)"
    and refused: "err \<noteq> None \<Longrightarrow> gw1 = gw\<lparr>gw_handlers := hs, gw_recorder := rcd\<rparr>
       \<and> req1 = r2\<lparr>r_url := Some (empty_url\<lparr>u_scheme := SchemeSandwich\<rparr>)\<rparr>"
    and go: "err = None \<Longrightarrow> \<exists>req2 cache url evs.
       Resolver_Parse (en_random env) (gw_runtime gw) (en_now env) (gw_ruler gw) r2 (gw_cache gw) = Return (req2, cache, url, evs)
       \<and> gw1 = gw\<lparr>gw_handlers := hs, gw_recorder := rcd, gw_cache := cache\<rparr> \<and> req1 = req2\<lparr>r_url := url\<rparr>"
    using director_cases [OF assms(1) grpc] by metis
  have same: "gw_breaker gw1 = gw_breaker gw" "gw_cfg gw1 = gw_cfg gw" using refused go by (cases err; auto)+
  have "req_get req1 SandwichInternalFlag \<in> {[], SandwichReqLimit, SandwichBackendError}"
  proof (cases err)
    case (Some e)
    with refused handlers_flag [OF handlers] assms(3) show ?thesis by (auto simp: req_get_def)
  next
    case None
    then obtain req2 cache url evs where
      r: "Resolver_Parse (en_random env) (gw_runtime gw) (en_now env) (gw_ruler gw) r2 (gw_cache gw) = Return (req2, cache, url, evs)"
      and req1: "req1 = req2\<lparr>r_url := url\<rparr>" using go by blast
    have "url = None"
    proof (rule ccontr)
      assume "url \<noteq> None"
      then obtain u where "url = Some u" by blast
      with resolver_scheme [OF r [unfolded this]] req1 assms(2) show False
        by (simp add: not_routed_def SchemeSandwich_def)
    qed
    with resolver_marks [OF r] req1 show ?thesis by (simp add: req_get_def)
  qed
  then have code: "error_status (req_get req1 SandwichInternalFlag) \<in> {429, 502}"
    by (auto simp: error_status_def SandwichBucketLimit_def SandwichDomainNotAllow_def SandwichReqLimit_def SandwichBackendError_def)
  obtain w h where eh: "ProxyErrorHandler env gw1 new_writer req1 = Return (gw1, w, [EvAdd Fail])"
    "rw_sent w = Some (error_status (req_get req1 SandwichInternalFlag), h)"
    using error_handler_strict [of gw1 env req1] same assms(5,6) by auto
  obtain e where "en_http env req1 = Inl e" using fails assms(2) by blast
  then have "RoundTrip env gw1 req1 = (gw1, Inl e)"
    using assms(2) by (auto simp: RoundTrip_def not_routed_def SchemeGrpc_def SchemeSandwich_def split: option.splits)
  with assms(1) eh have "ServeHTTP env gw req = Return (gw1, Failed w, events1 @ [EvAdd Fail])"
    by (simp add: ServeHTTP_def)
  with eh code same show ?thesis by auto
qed

theorem refused_status_witness:
  "\<exists>gw' w events code h. ServeHTTP sample_core_env sample_gateway (sample_req\<lparr>r_host := ''evil.com''\<rparr>) = Return (gw', Failed w, events)
     \<and> rw_sent w = Some (code, h) \<and> code \<in> {429, 502}"
proof -
  let ?req = "sample_req\<lparr>r_host := ''evil.com''\<rparr>"
  obtain gw1 req1 events1 where run: "ProxyDirector sample_core_env sample_gateway ?req = Return (gw1, req1, events1)"
    "r_url req1 = Some (empty_url\<lparr>u_scheme := SchemeSandwich\<rparr>)"
    by (simp add: ProxyDirector_def Grpc_IsEnabled_def sample_gateway_def sample_core_env_def PreCheckDomains_Handle_def Let_def
        sample_req_def)
  have "not_routed req1" using run(2) by (simp add: not_routed_def)
  moreover have "req_get ?req SandwichInternalFlag = []" by (simp add: req_get_def hdr_get_def sample_req_def)
  moreover have "\<And>r. not_routed r \<Longrightarrow> \<exists>e. en_http sample_core_env r = Inl e" by (simp add: sample_core_env_def)
  moreover have "br_serviceBucket (gw_breaker sample_gateway) = []" "sec_strictMode (cfg_security (gw_cfg sample_gateway))"
    by (simp_all add: sample_gateway_def NewBreaker_def NewSizeMap_def)
  ultimately show ?thesis using refused_status [OF run(1)] by blast
qed

end
