(* ===== verification/FastTransport.thy ===== *)
theory FastTransport
  imports GoHttp Config
begin

text \<open>
  The transport over fasthttp (\<open>gateway/core/fast_roundtrip.go\<close>). The fasthttp library is a parameter:
  a request to it is the list of the calls that build it, in order, and its answer is a status, a
  body and the header fields in the order \<open>VisitAll\<close> visits them.
\<close>

section \<open>Building the request\<close>

datatype fast_call =
  SetMethod string | SetRequestURI string | SetScheme string | SetURIHost string | SetRequestHost string
| HeaderSetHost string | HeaderSet string string | HeaderAdd string string | SetBodyStream string int | SetBodyRaw string
| DisableRedirectPathNormalizing

record FastResponse =
  fs_status :: int
  fs_body :: string
  fs_headers :: "(string \<times> string) list"

definition target_calls :: "Config \<Rightarrow> Request \<Rightarrow> fast_call list" where
  "target_calls cfg req =
     (case r_url req of
        None \<Rightarrow> []
      | Some url \<Rightarrow>
          (if u_opaque url \<noteq> [] then [SetRequestURI (u_opaque url)]
           else (let path = (if u_path url = [] then ''/'' else u_path url)
                 in if u_query url \<noteq> [] then [SetRequestURI (path @ ''?'' @ u_query url)] else [SetRequestURI path]))
          @ (if u_scheme url \<noteq> [] then [SetScheme (u_scheme url)] else [])
          @ (if u_host url \<noteq> []
             then [SetURIHost (u_host url), SetRequestHost (u_host url), HeaderSetHost (u_host url)]
               @ (let forwardHost = ph_forwardHostHeader (cfg_proxyHeader cfg)
                  in if forwardHost \<noteq> [] then [HeaderSet forwardHost (r_host req)] else [])
             else []))"

text \<open>\<open>ord\<close> is the order in which the header map is iterated.\<close>

definition header_calls :: "(string \<times> string list) list \<Rightarrow> fast_call list" where
  "header_calls ord =
     concat (map (\<lambda>(k, vv). if equalFold ''X-Forwarded-For'' k \<or> equalFold ''Host'' k then [] else map (HeaderAdd k) vv) ord)"

text \<open>\<open>read_all\<close> is what \<open>io.ReadAll\<close> yields of a body; its error is ignored.\<close>

definition body_calls :: "(string \<Rightarrow> string) \<Rightarrow> Request \<Rightarrow> fast_call list" where
  "body_calls read_all req =
     (if 0 < r_length req then [SetBodyStream (r_body req) (r_length req)] else [SetBodyRaw (read_all (r_body req))])"

definition fast_request :: "(string \<Rightarrow> string) \<Rightarrow> Config \<Rightarrow> (string \<times> string list) list \<Rightarrow> Request \<Rightarrow> fast_call list" where
  "fast_request read_all cfg ord req =
     [SetMethod (r_method req)] @ target_calls cfg req @ header_calls ord @ body_calls read_all req
     @ (case r_url req of Some url \<Rightarrow> if u_scheme url = ''https'' then [HeaderSet ''X-Forwarded-Proto'' ''https''] else [] | None \<Rightarrow> [])
     @ [DisableRedirectPathNormalizing]"

section \<open>Converting the response\<close>

definition convert_header :: "string \<times> string \<Rightarrow> Header \<Rightarrow> Header" where
  "convert_header kv h =
     (let (key, val) = kv
      in case gm_get h key of
           Some (prev # _) \<Rightarrow> hdr_set key (prev @ '','' @ val) h
         | _ \<Rightarrow> hdr_set key val h)"

definition convert_response :: "Request \<Rightarrow> FastResponse \<Rightarrow> Response" where
  "convert_response req resp =
     \<lparr>resp_status = fs_status resp, resp_header = fold convert_header (fs_headers resp) [], resp_body = fs_body resp,
      resp_length = int (length (fs_body resp)), resp_request = req\<rparr>"

definition Fast_RoundTrip ::
    "(fast_call list \<Rightarrow> string + FastResponse) \<Rightarrow> (string \<Rightarrow> string) \<Rightarrow> Config \<Rightarrow> (string \<times> string list) list \<Rightarrow> Request \<Rightarrow>
     string + Response" where
  "Fast_RoundTrip client read_all cfg ord req =
     (case client (fast_request read_all cfg ord req) of
        Inl err \<Rightarrow> Inl err
      | Inr resp \<Rightarrow> Inr (convert_response req resp))"

section \<open>What arrives\<close>

definition values_of :: "string \<Rightarrow> (string \<times> string) list \<Rightarrow> string list" where
  "values_of k kvs = map snd (filter (\<lambda>kv. fst kv = k) kvs)"

lemma strJoin_snoc: "vs \<noteq> [] \<Longrightarrow> strJoin sep (vs @ [v]) = strJoin sep vs @ sep @ v"
proof (induction vs)
  case (Cons x vs)
  then show ?case by (cases vs) simp_all
qed simp

lemma convert_get:
  "canonicalKey key = key \<Longrightarrow> gm_get (convert_header (key, val) h) k =
     (if k = key then Some [case gm_get h key of Some (prev # _) \<Rightarrow> prev @ '','' @ val | _ \<Rightarrow> val] else gm_get h k)"
  by (simp add: convert_header_def hdr_set_def split: option.split list.split)

lemma converted_values:
  assumes "\<forall>kv \<in> set kvs. canonicalKey (fst kv) = fst kv" and "canonicalKey k = k"
  shows "gm_get (fold convert_header kvs []) k
    = (if values_of k kvs = [] then None else Some [strJoin '','' (values_of k kvs)])"
  using assms(1)
proof (induction kvs rule: rev_induct)
  case (snoc kv kvs)
  obtain key val where kv: "kv = (key, val)" by (meson surj_pair)
  let ?h = "fold convert_header kvs []"
  have canon: "canonicalKey key = key" using snoc.prems kv by simp
  have IH: "gm_get ?h k = (if values_of k kvs = [] then None else Some [strJoin '','' (values_of k kvs)])"
    using snoc by simp
  have step: "gm_get (fold convert_header (kvs @ [kv]) []) k = gm_get (convert_header (key, val) ?h) k"
    by (simp add: kv)
  have "values_of k (kvs @ [kv]) = values_of k kvs @ (if key = k then [val] else [])"
    by (simp add: kv values_of_def)
  then show ?case
    unfolding step convert_get [OF canon] using IH strJoin_snoc [of "values_of k kvs" "'',''" val] by auto
qed (simp add: values_of_def)

text \<open>
  C38. Through the fasthttp transport: a request is passed on with every header value but those of
  \<open>Host\<close> and \<open>X-Forwarded-For\<close>, so that the backend does not learn the client address; the response
  keeps its status and body, but all values of one header field are joined into a single line: two
  cookies set by the backend become one.
\<close>

theorem fast_transport:
  assumes "client (fast_request read_all cfg ord req) = Inr resp"
    and "\<forall>kv \<in> set (fs_headers resp). canonicalKey (fst kv) = fst kv" and "iteration_of ord (r_header req)"
  shows "\<exists>r. Fast_RoundTrip client read_all cfg ord req = Inr r
    \<and> resp_status r = fs_status resp \<and> resp_body r = fs_body resp \<and> resp_length r = int (length (resp_body r))
    \<and> (\<forall>k. canonicalKey k = k \<longrightarrow> hdr_values (resp_header r) k
         = (if values_of k (fs_headers resp) = [] then [] else [strJoin '','' (values_of k (fs_headers resp))]))
    \<and> {(k, v). HeaderAdd k v \<in> set (fast_request read_all cfg ord req)}
        = {(k, v). \<exists>vv. (k, vv) \<in> set (r_header req) \<and> v \<in> set vv
             \<and> \<not> equalFold ''X-Forwarded-For'' k \<and> \<not> equalFold ''Host'' k}"
proof -
  have "HeaderAdd k v \<in> set (fast_request read_all cfg ord req) \<longleftrightarrow> HeaderAdd k v \<in> set (header_calls ord)" for k v
    by (auto simp: fast_request_def target_calls_def body_calls_def Let_def split: option.splits if_splits)
  moreover have "HeaderAdd k v \<in> set (header_calls ord) \<longleftrightarrow> (\<exists>vv. (k, vv) \<in> set (r_header req) \<and> v \<in> set vv
      \<and> \<not> equalFold ''X-Forwarded-For'' k \<and> \<not> equalFold ''Host'' k)" for k v
    using iteration_set [OF assms(3)] by (auto simp: header_calls_def split: if_splits)
  ultimately show ?thesis
    using assms(1) converted_values [OF assms(2)]
    by (auto simp: Fast_RoundTrip_def convert_response_def hdr_values_def)
qed

definition default_config :: Config where
  "default_config = the (Merge (\<lambda>_. (zero_PxyFrontConfig, True)) (\<lambda>_. (zero_PxyBackendConfig, True)) (Some GetDefaultConfig))"

theorem fast_transport_witness:
  "\<exists>r. Fast_RoundTrip (\<lambda>_. Inr \<lparr>fs_status = 200, fs_body = [], fs_headers = [(''Set-Cookie'', ''a=1''), (''Set-Cookie'', ''b=2'')]\<rparr>)
      id default_config [] \<lparr>r_method = ''GET'', r_host = [], r_remote = [], r_proto = [], r_url = None, r_header = [], r_body = [], r_length = 0\<rparr>
      = Inr r \<and> hdr_values (resp_header r) ''Set-Cookie'' = [''a=1,b=2'']"
proof -
  let ?resp = "\<lparr>fs_status = 200, fs_body = [], fs_headers = [(''Set-Cookie'', ''a=1''), (''Set-Cookie'', ''b=2'')]\<rparr>"
  let ?req = "\<lparr>r_method = ''GET'', r_host = [], r_remote = [], r_proto = [], r_url = None, r_header = [], r_body = [], r_length = 0\<rparr>"
  have key: "canonicalKey ''Set-Cookie'' = ''Set-Cookie''" by code_simp
  from fast_transport [of "\<lambda>_. Inr ?resp" id default_config "[]" ?req ?resp] key show ?thesis
    by (auto simp: values_of_def)
qed

end
