(* ===== verification/GoPaths.thy ===== *)
theory GoPaths
  imports GoPrelude
begin

text \<open>
  The part of \<open>path/filepath\<close> (on Unix) that the front end server uses: \<open>Clean\<close>, \<open>Join\<close> and \<open>Match\<close>.
  A path is split into its elements at the slashes.
\<close>

section \<open>Clean and Join\<close>

text \<open>One element on top of the elements so far, innermost first.\<close>

definition clean_step :: "bool \<Rightarrow> string \<Rightarrow> string list \<Rightarrow> string list" where
  "clean_step rooted e out =
     (if e = [] \<or> e = ''.'' then out
      else if e = ''..''
      then (case out of
              [] \<Rightarrow> if rooted then [] else [e]
            | x # xs \<Rightarrow> if x = ''..'' then e # out else xs)
      else e # out)"

definition clean_elems :: "bool \<Rightarrow> string \<Rightarrow> string list" where
  "clean_elems rooted path = rev (fold (clean_step rooted) (splitChar CHR ''/'' path) [])"

definition is_rooted :: "string \<Rightarrow> bool" where
  "is_rooted path \<longleftrightarrow> path \<noteq> [] \<and> hd path = CHR ''/''"

definition path_of :: "bool \<Rightarrow> string list \<Rightarrow> string" where
  "path_of rooted es = (if rooted then CHR ''/'' # strJoin ''/'' es else if es = [] then ''.'' else strJoin ''/'' es)"

definition pathClean :: "string \<Rightarrow> string" where
  "pathClean path = (if path = [] then ''.'' else path_of (is_rooted path) (clean_elems (is_rooted path) path))"

text \<open>\<open>Join\<close> of two elements: leading empty ones are skipped, the rest is joined and cleaned.\<close>

definition pathJoin :: "string \<Rightarrow> string \<Rightarrow> string" where
  "pathJoin a b = (if a \<noteq> [] then pathClean (a @ ''/'' @ b) else if b \<noteq> [] then pathClean b else [])"

text \<open>\<open>filepath.Dir\<close>: all but the last element, cleaned.\<close>

definition pathDir :: "string \<Rightarrow> string" where
  "pathDir path = pathClean (rev (dropWhile (\<lambda>c. c \<noteq> CHR ''/'') (rev path)))"

section \<open>Match\<close>

text \<open>
  The patterns of \<open>filepath.Match\<close>; a malformed pattern matches nothing. \<open>glob_item\<close> reads one, possibly
  escaped, character of a class, \<open>glob_class\<close> the ranges up to the closing bracket; the number bounds the ranges.
\<close>

definition glob_item :: "string \<Rightarrow> (char \<times> string) option" where
  "glob_item p =
     (case p of
        [] \<Rightarrow> None
      | c # cs \<Rightarrow>
          if c = CHR ''-'' \<or> c = CHR '']'' then None
          else if c = CHR 0x5C then (case cs of d # e # ds \<Rightarrow> Some (d, e # ds) | _ \<Rightarrow> None)
          else if cs = [] then None else Some (c, cs))"

fun glob_class :: "nat \<Rightarrow> bool \<Rightarrow> char \<Rightarrow> string \<Rightarrow> (bool \<times> string) option" where
  "glob_class 0 first c p = None"
| "glob_class (Suc n) first c p =
     (if p \<noteq> [] \<and> hd p = CHR '']'' \<and> \<not> first then Some (False, tl p)
      else (case glob_item p of
              None \<Rightarrow> None
            | Some (lo, p1) \<Rightarrow>
                (case (if hd p1 = CHR ''-'' then glob_item (tl p1) else Some (lo, p1)) of
                   None \<Rightarrow> None
                 | Some (hi, p2) \<Rightarrow>
                     (case glob_class n False c p2 of
                        None \<Rightarrow> None
                      | Some (m, rest) \<Rightarrow>
                          Some (m \<or> ((of_char lo :: nat) \<le> of_char c \<and> (of_char c :: nat) \<le> of_char hi), rest)))))"

fun glob :: "nat \<Rightarrow> string \<Rightarrow> string \<Rightarrow> bool" where
  "glob 0 p s = False"
| "glob (Suc n) p s =
     (case p of
        [] \<Rightarrow> s = []
      | x # p' \<Rightarrow>
          if x = CHR ''*''
          then glob n p' s \<or> (case s of [] \<Rightarrow> False | c # cs \<Rightarrow> c \<noteq> CHR ''/'' \<and> glob n p cs)
          else (case s of
            [] \<Rightarrow> False
          | c # cs \<Rightarrow>
              if x = CHR ''?'' then c \<noteq> CHR ''/'' \<and> glob n p' cs
              else if x = CHR 0x5C then (case p' of [] \<Rightarrow> False | y # p'' \<Rightarrow> c = y \<and> glob n p'' cs)
              else if x = CHR ''[''
              then (let neg = (p' \<noteq> [] \<and> hd p' = CHR ''^'');
                        p'' = (if neg then tl p' else p')
                    in case glob_class (Suc (length p'')) True c p'' of
                         None \<Rightarrow> False
                       | Some (m, rest) \<Rightarrow> m \<noteq> neg \<and> glob n rest cs)
              else c = x \<and> glob n p' cs))"

definition pathMatch :: "string \<Rightarrow> string \<Rightarrow> bool" where
  "pathMatch pattern name = glob (Suc (length pattern + length name)) pattern name"

section \<open>Elements\<close>

definition elems :: "string \<Rightarrow> string list" where
  "elems path = filter (\<lambda>e. e \<noteq> [] \<and> e \<noteq> ''.'') (splitChar CHR ''/'' path)"

text \<open>What \<open>http.ServeFile\<close> looks for in a request path.\<close>

definition containsDotDot :: "string \<Rightarrow> bool" where
  "containsDotDot path \<longleftrightarrow> ''..'' \<in> set (splitChar CHR ''/'' path)"

lemma splitChar_append: "splitChar d (a @ d # b) = splitChar d a @ splitChar d b"
proof (induction a)
  case (Cons c a)
  obtain w ws where "splitChar d a = w # ws" using splitChar_not_Nil by (meson list.exhaust)
  with Cons show ?case by simp
qed simp

lemma splitChar_none: "d \<notin> set s \<Longrightarrow> splitChar d s = [s]"
  by (induction s) auto

lemma elems_append: "elems (a @ CHR ''/'' # b) = elems a @ elems b"
  by (simp add: elems_def splitChar_append)

lemma fold_clean_elems:
  "fold (clean_step rooted) (splitChar CHR ''/'' path) out = fold (clean_step rooted) (elems path) out"
proof -
  have "fold (clean_step rooted) es out = fold (clean_step rooted) (filter (\<lambda>e. e \<noteq> [] \<and> e \<noteq> ''.'') es) out" for es out
    by (induction es arbitrary: out) (auto simp: clean_step_def)
  then show ?thesis by (simp add: elems_def)
qed

lemma fold_clean_plain:
  "\<forall>e \<in> set es. e \<noteq> [] \<and> e \<noteq> ''.'' \<and> e \<noteq> ''..'' \<Longrightarrow> fold (clean_step rooted) es out = rev es @ out"
  by (induction es arbitrary: out) (auto simp: clean_step_def)

lemma elems_plain: "\<not> containsDotDot path \<Longrightarrow> \<forall>e \<in> set (elems path). e \<noteq> [] \<and> e \<noteq> ''.'' \<and> e \<noteq> ''..''"
  by (auto simp: elems_def containsDotDot_def)

lemma clean_elems_plain: "\<not> containsDotDot path \<Longrightarrow> clean_elems rooted path = elems path"
  by (simp add: clean_elems_def fold_clean_elems fold_clean_plain elems_plain)

lemma containsDotDot_join: "containsDotDot (a @ CHR ''/'' # b) \<longleftrightarrow> containsDotDot a \<or> containsDotDot b"
  by (simp add: containsDotDot_def splitChar_append)

text \<open>Without a parent element, joining never leaves the first directory.\<close>

lemma join_inside:
  assumes "a \<noteq> []" and "\<not> containsDotDot a" and "\<not> containsDotDot b"
  shows "pathJoin a b = path_of (is_rooted a) (elems a @ elems b)"
proof -
  have "is_rooted (a @ ''/'' @ b) = is_rooted a" using assms(1) by (cases a) (auto simp: is_rooted_def)
  then show ?thesis
    using assms clean_elems_plain [of "a @ ''/'' @ b"]
    by (simp add: pathJoin_def pathClean_def containsDotDot_join elems_append)
qed

text \<open>The elements of a cleaned path.\<close>

lemma splitChar_elem: "e \<in> set (splitChar d s) \<Longrightarrow> d \<notin> set e"
proof (induction s arbitrary: e)
  case (Cons c s)
  obtain w ws where w: "splitChar d s = w # ws" using splitChar_not_Nil by (meson list.exhaust)
  with Cons.IH have "e \<in> set (w # ws) \<Longrightarrow> d \<notin> set e" for e by simp
  with Cons.prems w show ?case by (auto split: if_splits)
qed simp

lemma splitChar_strJoin: "es \<noteq> [] \<Longrightarrow> \<forall>e \<in> set es. d \<notin> set e \<Longrightarrow> splitChar d (strJoin [d] es) = es"
proof (induction "[d]" es rule: strJoin.induct)
  case (3 x y ys)
  then show ?case by (simp add: splitChar_append splitChar_none)
qed (simp_all add: splitChar_none)

lemma elems_no_slash: "\<forall>e \<in> set (elems path). CHR ''/'' \<notin> set e"
  by (auto simp: elems_def dest: splitChar_elem)

lemma path_of_parts:
  assumes "\<forall>e \<in> set es. e \<noteq> [] \<and> e \<noteq> ''.'' \<and> e \<noteq> ''..'' \<and> CHR ''/'' \<notin> set e"
  shows "elems (path_of r es) = es" and "\<not> containsDotDot (path_of r es)" and "path_of r es \<noteq> []"
    and "is_rooted (path_of r es) = r"
proof -
  have join: "splitChar CHR ''/'' (strJoin ''/'' es) = es" if "es \<noteq> []"
    using that assms by (simp add: splitChar_strJoin)
  have filter: "filter (\<lambda>e. e \<noteq> [] \<and> e \<noteq> ''.'') es = es" using assms by (simp add: filter_id_conv)
  have dots: "''..'' \<notin> set es" using assms by auto
  show "elems (path_of r es) = es" using join filter by (cases "es = []") (auto simp: path_of_def elems_def)
  show "\<not> containsDotDot (path_of r es)" using join dots by (cases "es = []") (auto simp: path_of_def containsDotDot_def)
  have start: "strJoin ''/'' es \<noteq> [] \<and> hd (strJoin ''/'' es) \<noteq> CHR ''/''" if ne: "es \<noteq> []"
  proof -
    obtain e es' where es: "es = e # es'" using ne by (cases es) simp_all
    then have "e \<noteq> []" and "CHR ''/'' \<notin> set e" using assms by simp_all
    then obtain c cs where e: "e = c # cs" "c \<noteq> CHR ''/''" by (cases e) (simp_all, metis)
    show ?thesis using es e by (cases es') simp_all
  qed
  show "path_of r es \<noteq> []" using start by (auto simp: path_of_def)
  show "is_rooted (path_of r es) = r" using start by (auto simp: path_of_def is_rooted_def)
qed

lemma elems_parts:
  "\<not> containsDotDot path \<Longrightarrow> \<forall>e \<in> set (elems path). e \<noteq> [] \<and> e \<noteq> ''.'' \<and> e \<noteq> ''..'' \<and> CHR ''/'' \<notin> set e"
  using elems_plain [of path] elems_no_slash [of path] by blast

lemma ball_append: "\<forall>x \<in> set xs. P x \<Longrightarrow> \<forall>x \<in> set ys. P x \<Longrightarrow> \<forall>x \<in> set (xs @ ys). P x"
  by auto

text \<open>A path below a directory.\<close>

definition under :: "string \<Rightarrow> string \<Rightarrow> bool" where
  "under dir p \<longleftrightarrow> (\<exists>b. \<not> containsDotDot b \<and> p = path_of (is_rooted dir) (elems dir @ elems b))"

lemma join_under: "a \<noteq> [] \<Longrightarrow> \<not> containsDotDot a \<Longrightarrow> \<not> containsDotDot b \<Longrightarrow> under a (pathJoin a b)"
  using join_inside [of a b] unfolding under_def by blast

lemma join_safe: "a \<noteq> [] \<Longrightarrow> \<not> containsDotDot a \<Longrightarrow> \<not> containsDotDot b \<Longrightarrow> \<not> containsDotDot (pathJoin a b)"
  using path_of_parts(2) [OF ball_append [OF elems_parts elems_parts], of a b] by (simp add: join_inside)

lemma join_not_Nil: "a \<noteq> [] \<Longrightarrow> \<not> containsDotDot a \<Longrightarrow> \<not> containsDotDot b \<Longrightarrow> pathJoin a b \<noteq> []"
  using path_of_parts(3) [OF ball_append [OF elems_parts elems_parts], of a b] by (simp add: join_inside)

lemma under_elems: "under dir p \<Longrightarrow> \<not> containsDotDot dir \<Longrightarrow> take (length (elems dir)) (elems p) = elems dir"
  using path_of_parts(1) [OF ball_append [OF elems_parts elems_parts]] unfolding under_def by fastforce

text \<open>A suffix without slashes only touches the last element.\<close>

lemma splitChar_last: "last (splitChar d s) = [] \<longleftrightarrow> s = [] \<or> last s = d"
proof (induction s)
  case (Cons c s)
  obtain w ws where w: "splitChar d s = w # ws" using splitChar_not_Nil by (meson list.exhaust)
  show ?case
  proof (cases "s = []")
    case False
    with Cons.IH w strJoin_splitChar [of d s] show ?thesis by (cases ws) (auto simp: splitChar_none)
  qed simp
qed simp

lemma splitChar_suffix:
  "d \<notin> set b \<Longrightarrow> splitChar d (a @ b) = butlast (splitChar d a) @ [last (splitChar d a) @ b]"
proof (induction a)
  case (Cons c a)
  obtain w ws where w: "splitChar d a = w # ws" using splitChar_not_Nil by (meson list.exhaust)
  with Cons show ?case by (cases ws) auto
qed (simp add: splitChar_none)

lemma hidden_parent:
  assumes "a \<noteq> []" and "last a \<noteq> CHR ''/''" and "\<not> containsDotDot a" and "\<not> containsDotDot b"
  shows "\<not> containsDotDot (a @ ''../'' @ b)"
proof -
  let ?ws = "splitChar CHR ''/'' a"
  have "splitChar CHR ''/'' ((a @ ''..'') @ CHR ''/'' # b) = (butlast ?ws @ [last ?ws @ ''..'']) @ splitChar CHR ''/'' b"
    by (subst splitChar_append) (simp add: splitChar_suffix)
  moreover have "last ?ws \<noteq> []" using assms(1,2) splitChar_last by blast
  moreover have "''..'' \<notin> set (butlast ?ws)" using assms(3) by (auto simp: containsDotDot_def dest: in_set_butlastD)
  ultimately show ?thesis using assms(4) by (simp add: containsDotDot_def)
qed

text \<open>A parent element right behind the first directory leaves it.\<close>

lemma join_parent:
  assumes "elems a = es @ [d]" and "\<not> containsDotDot a" and "\<not> containsDotDot b"
  shows "pathJoin a (''../'' @ b) = path_of (is_rooted a) (es @ elems b)"
proof -
  have a: "a \<noteq> []" using assms(1) by (auto simp: elems_def)
  then have rooted: "is_rooted (a @ ''/'' @ ''../'' @ b) = is_rooted a" by (cases a) (auto simp: is_rooted_def)
  have "splitChar CHR ''/'' ''..'' = [''..'']" by (simp add: splitChar_none)
  then have dd: "elems ''..'' = [''..'']" by (simp add: elems_def)
  have parts: "elems (a @ ''/'' @ ''../'' @ b) = (es @ [d]) @ ''..'' # elems b"
    using elems_append [of a "''../'' @ b"] elems_append [of "''..''" b] assms(1) dd by simp
  have "d \<noteq> ''..''" using elems_plain [OF assms(2)] assms(1) by simp
  then have "fold (clean_step r) ((es @ [d]) @ ''..'' # elems b) [] = rev (es @ elems b)" for r
    using fold_clean_plain [OF elems_plain [OF assms(2)], of r "[]"] fold_clean_plain [OF elems_plain [OF assms(3)]] assms(1)
    by (simp add: clean_step_def)
  then have "clean_elems r (a @ ''/'' @ ''../'' @ b) = es @ elems b" for r
    by (simp only: clean_elems_def fold_clean_elems parts rev_rev_ident)
  with a rooted show ?thesis by (simp add: pathJoin_def pathClean_def)
qed

end
