(* ===== verification/FrontendProxy.thy ===== *)
theory FrontendProxy
  imports GoHttp GoPaths Float64 Config
begin

text \<open>
  The front end server (\<open>frontend_proxy\<close>): which file, directory listing, error page or back end a
  request is answered from, and the file cache. The file system is a map from paths to nodes;
  creating parent directories and removing a node are parameters, as are the HTTP client, URL parsing and
  the iteration order of maps. The logging middleware changes nothing.
\<close>

section \<open>Files\<close>

datatype node = FileNode string time | DirNode time

fun node_time :: "node \<Rightarrow> time" where
  "node_time (FileNode data t) = t"
| "node_time (DirNode t) = t"

type_synonym file_system = "string \<Rightarrow> node option"

datatype stat_result = NotExist | StatError | Found node

text \<open>
  \<open>fe_denied\<close>: paths the process may not access. \<open>fe_client\<close>: the HTTP client. \<open>fe_request_ok\<close>: whether a
  request can be created for a method and a URL.
\<close>

record out_request =
  or_method :: string
  or_url :: URL
  or_host :: string
  or_header :: Header
  or_body :: string

record front_env =
  fe_denied :: "string \<Rightarrow> bool"
  fe_now :: time
  fe_mkdirAll :: "string \<Rightarrow> file_system \<Rightarrow> file_system"
  fe_remove :: "string \<Rightarrow> file_system \<Rightarrow> file_system"
  fe_aliases :: "(string, string) gomap \<Rightarrow> (string \<times> string) list"
  fe_headers :: "Header \<Rightarrow> (string \<times> string list) list"
  fe_parse :: "string \<Rightarrow> URL option"
  fe_body_ok :: "string \<Rightarrow> bool"
  fe_request_ok :: "string \<Rightarrow> URL \<Rightarrow> bool"
  fe_client :: "out_request \<Rightarrow> string + Response"

definition os_stat :: "front_env \<Rightarrow> file_system \<Rightarrow> string \<Rightarrow> stat_result" where
  "os_stat env fs p = (if fe_denied env p then StatError else case fs p of None \<Rightarrow> NotExist | Some n \<Rightarrow> Found n)"

definition os_read :: "front_env \<Rightarrow> file_system \<Rightarrow> string \<Rightarrow> string option" where
  "os_read env fs p = (case os_stat env fs p of Found (FileNode data t) \<Rightarrow> Some data | _ \<Rightarrow> None)"

definition os_write :: "front_env \<Rightarrow> string \<Rightarrow> string \<Rightarrow> file_system \<Rightarrow> file_system" where
  "os_write env p data fs =
     (if fe_denied env p then fs
      else case (fs (pathDir p), fs p) of
        (Some (DirNode t), Some (DirNode t')) \<Rightarrow> fs
      | (Some (DirNode t), _) \<Rightarrow> fs(p \<mapsto> FileNode data (fe_now env))
      | _ \<Rightarrow> fs)"

section \<open>The cache\<close>

definition duration_minutes :: "duration \<Rightarrow> float64" where
  "duration_minutes d =
     fadd (float_of_int (go_div d Minute)) (fdiv (float_of_int (go_mod d Minute)) (Fin (60 * 10 ^ 9)))"

definition cached_path :: "PxyFrontConfig \<Rightarrow> string \<Rightarrow> string \<Rightarrow> string" where
  "cached_path cfg internalFlag requestPath = pathJoin (fca_dir (pf_cache cfg)) (pathJoin internalFlag requestPath)"

definition ShouldCache :: "front_env \<Rightarrow> PxyFrontConfig \<Rightarrow> file_system \<Rightarrow> string \<Rightarrow> string \<Rightarrow> bool" where
  "ShouldCache env cfg fs reqPath filePath =
     (if \<not> fca_enable (pf_cache cfg) then False
      else if os_stat env fs filePath = NotExist then False
      else list_ex (\<lambda>pattern. pathMatch pattern (''*'' @ pathExt reqPath)) (fca_matcher (pf_cache cfg)))"

definition GetCachedFile :: "front_env \<Rightarrow> PxyFrontConfig \<Rightarrow> string \<Rightarrow> string \<Rightarrow> file_system \<Rightarrow> file_system \<times> string" where
  "GetCachedFile env cfg internalFlag requestPath fs =
     (let p = cached_path cfg internalFlag requestPath; expire = fca_expire (pf_cache cfg)
      in case os_stat env fs p of
           Found n \<Rightarrow>
             if 0 < expire \<and> fless (float_of_int expire) (duration_minutes (time_sub (fe_now env) (node_time n)))
             then (fe_remove env p fs, []) else (fs, p)
         | _ \<Rightarrow> (fs, []))"

definition CacheFile :: "front_env \<Rightarrow> PxyFrontConfig \<Rightarrow> string \<Rightarrow> string \<Rightarrow> string \<Rightarrow> file_system \<Rightarrow> file_system" where
  "CacheFile env cfg internalFlag requestPath originalFilePath fs =
     (let p = cached_path cfg internalFlag requestPath;
          fs = fe_mkdirAll env (pathDir p) fs
      in case os_read env fs originalFilePath of
           None \<Rightarrow> fs
         | Some data \<Rightarrow> os_write env p data fs)"

section \<open>Replies\<close>

text \<open>
  \<open>ServeFile\<close> is \<open>c.File\<close>, which hands the request to \<open>http.ServeFile\<close>. \<open>fy_status\<close> is \<open>None\<close> where the
  code sets no status and leaves it to \<open>http.ServeFile\<close> or to gin.
\<close>

datatype content = ServeFile string | ListDirectory string | NotFoundPage | InternalErrorPage
  | JsonMessage string | Proxied string

record front_reply =
  fy_status :: "int option"
  fy_header :: Header
  fy_content :: content

text \<open>\<open>c.Header\<close> of gin: an empty value deletes the field.\<close>

definition gin_header :: "string \<Rightarrow> string \<Rightarrow> Header \<Rightarrow> Header" where
  "gin_header k v h = (if v = [] then hdr_del k h else hdr_set k v h)"

definition HandleError ::
    "front_env \<Rightarrow> PxyFrontConfig \<Rightarrow> file_system \<Rightarrow> int \<Rightarrow> string \<Rightarrow> Header \<Rightarrow> front_reply" where
  "HandleError env cfg fs statusCode message h =
     (let errorPage = (if statusCode = 404 then ec_notFound (pf_error cfg)
            else if statusCode = 500 then ec_internalServerError (pf_error cfg) else []);
          custom = (errorPage \<noteq> [] \<and> (case os_stat env fs (pathClean errorPage) of Found n \<Rightarrow> True | _ \<Rightarrow> False));
          html = gin_header ''Content-Type'' ''text/html; charset=utf-8'' h
      in if custom then \<lparr>fy_status = None, fy_header = h, fy_content = ServeFile (pathClean errorPage)\<rparr>
         else if statusCode = 404 then \<lparr>fy_status = Some 200, fy_header = html, fy_content = NotFoundPage\<rparr>
         else if statusCode = 500 then \<lparr>fy_status = Some 200, fy_header = html, fy_content = InternalErrorPage\<rparr>
         else \<lparr>fy_status = Some statusCode, fy_header = h, fy_content = JsonMessage message\<rparr>)"

definition HandleDirectoryListing ::
    "front_env \<Rightarrow> PxyFrontConfig \<Rightarrow> file_system \<Rightarrow> string \<Rightarrow> Header \<Rightarrow> front_reply" where
  "HandleDirectoryListing env cfg fs dirPath h =
     (case os_stat env fs dirPath of
        Found (DirNode t) \<Rightarrow>
          \<lparr>fy_status = None, fy_header = gin_header ''Content-Type'' ''text/html; charset=utf-8'' h,
           fy_content = ListDirectory dirPath\<rparr>
      | _ \<Rightarrow> HandleError env cfg fs 500 ''Failed to read directory'' h)"

section \<open>Static files\<close>

fun alias_path :: "string \<Rightarrow> (string \<times> string) list \<Rightarrow> string option" where
  "alias_path requestPath [] = None"
| "alias_path requestPath ((aliasPath, aliasRoot) # ord) =
     (if hasPrefix requestPath aliasPath then Some (pathJoin aliasRoot (trimPrefix requestPath aliasPath))
      else alias_path requestPath ord)"

definition file_path :: "front_env \<Rightarrow> FrontServerConfig \<Rightarrow> string \<Rightarrow> string" where
  "file_path env server requestPath =
     (case alias_path requestPath (fe_aliases env (fs_alias server)) of
        Some p \<Rightarrow> p
      | None \<Rightarrow> pathJoin (fs_root server) requestPath)"

definition request_path :: "FrontServerConfig \<Rightarrow> string \<Rightarrow> string" where
  "request_path srv p = (if p = ''/'' then ''/'' @ fs_index srv else p)"

definition HandleStaticFile ::
    "front_env \<Rightarrow> PxyFrontConfig \<Rightarrow> FrontServerConfig \<Rightarrow> string \<Rightarrow> string \<Rightarrow> Header \<Rightarrow> file_system \<Rightarrow> file_system \<times> front_reply" where
  "HandleStaticFile env cfg server internalFlag url_path h fs =
     (let requestPath = request_path server url_path;
          filePath = file_path env server requestPath;
          (fs, cachedFile) = GetCachedFile env cfg internalFlag requestPath fs
      in if cachedFile \<noteq> []
         then (fs, \<lparr>fy_status = None, fy_header = gin_header (pf_cacheHeader cfg) ''True'' h, fy_content = ServeFile cachedFile\<rparr>)
         else (case os_stat env fs filePath of
            NotExist \<Rightarrow>
              (if fs_tryFile server = [] then (fs, HandleError env cfg fs 404 ''File not found'' h)
               else (let tryFilePath = pathJoin (fs_root server) (fs_tryFile server)
                     in case os_stat env fs tryFilePath of
                          Found n \<Rightarrow> (fs, \<lparr>fy_status = None, fy_header = h, fy_content = ServeFile tryFilePath\<rparr>)
                        | _ \<Rightarrow> (fs, HandleError env cfg fs 404 ''File not found'' h)))
          | Found (DirNode t) \<Rightarrow>
              (if fs_type server = ''FileServer'' then (fs, HandleDirectoryListing env cfg fs filePath h)
               else (fs, \<lparr>fy_status = None, fy_header = h, fy_content = ServeFile filePath\<rparr>))
          | _ \<Rightarrow>
              ((if ShouldCache env cfg fs requestPath filePath then CacheFile env cfg internalFlag requestPath filePath fs else fs),
               \<lparr>fy_status = None, fy_header = h, fy_content = ServeFile filePath\<rparr>)))"

section \<open>Back ends\<close>

definition target_path :: "BackendConfig \<Rightarrow> string \<Rightarrow> string" where
  "target_path backend path =
     (if be_useRewrite backend
      then (if hasPrefix path (be_aPI backend) then replaceOnce path (be_aPI backend) (be_rewrite backend) else path)
      else path)"

definition backend_request :: "front_env \<Rightarrow> PxyFrontConfig \<Rightarrow> BackendConfig \<Rightarrow> URL \<Rightarrow> Request \<Rightarrow> out_request" where
  "backend_request env cfg backend targetURL r =
     (let h = fold (\<lambda>(key, values) h. fold (hdr_add key) values h) (fe_headers env (r_header r)) [];
          h = hdr_set (pf_internalLocalFlag cfg) ''yes'' h;
          h = hdr_set (pf_internalBackendFlag cfg) (be_service backend) h;
          host = (if hdr_get h ''X-Forwarded-Host'' \<noteq> [] then hdr_get h ''X-Forwarded-Host''
                  else if hdr_get h ''X-Proxy-Internal-Host'' \<noteq> [] then hdr_get h ''X-Proxy-Internal-Host''
                  else u_host targetURL)
      in \<lparr>or_method = r_method r, or_url = targetURL, or_host = host, or_header = h, or_body = r_body r\<rparr>)"

definition copy_response_header :: "front_env \<Rightarrow> Header \<Rightarrow> Header \<Rightarrow> Header" where
  "copy_response_header env hdr h = fold (\<lambda>(key, values) h. fold (gin_header key) values h) (fe_headers env hdr) h"

definition proxyToBackend ::
    "front_env \<Rightarrow> PxyFrontConfig \<Rightarrow> file_system \<Rightarrow> BackendConfig \<Rightarrow> string \<Rightarrow> string \<Rightarrow> Request \<Rightarrow> Header \<Rightarrow> front_reply" where
  "proxyToBackend env cfg fs backend path query r h =
     (let targetPath = target_path backend path;
          balancer = (if \<not> hasPrefix (pf_balancer cfg) ''http://'' then ''http://'' @ pf_balancer cfg else pf_balancer cfg);
          failed = HandleError env cfg fs 500 ''Internal server error'' h
      in case fe_parse env balancer of
           None \<Rightarrow> failed
         | Some url \<Rightarrow>
            (let targetURL = url\<lparr>u_path := targetPath, u_query := query\<rparr>
             in if \<not> fe_body_ok env (r_body r) then failed
                else if \<not> fe_request_ok env (r_method r) targetURL then failed
                else (case fe_client env (backend_request env cfg backend targetURL r) of
                        Inl err \<Rightarrow> failed
                      | Inr resp \<Rightarrow> \<lparr>fy_status = Some (resp_status resp), fy_header = copy_response_header env (resp_header resp) h,
                          fy_content = Proxied (resp_body resp)\<rparr>)))"

fun find_backend :: "string \<Rightarrow> BackendConfig list \<Rightarrow> BackendConfig option" where
  "find_backend path [] = None"
| "find_backend path (backend # bs) =
     (if be_aPI backend = [] \<or> be_service backend = [] then find_backend path bs
      else if hasPrefix path (be_aPI backend) then Some backend
      else find_backend path bs)"

definition find_server :: "PxyFrontConfig \<Rightarrow> string \<Rightarrow> FrontServerConfig option" where
  "find_server cfg internalFlag = find (\<lambda>srv. fs_name srv = internalFlag) (pf_servers cfg)"

section \<open>The middlewares in their order\<close>

definition CustomHeadersMiddleware :: "PxyFrontConfig \<Rightarrow> Header \<Rightarrow> Header" where
  "CustomHeadersMiddleware cfg h = fold (\<lambda>header. gin_header (chc_name header) (chc_value header)) (pf_customHeaders cfg) h"

definition RoutingMiddleware ::
    "front_env \<Rightarrow> PxyFrontConfig \<Rightarrow> string \<Rightarrow> Request \<Rightarrow> Header \<Rightarrow> file_system \<Rightarrow> file_system \<times> front_reply" where
  "RoutingMiddleware env cfg path r h fs =
     (let internalFlag = req_get r (pf_internalFlag cfg) in
      if internalFlag = [] then (fs, HandleError env cfg fs 404 ''Internal flag header not found'' h)
      else (case find_server cfg internalFlag of
              None \<Rightarrow> (fs, HandleError env cfg fs 404 (''Server not found for internal flag: '' @ internalFlag) h)
            | Some server \<Rightarrow> HandleStaticFile env cfg server internalFlag path h fs))"

text \<open>The reply of a matching back end, if there is one; otherwise the next middleware runs.\<close>

definition BackendProxyMiddleware ::
    "front_env \<Rightarrow> PxyFrontConfig \<Rightarrow> file_system \<Rightarrow> string \<Rightarrow> string \<Rightarrow> Request \<Rightarrow> Header \<Rightarrow> front_reply option" where
  "BackendProxyMiddleware env cfg fs path query r h =
     (let internalFlag = req_get r (pf_internalFlag cfg) in
      if internalFlag = [] then None
      else (case find_server cfg internalFlag of
              None \<Rightarrow> None
            | Some server \<Rightarrow>
                if fs_backends server = [] then None
                else (case find_backend path (fs_backends server) of
                        None \<Rightarrow> None
                      | Some backend \<Rightarrow> Some (proxyToBackend env cfg fs backend path query r h))))"

text \<open>The chain of \<open>setupGin\<close>; a request of the server always has a URL.\<close>

definition Front_serve :: "front_env \<Rightarrow> PxyFrontConfig \<Rightarrow> Request \<Rightarrow> file_system \<Rightarrow> (file_system \<times> front_reply) outcome" where
  "Front_serve env cfg r fs =
     (case r_url r of
        None \<Rightarrow> Panic
      | Some url \<Rightarrow>
         (let h = CustomHeadersMiddleware cfg []
          in case BackendProxyMiddleware env cfg fs (u_path url) (u_query url) r h of
               Some reply \<Rightarrow> Return (fs, reply)
             | None \<Rightarrow> Return (RoutingMiddleware env cfg (u_path url) r h fs)))"

end
