(* ===== verification/FrontendGuarantees.thy ===== *)
theory FrontendGuarantees
  imports FrontendProxy
begin

text \<open>
  What the front end server promises: which paths a request can reach, what its cache returns, and what
  its proxy keeps of a back end's answer.
\<close>

section \<open>Paths\<close>

definition safe_dir :: "string \<Rightarrow> bool" where
  "safe_dir dir \<longleftrightarrow> dir \<noteq> [] \<and> \<not> containsDotDot dir"

text \<open>No configured path has a parent element, and every alias ends with a slash.\<close>

definition safe_server :: "FrontServerConfig \<Rightarrow> bool" where
  "safe_server srv \<longleftrightarrow> safe_dir (fs_root srv) \<and> \<not> containsDotDot (fs_index srv) \<and> \<not> containsDotDot (fs_tryFile srv)
     \<and> \<not> containsDotDot (fs_name srv)
     \<and> (\<forall>(aliasPath, aliasRoot) \<in> set (fs_alias srv). safe_dir aliasRoot \<and> (\<exists>a. aliasPath = a @ ''/''))"

definition safe_front :: "PxyFrontConfig \<Rightarrow> bool" where
  "safe_front cfg \<longleftrightarrow> safe_dir (fca_dir (pf_cache cfg)) \<and> (\<forall>srv \<in> set (pf_servers cfg). safe_server srv)"

definition inside_server :: "FrontServerConfig \<Rightarrow> string \<Rightarrow> bool" where
  "inside_server srv p \<longleftrightarrow> under (fs_root srv) p \<or> (\<exists>(a, root) \<in> set (fs_alias srv). under root p)"

definition error_page :: "PxyFrontConfig \<Rightarrow> string \<Rightarrow> bool" where
  "error_page cfg p \<longleftrightarrow> p = pathClean (ec_notFound (pf_error cfg)) \<or> p = pathClean (ec_internalServerError (pf_error cfg))"

text \<open>What a reply shows of the file system.\<close>

fun shows_only :: "(string \<Rightarrow> bool) \<Rightarrow> (string \<Rightarrow> bool) \<Rightarrow> content \<Rightarrow> bool" where
  "shows_only file dir (ServeFile p) = file p"
| "shows_only file dir (ListDirectory p) = dir p"
| "shows_only file dir c = True"

lemma shows_only_mono:
  "shows_only f d c \<Longrightarrow> (\<And>p. f p \<Longrightarrow> f' p) \<Longrightarrow> (\<And>p. d p \<Longrightarrow> d' p) \<Longrightarrow> shows_only f' d' c"
  by (cases c) auto

lemma HandleError_shows: "shows_only (error_page cfg) d (fy_content (HandleError env cfg fs code msg h))"
  by (auto simp: HandleError_def Let_def error_page_def)

lemma trim_alias:
  assumes "hasPrefix p (a @ ''/'')" and "\<not> containsDotDot p"
  shows "\<not> containsDotDot (trimPrefix p (a @ ''/''))"
proof -
  have "p = (a @ ''/'') @ drop (length (a @ ''/'')) p"
    using assms(1) append_take_drop_id [of "length (a @ ''/'')" p] by (simp add: hasPrefix_def)
  then have "p = a @ CHR ''/'' # trimPrefix p (a @ ''/'')" using assms(1) by (simp add: trimPrefix_def)
  with assms(2) show ?thesis using containsDotDot_join [of a "trimPrefix p (a @ ''/'')"] by simp
qed

lemma alias_path_inside:
  assumes "\<forall>(a, root) \<in> set ord. safe_dir root \<and> (\<exists>a'. a = a' @ ''/'')" and "\<not> containsDotDot p"
    and "alias_path p ord = Some q"
  shows "\<exists>(a, root) \<in> set ord. under root q"
  using assms(1,3)
proof (induction ord)
  case (Cons x ord)
  obtain a root where x: "x = (a, root)" by (cases x)
  show ?case
  proof (cases "hasPrefix p a")
    case True
    with Cons.prems x obtain a' where "a = a' @ ''/''" "safe_dir root" "q = pathJoin root (trimPrefix p a)" by auto
    moreover from this True have "\<not> containsDotDot (trimPrefix p a)" using trim_alias assms(2) by simp
    ultimately have "under root q" using join_under by (simp add: safe_dir_def)
    with x show ?thesis by auto
  next
    case False
    with Cons x show ?thesis by fastforce
  qed
qed simp

lemma file_path_inside:
  assumes "safe_server srv" and "iteration_of (fe_aliases env (fs_alias srv)) (fs_alias srv)" and "\<not> containsDotDot p"
  shows "inside_server srv (file_path env srv p)"
proof (cases "alias_path p (fe_aliases env (fs_alias srv))")
  case None
  with assms show ?thesis by (simp add: file_path_def inside_server_def safe_server_def safe_dir_def join_under)
next
  case (Some q)
  have "\<exists>(a, root) \<in> set (fe_aliases env (fs_alias srv)). under root q"
    by (rule alias_path_inside [OF _ assms(3) Some]) (use assms in \<open>simp add: safe_server_def iteration_set\<close>)
  with Some show ?thesis using iteration_set [OF assms(2)] by (simp add: file_path_def inside_server_def)
qed

lemma cached_path_under:
  assumes "safe_dir (fca_dir (pf_cache cfg))" and "safe_dir flag" and "\<not> containsDotDot p"
  shows "under (fca_dir (pf_cache cfg)) (cached_path cfg flag p)"
  using assms by (simp add: cached_path_def safe_dir_def join_under join_safe)

section \<open>What a request reaches\<close>

lemma request_path_safe: "safe_server srv \<Longrightarrow> \<not> containsDotDot p \<Longrightarrow> \<not> containsDotDot (request_path srv p)"
  using containsDotDot_join [of "[]" "fs_index srv"]
  by (simp add: request_path_def safe_server_def containsDotDot_def)

lemma GetCachedFile_path: "snd (GetCachedFile env cfg flag p fs) \<in> {[], cached_path cfg flag p}"
  by (simp add: GetCachedFile_def Let_def split: stat_result.splits)

lemma static_confined:
  assumes "safe_dir (fca_dir (pf_cache cfg))" and "safe_dir flag" and "safe_server srv"
    and "iteration_of (fe_aliases env (fs_alias srv)) (fs_alias srv)" and "\<not> containsDotDot p"
  shows "shows_only (\<lambda>q. under (fca_dir (pf_cache cfg)) q \<or> inside_server srv q \<or> error_page cfg q) (inside_server srv)
           (fy_content (snd (HandleStaticFile env cfg srv flag p h fs)))"
proof -
  let ?p = "request_path srv p" and ?f = "file_path env srv (request_path srv p)"
  have safe: "\<not> containsDotDot ?p" using assms request_path_safe by blast
  have here: "inside_server srv ?f" by (rule file_path_inside) (use assms safe in simp_all)
  have cached: "under (fca_dir (pf_cache cfg)) (cached_path cfg flag ?p)" by (rule cached_path_under) (use assms safe in simp_all)
  have try_file: "inside_server srv (pathJoin (fs_root srv) (fs_tryFile srv))"
    using assms(3) by (simp add: inside_server_def safe_server_def safe_dir_def join_under)
  obtain fs1 c where get: "GetCachedFile env cfg flag ?p fs = (fs1, c)" by (cases "GetCachedFile env cfg flag ?p fs")
  then have c: "c \<noteq> [] \<Longrightarrow> c = cached_path cfg flag ?p" using GetCachedFile_path [of env cfg flag ?p fs] by simp
  have err: "shows_only (\<lambda>q. under (fca_dir (pf_cache cfg)) q \<or> inside_server srv q \<or> error_page cfg q) (inside_server srv)
      (fy_content (HandleError env cfg fs1 code msg h))" for code msg
    by (rule shows_only_mono [OF HandleError_shows]) auto
  show ?thesis
  proof (cases "c = []")
    case True
    with get here try_file err show ?thesis
      by (simp add: HandleStaticFile_def Let_def HandleDirectoryListing_def split: stat_result.split node.split)
  next
    case False
    with c cached get show ?thesis by (simp add: HandleStaticFile_def)
  qed
qed

text \<open>Existing files change only in the cache directory.\<close>

definition keeps :: "(string \<Rightarrow> bool) \<Rightarrow> file_system \<Rightarrow> file_system \<Rightarrow> bool" where
  "keeps outside fs fs' \<longleftrightarrow> (\<forall>q n. fs q = Some n \<and> outside q \<longrightarrow> fs' q = Some n)"

lemma keeps_refl [simp]: "keeps A fs fs"
  and keeps_trans: "keeps A fs fs1 \<Longrightarrow> keeps A fs1 fs2 \<Longrightarrow> keeps A fs fs2"
  by (auto simp: keeps_def)

text \<open>What the operating system's calls change: \<open>MkdirAll\<close> only creates, \<open>Remove\<close> only removes its path.\<close>

definition os_calls :: "front_env \<Rightarrow> bool" where
  "os_calls env \<longleftrightarrow> (\<forall>d fs. keeps (\<lambda>_. True) fs (fe_mkdirAll env d fs)) \<and> (\<forall>p fs. keeps (\<lambda>q. q \<noteq> p) fs (fe_remove env p fs))"

lemma static_keeps:
  assumes "os_calls env" and "\<not> A (cached_path cfg flag (request_path srv p))"
  shows "keeps A fs (fst (HandleStaticFile env cfg srv flag p h fs))"
proof -
  let ?p = "request_path srv p"
  have out: "A q \<Longrightarrow> q \<noteq> cached_path cfg flag ?p" for q using assms(2) by blast
  obtain fs1 c where get: "GetCachedFile env cfg flag ?p fs = (fs1, c)" by (cases "GetCachedFile env cfg flag ?p fs")
  have "keeps A fs (fe_remove env (cached_path cfg flag ?p) fs)"
    using assms(1) out unfolding os_calls_def keeps_def by blast
  then have 1: "keeps A fs fs1" using get by (auto simp: GetCachedFile_def Let_def split: stat_result.splits if_splits)
  have "keeps A fs1 (fe_mkdirAll env d fs1)" for d using assms(1) unfolding os_calls_def keeps_def by blast
  moreover have "keeps A fs2 (os_write env (cached_path cfg flag ?p) data fs2)" for data fs2
    using out by (auto simp: os_write_def keeps_def split: option.splits node.splits)
  ultimately have "keeps A fs1 (CacheFile env cfg flag ?p f fs1)" for f
    by (auto simp: CacheFile_def Let_def split: option.split intro: keeps_trans)
  with 1 get show ?thesis
    by (auto simp: HandleStaticFile_def Let_def intro: keeps_trans split: stat_result.split node.split)
qed

section \<open>Requests\<close>

lemma find_server_some: "find_server cfg flag = Some srv \<Longrightarrow> srv \<in> set (pf_servers cfg) \<and> fs_name srv = flag"
  by (auto simp: find_server_def find_Some_iff)

text \<open>A request is answered by an error, a back end or the static files of its server.\<close>

lemma Front_serve_cases:
  assumes "Front_serve env cfg r fs = Return (fs', reply)" and "r_url r = Some url"
  obtains (error) code msg h where "fs' = fs" "reply = HandleError env cfg fs code msg h"
  | (proxied) b h where "fs' = fs" "reply = proxyToBackend env cfg fs b (u_path url) (u_query url) r h"
  | (static) srv h where "find_server cfg (req_get r (pf_internalFlag cfg)) = Some srv" "req_get r (pf_internalFlag cfg) \<noteq> []"
      "HandleStaticFile env cfg srv (req_get r (pf_internalFlag cfg)) (u_path url) h fs = (fs', reply)"
proof (cases "BackendProxyMiddleware env cfg fs (u_path url) (u_query url) r (CustomHeadersMiddleware cfg [])")
  case (Some rep)
  with assms have "fs' = fs" "rep = reply" by (simp_all add: Front_serve_def Let_def)
  with Some show ?thesis
    by (auto simp: BackendProxyMiddleware_def Let_def split: if_splits option.splits intro: proxied)
next
  case None
  then have rep: "RoutingMiddleware env cfg (u_path url) r (CustomHeadersMiddleware cfg []) fs = (fs', reply)"
    using assms by (simp add: Front_serve_def Let_def)
  show ?thesis
  proof (cases "req_get r (pf_internalFlag cfg) = []")
    case True
    with rep show ?thesis by (auto simp: RoutingMiddleware_def intro: error)
  next
    case False
    with rep show ?thesis
      by (cases "find_server cfg (req_get r (pf_internalFlag cfg))") (auto simp: RoutingMiddleware_def intro: error static)
  qed
qed


text \<open>
  C39. An alias without a closing slash lets requests out of its directory: the path made of the alias, two
  dots, a slash and the name of a file has no parent element, so the check of \<open>http.ServeFile\<close> accepts it, and
  it is answered with that file of the parent directory, outside the alias root.
\<close>

theorem alias_escape:
  assumes "fs_alias srv = [(a, dir)]" and "iteration_of (fe_aliases env (fs_alias srv)) (fs_alias srv)"
    and "a \<noteq> []" and "last a \<noteq> CHR ''/''" and "\<not> containsDotDot a"
    and "\<not> containsDotDot dir" and "elems dir = es @ [d]"
    and "\<not> containsDotDot f" and "take 1 (elems f) \<noteq> [d]"
    and "os_stat env fs (path_of (is_rooted dir) (es @ elems f)) = Found (FileNode data t)"
    and "os_stat env fs (cached_path cfg flag (a @ ''../'' @ f)) = NotExist"
  shows "\<not> containsDotDot (a @ ''../'' @ f)
       \<and> fy_content (snd (HandleStaticFile env cfg srv flag (a @ ''../'' @ f) h fs))
         = ServeFile (path_of (is_rooted dir) (es @ elems f))
       \<and> \<not> under dir (path_of (is_rooted dir) (es @ elems f))"
proof -
  let ?p = "a @ ''../'' @ f" and ?q = "path_of (is_rooted dir) (es @ elems f)"
  have req: "request_path srv ?p = ?p" using assms(3) by (cases a) (auto simp: request_path_def)
  have "fe_aliases env (fs_alias srv) = [(a, dir)]" using assms(1,2) by (simp add: iteration_of_def)
  moreover have "alias_path ?p [(a, dir)] = Some (pathJoin dir (''../'' @ f))"
    by (simp add: hasPrefix_def trimPrefix_def)
  ultimately have path: "file_path env srv ?p = ?q" using join_parent [OF assms(7,6,8)] by (simp add: file_path_def)
  have "GetCachedFile env cfg flag ?p fs = (fs, [])" using assms(11) by (simp add: GetCachedFile_def Let_def)
  then have served: "fy_content (snd (HandleStaticFile env cfg srv flag ?p h fs)) = ServeFile ?q"
    using req path assms(10) by (simp add: HandleStaticFile_def Let_def)
  have "\<forall>e \<in> set es. e \<noteq> [] \<and> e \<noteq> ''.'' \<and> e \<noteq> ''..'' \<and> CHR ''/'' \<notin> set e"
    using elems_parts [OF assms(6)] assms(7) by auto
  then have "elems ?q = es @ elems f" using path_of_parts(1) [OF ball_append [OF _ elems_parts [OF assms(8)]]] by blast
  then have "\<not> under dir ?q" using under_elems [of dir ?q] assms(6,7,9) by (cases "elems f") auto
  then show ?thesis using served hidden_parent [OF assms(3,4,5,8)] by blast
qed

section \<open>The cache\<close>

text \<open>
  C28. What the cache stores it returns: after a request for a file of a cached type, the next one for the
  same path is answered from the copy, marked with the cache header, with the bytes of the first read, as
  long as the copy has not expired (for ever if no expiry is set), even if the original has changed.
\<close>

theorem cached_copy:
  assumes "cached_path cfg flag (request_path srv path) = p" and "p \<noteq> []"
    and "file_path env srv (request_path srv path) = f"
    and "fca_enable (pf_cache cfg)"
    and "list_ex (\<lambda>pattern. pathMatch pattern (''*'' @ pathExt (request_path srv path))) (fca_matcher (pf_cache cfg))"
    and "\<not> fe_denied env f" and "\<not> fe_denied env p" and "fs f = Some (FileNode data t)" and "fs p = None"
    and "os_calls env" and "fe_mkdirAll env (pathDir p) fs (pathDir p) = Some (DirNode t')"
    and "fe_mkdirAll env (pathDir p) fs p = None"
    and "HandleStaticFile env cfg srv flag path h fs = (fs1, reply)"
    and "fs2 p = fs1 p"
    and "fca_expire (pf_cache cfg) \<le> 0
       \<or> \<not> fless (float_of_int (fca_expire (pf_cache cfg))) (duration_minutes (time_sub later (fe_now env)))"
  shows "fy_content reply = ServeFile f
       \<and> HandleStaticFile (env\<lparr>fe_now := later\<rparr>) cfg srv flag path h fs2
         = (fs2, \<lparr>fy_status = None, fy_header = gin_header (pf_cacheHeader cfg) ''True'' h, fy_content = ServeFile p\<rparr>)
       \<and> os_read (env\<lparr>fe_now := later\<rparr>) fs2 p = Some data"
proof -
  have miss: "GetCachedFile env cfg flag (request_path srv path) fs = (fs, [])"
    using assms(1,7,9) by (simp add: GetCachedFile_def os_stat_def)
  have "fe_mkdirAll env (pathDir p) fs f = Some (FileNode data t)"
    using assms(8,10) by (simp add: os_calls_def keeps_def)
  then have store: "CacheFile env cfg flag (request_path srv path) f fs = (fe_mkdirAll env (pathDir p) fs)(p \<mapsto> FileNode data (fe_now env))"
    using assms(1,6,7,11,12) by (simp add: CacheFile_def Let_def os_read_def os_stat_def os_write_def)
  have "ShouldCache env cfg fs (request_path srv path) f"
    using assms(4-6,8) by (simp add: ShouldCache_def os_stat_def)
  then have "fy_content reply = ServeFile f" "fs1 = CacheFile env cfg flag (request_path srv path) f fs"
    using assms(3,6,8,13) miss by (auto simp: HandleStaticFile_def Let_def os_stat_def)
  with store have first: "fy_content reply = ServeFile f" "fs1 p = Some (FileNode data (fe_now env))" by simp_all
  have "os_stat (env\<lparr>fe_now := later\<rparr>) fs2 p = Found (FileNode data (fe_now env))"
    using first(2) assms(7,14) by (simp add: os_stat_def)
  moreover from this have "GetCachedFile (env\<lparr>fe_now := later\<rparr>) cfg flag (request_path srv path) fs2 = (fs2, p)"
    using assms(1,15) by (auto simp: GetCachedFile_def)
  ultimately show ?thesis using first(1) assms(2) by (simp add: HandleStaticFile_def os_read_def)
qed

section \<open>Headers of proxied requests\<close>

definition canonical :: "Header \<Rightarrow> bool" where
  "canonical h \<longleftrightarrow> gomap_ok h \<and> (\<forall>(k, vs) \<in> set h. canonicalKey k = k)"

text \<open>A loop over the fields of a header, whose body changes one field.\<close>

lemma fold_fields:
  assumes step: "\<And>k vs h k'. hdr_values (f k vs h) k' = (if canonicalKey k' = canonicalKey k then g vs (hdr_values h k') else hdr_values h k')"
    and "distinct (map fst ord)" and "\<forall>(k, vs) \<in> set ord. canonicalKey k = k"
  shows "hdr_values (fold (\<lambda>(k, vs). f k vs) ord h) k
       = (case map_of ord (canonicalKey k) of None \<Rightarrow> hdr_values h k | Some vs \<Rightarrow> g vs (hdr_values h k))"
  using assms(2,3)
proof (induction ord arbitrary: h)
  case (Cons x ord)
  obtain k' vs where x: "x = (k', vs)" by (cases x)
  with Cons.prems have "k' \<notin> fst ` set ord" by auto
  then have "map_of ord k' = None" by (simp add: map_of_eq_None_iff)
  with Cons x show ?case by (auto simp: step split: option.split)
qed simp

lemma add_values:
  "hdr_values (fold (hdr_add k) vs h) k' = (if canonicalKey k' = canonicalKey k then hdr_values h k' @ vs else hdr_values h k')"
proof (induction vs arbitrary: h)
  case (Cons v vs)
  have "canonicalKey k' = canonicalKey k \<Longrightarrow> hdr_values h k = hdr_values h k'" by (simp add: hdr_values_def)
  with Cons show ?case by (simp add: hdr_values_add)
qed simp

definition kept_values :: "string list \<Rightarrow> string list \<Rightarrow> string list" where
  "kept_values vs old = (if vs = [] then old else if last vs = [] then [] else [last vs])"

lemma gin_values:
  "hdr_values (fold (gin_header k) vs h) k' = (if canonicalKey k' = canonicalKey k then kept_values vs (hdr_values h k') else hdr_values h k')"
  by (induction vs arbitrary: h) (auto simp: kept_values_def gin_header_def hdr_laws)

lemma map_of_iteration:
  assumes "canonical hdr" and "iteration_of ord hdr"
  shows "distinct (map fst ord)" and "\<forall>(k, vs) \<in> set ord. canonicalKey k = k" and "map_of ord = map_of hdr"
proof -
  show d: "distinct (map fst ord)" using assms iteration_ok unfolding canonical_def gomap_ok_def by blast
  show "\<forall>(k, vs) \<in> set ord. canonicalKey k = k" using assms iteration_set unfolding canonical_def by blast
  show "map_of ord = map_of hdr"
    using assms d by (intro map_of_inject_set [THEN iffD2]) (auto simp: canonical_def gomap_ok_def iteration_set)
qed

text \<open>
  Headers through the proxy of the front end server. The request to the back end carries every value of
  every field but the two internal flags, which are set. Of a field of the answer with several values only
  the last reaches the client, so that of several cookies set by the back end all but one are lost.
\<close>

theorem proxied_headers:
  assumes "canonical (r_header r)" and "iteration_of (fe_headers env (r_header r)) (r_header r)"
    and "canonical (resp_header resp)" and "iteration_of (fe_headers env (resp_header resp)) (resp_header resp)"
    and "fe_parse env (if hasPrefix (pf_balancer cfg) ''http://'' then pf_balancer cfg else ''http://'' @ pf_balancer cfg) = Some url"
    and "target = url\<lparr>u_path := target_path backend path, u_query := query\<rparr>"
    and "fe_body_ok env (r_body r)" and "fe_request_ok env (r_method r) target"
    and "fe_client env (backend_request env cfg backend target r) = Inr resp"
    and "reply = proxyToBackend env cfg fs backend path query r h"
  shows "fy_status reply = Some (resp_status resp) \<and> fy_content reply = Proxied (resp_body resp)
       \<and> (\<forall>k. hdr_values (or_header (backend_request env cfg backend target r)) k =
              (if canonicalKey k = canonicalKey (pf_internalBackendFlag cfg) then [be_service backend]
               else if canonicalKey k = canonicalKey (pf_internalLocalFlag cfg) then [''yes'']
               else hdr_values (r_header r) k))
       \<and> (\<forall>k. hdr_values (fy_header reply) k =
              (if hdr_values (resp_header resp) k = [] then hdr_values h k
               else if last (hdr_values (resp_header resp) k) = [] then [] else [last (hdr_values (resp_header resp) k)]))"
proof -
  note req = map_of_iteration [OF assms(1,2)] and ans = map_of_iteration [OF assms(3,4)]
  have out: "hdr_values (fold (\<lambda>(key, values) h. fold (hdr_add key) values h) (fe_headers env (r_header r)) []) k = hdr_values (r_header r) k" for k
    using fold_fields [OF add_values req(1,2), where h = "[]" and k = k] req(3)
    by (simp add: hdr_values_def case_prod_beta split: option.splits)
  have "hdr_values (copy_response_header env (resp_header resp) h) k = kept_values (hdr_values (resp_header resp) k) (hdr_values h k)" for k
    using fold_fields [OF gin_values ans(1,2), where h = h and k = k] ans(3)
    by (simp add: copy_response_header_def hdr_values_def [of "resp_header resp"] kept_values_def [of "[]"] case_prod_beta split: option.splits)
  moreover have "reply = \<lparr>fy_status = Some (resp_status resp), fy_header = copy_response_header env (resp_header resp) h,
      fy_content = Proxied (resp_body resp)\<rparr>"
    using assms(5-10) by (auto simp: proxyToBackend_def Let_def)
  ultimately show ?thesis by (simp add: out backend_request_def Let_def hdr_values_set kept_values_def)
qed

section \<open>The hypotheses hold\<close>

definition web_server :: "string \<Rightarrow> FrontServerConfig" where
  "web_server aliasPath = \<lparr>fs_type = ''FileServer'', fs_name = ''web'', fs_root = ''/srv/web'', fs_index = ''i.html'',
     fs_tryFile = [], fs_access = False, fs_compress = False, fs_alias = [(aliasPath, ''/srv/st'')], fs_backends = []\<rparr>"

definition web_config :: PxyFrontConfig where
  "web_config = zero_PxyFrontConfig\<lparr>pf_cache := \<lparr>fca_enable = True, fca_dir = ''/cache'', fca_expire = 0, fca_matcher = [''*.css'']\<rparr>,
     pf_internalFlag := ''Flag'', pf_balancer := ''lb'', pf_servers := [web_server ''/st/'']\<rparr>"

definition cookie_response :: Response where
  "cookie_response = \<lparr>resp_status = 201, resp_header = [(''Set-Cookie'', [''a=1'', ''b=2''])], resp_body = ''ok'',
     resp_length = 2, resp_request = \<lparr>r_method = [], r_host = [], r_remote = [], r_proto = [], r_url = None,
       r_header = [], r_body = [], r_length = 0\<rparr>\<rparr>"

definition web_env :: front_env where
  "web_env = \<lparr>fe_denied = \<lambda>_. False, fe_now = 5, fe_mkdirAll = \<lambda>_ fs. fs, fe_remove = \<lambda>p fs. fs(p := None),
     fe_aliases = \<lambda>m. m, fe_headers = \<lambda>m. m, fe_parse = \<lambda>s. Some (empty_url\<lparr>u_host := s\<rparr>),
     fe_body_ok = \<lambda>_. True, fe_request_ok = \<lambda>_ _. True, fe_client = \<lambda>_. Inr cookie_response\<rparr>"

definition web_files :: file_system where
  "web_files = [''/srv/web/a.css'' \<mapsto> FileNode ''css'' 0, ''/cache/web'' \<mapsto> DirNode 0, ''/srv/key'' \<mapsto> FileNode ''pw'' 0]"

definition web_request :: Request where
  "web_request = \<lparr>r_method = ''GET'', r_host = [], r_remote = [], r_proto = [],
     r_url = Some (empty_url\<lparr>u_path := ''/a.css''\<rparr>), r_header = [(''Flag'', [''web''])], r_body = [], r_length = 0\<rparr>"

lemma web_env_ok: "os_calls web_env" "iteration_of (fe_aliases web_env m) m" "iteration_of (fe_headers web_env h) h"
  by (simp_all add: os_calls_def keeps_def web_env_def iteration_of_def)


theorem alias_escape_witness:
  "fy_content (snd (HandleStaticFile web_env web_config (web_server ''/st'') ''web'' ''/st../key'' [] web_files)) = ServeFile ''/srv/key''
     \<and> \<not> under ''/srv/st'' ''/srv/key''"
proof -
  have el: "elems ''/srv/st'' = [''srv''] @ [''st'']" "elems ''key'' = [''key'']" "path_of (is_rooted ''/srv/st'') ([''srv''] @ elems ''key'') = ''/srv/key''"
    "cached_path web_config ''web'' (''/st'' @ ''../'' @ ''key'') = ''/cache/web/st../key''" by code_simp+
  have dots: "\<not> containsDotDot ''/st''" "\<not> containsDotDot ''/srv/st''" "\<not> containsDotDot ''key''" by code_simp+
  have st: "os_stat web_env web_files (path_of (is_rooted ''/srv/st'') ([''srv''] @ elems ''key'')) = Found (FileNode ''pw'' 0)"
    "os_stat web_env web_files (cached_path web_config ''web'' (''/st'' @ ''../'' @ ''key'')) = NotExist"
    unfolding el(3,4) by (simp_all add: os_stat_def web_env_def web_files_def)
  show ?thesis
    using alias_escape [of "web_server ''/st''" "''/st''" "''/srv/st''" web_env "[''srv'']" "''st''" "''key''" web_files "''pw''" 0 web_config "''web''" "[]"]
      web_env_ok(2) dots el(1,2) st unfolding el(3) by (simp add: web_server_def)
qed

theorem cached_copy_witness:
  "\<exists>fs1 reply. HandleStaticFile web_env web_config (web_server ''/st/'') ''web'' ''/a.css'' [] web_files = (fs1, reply)
     \<and> fy_content reply = ServeFile ''/srv/web/a.css''
     \<and> os_read (web_env\<lparr>fe_now := 9\<rparr>) (fs1(''/srv/web/a.css'' := None)) ''/cache/web/a.css'' = Some ''css''"
proof -
  let ?srv = "web_server ''/st/''"
  obtain fs1 reply where first: "HandleStaticFile web_env web_config ?srv ''web'' ''/a.css'' [] web_files = (fs1, reply)"
    by (cases "HandleStaticFile web_env web_config ?srv ''web'' ''/a.css'' [] web_files")
  have path: "cached_path web_config ''web'' (request_path ?srv ''/a.css'') = ''/cache/web/a.css''"
    "file_path web_env ?srv (request_path ?srv ''/a.css'') = ''/srv/web/a.css''"
    "list_ex (\<lambda>pattern. pathMatch pattern (''*'' @ pathExt (request_path ?srv ''/a.css''))) (fca_matcher (pf_cache web_config))"
    "pathDir ''/cache/web/a.css'' = ''/cache/web''" by code_simp+
  show ?thesis
    using cached_copy [OF path(1) _ path(2) _ path(3), where fs = web_files and data = "''css''" and t = 0 and t' = 0
          and h = "[]" and ?fs1.0 = fs1 and reply = reply and ?fs2.0 = "fs1(''/srv/web/a.css'' := None)" and later = 9]
      first web_env_ok(1) unfolding path(4) by (simp add: web_env_def web_files_def web_config_def)
qed

definition lb_backend :: BackendConfig where
  "lb_backend = \<lparr>be_aPI = ''/api'', be_service = ''svc'', be_useRewrite = True, be_rewrite = []\<rparr>"

theorem proxied_headers_witness:
  "hdr_values (fy_header (proxyToBackend web_env web_config web_files lb_backend ''/api/x'' [] web_request [])) ''Set-Cookie'' = [''b=2'']"
proof -
  have "canonicalKey ''Flag'' = ''Flag''" "canonicalKey ''Set-Cookie'' = ''Set-Cookie''" by code_simp+
  then have "canonical (r_header web_request)" "canonical (resp_header cookie_response)"
      "hdr_values (resp_header cookie_response) ''Set-Cookie'' = [''a=1'', ''b=2'']"
    by (simp_all add: canonical_def web_request_def cookie_response_def gomap_ok_def hdr_values_def)
  then show ?thesis
    using proxied_headers [where r = web_request and env = web_env and resp = cookie_response and cfg = web_config
        and url = "empty_url\<lparr>u_host := ''http://lb''\<rparr>" and backend = lb_backend and path = "''/api/x''" and query = "[]"
        and reply = "proxyToBackend web_env web_config web_files lb_backend ''/api/x'' [] web_request []" and fs = web_files and h = "[]"]
      web_env_ok(3)
    by (simp add: web_env_def web_config_def hasPrefix_def)
qed

end
