(* ===== verification/HttpServers.thy ===== *)
theory HttpServers
  imports GoHttp Config Breaker
begin

text \<open>
  The HTTP servers of the gateway (\<open>gateway/server\<close>): the reader that limits request bodies, the handlers
  wrapped around the proxy (tag, body size, redirect to HTTPS), and the creation of a server. Listening and the
  TLS manager's answer are parameters.
\<close>

section \<open>Reading a body\<close>

text \<open>A read of at most \<open>n\<close> bytes returns the next state, the bytes and an error, if any.\<close>

type_synonym 'b read_op = "'b \<Rightarrow> nat \<Rightarrow> 'b \<times> string \<times> string option"

definition body_read :: "string read_op" where
  "body_read b n = (if b = [] then ([], [], Some ''EOF'') else (drop n b, take n b, None))"

record 'b limitedReader =
  lr_ReadCloser :: 'b
  lr_limit :: int
  lr_read :: int
  lr_exceeded :: bool

definition too_large :: string where
  "too_large = ''request entity too large''"

definition limited_Read :: "'b read_op \<Rightarrow> 'b limitedReader read_op" where
  "limited_Read rd lr n =
     (if lr_exceeded lr then (lr, [], Some too_large)
      else (let (b, data, err) = rd (lr_ReadCloser lr) n;
                lr = lr\<lparr>lr_ReadCloser := b, lr_read := wrap64 (lr_read lr + int (length data))\<rparr>
            in if lr_limit lr < lr_read lr then (lr\<lparr>lr_exceeded := True\<rparr>, [], Some too_large)
               else (lr, data, err)))"

fun reads :: "'b read_op \<Rightarrow> 'b \<Rightarrow> nat list \<Rightarrow> (string \<times> string option) list" where
  "reads rd b [] = []"
| "reads rd b (n # ns) = (case rd b n of (b', data, err) \<Rightarrow> (data, err) # reads rd b' ns)"

definition delivered :: "(string \<times> string option) list \<Rightarrow> string" where
  "delivered rs = concat (map fst rs)"

lemma delivered_simps [simp]: "delivered [] = []" "delivered (r # rs) = fst r @ delivered rs"
  by (simp_all add: delivered_def)

text \<open>Buffers so small that the counter does not overflow.\<close>

definition small_reads :: "int \<Rightarrow> nat list \<Rightarrow> bool" where
  "small_reads limit ns \<longleftrightarrow> (\<forall>n \<in> set ns. limit + int n \<le> int_max)"

text \<open>A reader gives the bytes of its content in order, never more than asked for.\<close>

locale body_reader =
  fixes rd :: "'b read_op" and content :: "'b \<Rightarrow> string"
  assumes read_content: "rd b n = (b', data, err) \<Longrightarrow> content b = data @ content b'"
    and read_length: "rd b n = (b', data, err) \<Longrightarrow> length data \<le> n"
begin

lemma reads_prefix: "\<exists>rest. content b = delivered (reads rd b ns) @ rest"
proof (induction ns arbitrary: b)
  case (Cons n ns)
  obtain b' data err where r: "rd b n = (b', data, err)" by (meson prod_cases3)
  with Cons [of b'] read_content [OF r] show ?case by auto
qed simp

lemma limited_exceeded: "lr_exceeded lr \<Longrightarrow> reads (limited_Read rd) lr ns = map (\<lambda>_. ([], Some too_large)) ns"
  by (induction ns arbitrary: lr) (auto simp: limited_Read_def)

text \<open>Through the limiter, what is delivered stays a prefix within the limit.\<close>

lemma limited_prefix:
  assumes "\<not> lr_exceeded lr" and "0 \<le> lr_read lr" and "lr_read lr \<le> lr_limit lr" and "small_reads (lr_limit lr) ns"
  shows "(\<exists>rest. content (lr_ReadCloser lr) = delivered (reads (limited_Read rd) lr ns) @ rest)
    \<and> lr_read lr + int (length (delivered (reads (limited_Read rd) lr ns))) \<le> lr_limit lr"
  using assms
proof (induction ns arbitrary: lr)
  case (Cons n ns)
  obtain b data err where r: "rd (lr_ReadCloser lr) n = (b, data, err)" by (meson prod_cases3)
  let ?total = "lr_read lr + int (length data)"
  have "?total \<le> int_max" "small_reads (lr_limit lr) ns"
    using Cons.prems(3,4) read_length [OF r] by (auto simp: small_reads_def)
  then have w: "wrap64 ?total = ?total" using Cons.prems(2) by (simp add: in_int64_def int_min_def)
  show ?case
  proof (cases "lr_limit lr < ?total")
    case True
    let ?lr = "lr\<lparr>lr_ReadCloser := b, lr_read := ?total, lr_exceeded := True\<rparr>"
    have "limited_Read rd lr n = (?lr, [], Some too_large)" using r w True Cons.prems(1) by (simp add: limited_Read_def)
    moreover have "delivered (reads (limited_Read rd) ?lr ns) = []"
      by (simp add: limited_exceeded) (simp add: delivered_def)
    ultimately show ?thesis using Cons.prems(3) by simp
  next
    case False
    let ?lr = "lr\<lparr>lr_ReadCloser := b, lr_read := ?total\<rparr>"
    have step: "limited_Read rd lr n = (?lr, data, err)" using r w False Cons.prems(1) by (simp add: limited_Read_def)
    have "(\<exists>rest. content b = delivered (reads (limited_Read rd) ?lr ns) @ rest)
        \<and> ?total + int (length (delivered (reads (limited_Read rd) ?lr ns))) \<le> lr_limit lr"
      using Cons.IH [of ?lr] Cons.prems False \<open>small_reads (lr_limit lr) ns\<close> by simp
    then show ?thesis using step read_content [OF r] by auto
  qed
qed simp

text \<open>A body within the limit is read as without the limiter.\<close>

lemma limited_same:
  assumes "\<not> lr_exceeded lr" and "0 \<le> lr_read lr" and "lr_limit lr \<le> int_max"
    and "lr_read lr + int (length (content (lr_ReadCloser lr))) \<le> lr_limit lr"
  shows "reads (limited_Read rd) lr ns = reads rd (lr_ReadCloser lr) ns"
  using assms
proof (induction ns arbitrary: lr)
  case (Cons n ns)
  obtain b data err where r: "rd (lr_ReadCloser lr) n = (b, data, err)" by (meson prod_cases3)
  let ?total = "lr_read lr + int (length data)"
  have total: "?total + int (length (content b)) \<le> lr_limit lr" using Cons.prems(4) read_content [OF r] by simp
  then have "wrap64 ?total = ?total" using Cons.prems(2,3) by (simp add: in_int64_def int_min_def)
  then have "limited_Read rd lr n = (lr\<lparr>lr_ReadCloser := b, lr_read := ?total\<rparr>, data, err)"
    using r total Cons.prems(1) by (simp add: limited_Read_def)
  with r Cons.IH [of "lr\<lparr>lr_ReadCloser := b, lr_read := ?total\<rparr>"] Cons.prems total show ?case by simp
qed simp

end

interpretation body: body_reader body_read id
  by unfold_locales (auto simp: body_read_def split: if_splits)

section \<open>Handlers\<close>

text \<open>
  A request at a server: with the request URI and, once a wrapper has put a limiter around the body, its limit.
  A handler writes to a response writer.
\<close>

record ServerRequest = Request +
  sr_uri :: string
  sr_limit :: "int option"

type_synonym handler = "ServerRequest \<Rightarrow> ResponseWriter \<Rightarrow> ResponseWriter outcome"

text \<open>What a handler gets from the body by reads of the given sizes.\<close>

definition request_reads :: "ServerRequest \<Rightarrow> nat list \<Rightarrow> (string \<times> string option) list" where
  "request_reads r ns =
     (case sr_limit r of
        None \<Rightarrow> reads body_read (r_body r) ns
      | Some limit \<Rightarrow>
          reads (limited_Read body_read)
            \<lparr>lr_ReadCloser = r_body r, lr_limit = limit, lr_read = 0, lr_exceeded = False\<rparr> ns)"

definition wrapHandlerWithTag :: "handler \<Rightarrow> handler" where
  "wrapHandlerWithTag h r w = h r w"

definition wrapHandlerWithMaxBody :: "handler \<Rightarrow> ServerConfig \<Rightarrow> handler" where
  "wrapHandlerWithMaxBody h cfg r w =
     (let limit = srv_maxRequestBody cfg in
      if 0 < limit \<and> limit < r_length r
      then Return (rw_Write ''Request entity too large'' (rw_WriteHeader 413 (rw_set ''Connection'' ''close'' w)))
      else h (if 0 < limit \<and> (r_length r = -1 \<or> r_length r = 0) then r\<lparr>sr_limit := Some limit\<rparr> else r) w)"

text \<open>\<open>http.Redirect\<close> to an absolute URL, with the escaping of its page.\<close>

fun htmlEscape :: "string \<Rightarrow> string" where
  "htmlEscape [] = []"
| "htmlEscape (c # cs) =
     (if c = CHR ''&'' then ''&amp;''
      else if c = CHR ''<'' then ''&lt;''
      else if c = CHR ''>'' then ''&gt;''
      else if c = CHR 0x22 then ''&#34;''
      else if c = CHR 0x27 then ''&#39;'' else [c]) @ htmlEscape cs"

definition http_Redirect :: "ServerRequest \<Rightarrow> string \<Rightarrow> string \<Rightarrow> int \<Rightarrow> ResponseWriter \<Rightarrow> ResponseWriter" where
  "http_Redirect r url status_text code w =
     (let hadCT = (gm_get (rw_header w) ''Content-Type'' \<noteq> None);
          w = rw_set ''Location'' url w;
          w = (if \<not> hadCT \<and> (r_method r = ''GET'' \<or> r_method r = ''HEAD'')
               then rw_set ''Content-Type'' ''text/html; charset=utf-8'' w else w);
          w = rw_WriteHeader code w
      in if \<not> hadCT \<and> r_method r = ''GET''
         then rw_Write (''<a href='' @ [CHR 0x22] @ htmlEscape url @ [CHR 0x22] @ ''>'' @ status_text @ ''</a>.''
                @ [CHR 0x0A, CHR 0x0A]) w
         else w)"

definition strip_port :: "string \<Rightarrow> string" where
  "strip_port host = (case lastIndexChar CHR '':'' host of None \<Rightarrow> host | Some i \<Rightarrow> take i host)"

definition domain_matches :: "string \<Rightarrow> string \<Rightarrow> bool" where
  "domain_matches host configuredDomain \<longleftrightarrow>
     host = configuredDomain \<or> (hasPrefix configuredDomain ''*.'' \<and> hasSuffix host (tl configuredDomain))"

fun redirect_config :: "string \<Rightarrow> DomainConfig list \<Rightarrow> DomainConfig option" where
  "redirect_config host [] = None"
| "redirect_config host (dc # dcs) =
     (if dom_autoRedirect dc \<and> list_ex (domain_matches host) (dom_domains dc) then Some dc
      else redirect_config host dcs)"

definition hsts_value :: "DomainConfig \<Rightarrow> string" where
  "hsts_value dc = ''max-age='' @ itoa (dom_hSTSMaxAge dc)
     @ (if dom_hSTSSubdomains dc then ''; includeSubDomains'' else [])
     @ (if dom_hSTSPreload dc then ''; preload'' else [])"

definition wrapHandlerWithAutoHttpsRedirect :: "handler \<Rightarrow> ServerConfig \<Rightarrow> handler" where
  "wrapHandlerWithAutoHttpsRedirect h cfg r w =
     (if srv_protocol cfg = ''http''
      then (case redirect_config (strip_port (r_host r)) (srv_domainConfig cfg) of
              None \<Rightarrow> h r w
            | Some dc \<Rightarrow>
                (let w = (if 0 < dom_hSTSMaxAge dc then rw_set ''Strict-Transport-Security'' (hsts_value dc) w else w)
                 in Return (http_Redirect r (''https://'' @ r_host r @ sr_uri r) ''Permanent Redirect'' 308 w)))
      else h r w)"

section \<open>Creating a server\<close>

text \<open>\<open>'l\<close> are listeners, \<open>'t\<close> TLS configurations; the protocols are those of \<open>http.Protocols\<close>.\<close>

record http_server =
  hs_Addr :: string
  hs_Handler :: handler
  hs_ReadTimeout :: duration
  hs_WriteTimeout :: duration
  hs_IdleTimeout :: duration
  hs_ReadHeaderTimeout :: duration
  hs_MaxHeaderBytes :: int
  hs_HTTP1 :: bool
  hs_HTTP2 :: bool
  hs_UnencryptedHTTP2 :: bool

record ('l, 't) ServerInstance =
  si_Name :: string
  si_Server :: http_server
  si_Listener :: 'l
  si_TLSConfig :: "'t option"
  si_TLS :: bool
  si_Started :: bool
  si_Error :: "string option"
  si_Config :: ServerConfig

definition server_addr :: "ServerConfig \<Rightarrow> string" where
  "server_addr cfg = srv_host cfg @ '':'' @ itoa (srv_port cfg)"

definition server_handler :: "ServerConfig \<Rightarrow> handler \<Rightarrow> handler" where
  "server_handler cfg h =
     (let origin = wrapHandlerWithTag h;
          limited = (if 0 < srv_maxRequestBody cfg then wrapHandlerWithMaxBody origin cfg else origin)
      in if srv_protocol cfg = ''http'' then wrapHandlerWithAutoHttpsRedirect limited cfg else limited)"

definition seconds :: "int \<Rightarrow> int \<Rightarrow> duration" where
  "seconds n def = wrap64 (Second * DefaultInt64 n def)"

text \<open>
  \<open>listen\<close> opens a listener for an address; \<open>tls\<close> is \<open>ConfigureTLS\<close> of the TLS manager, if there is one,
  answering with the TLS configuration and the TLS listener.
\<close>

definition CommonHttpServer ::
    "(string \<Rightarrow> string + 'l) \<Rightarrow> (TLSConfig option \<Rightarrow> 'l \<Rightarrow> string + 't \<times> 'l) option \<Rightarrow> ServerConfig \<Rightarrow> handler
       \<Rightarrow> string + ('l, 't) ServerInstance" where
  "CommonHttpServer listen tls cfg h =
     (let use_tls = (srv_protocol cfg = ''https'' \<or> srv_protocol cfg = ''http3'');
          svr = \<lparr>hs_Addr = server_addr cfg, hs_Handler = server_handler cfg h,
            hs_ReadTimeout = seconds (srv_readTimeout cfg) 30, hs_WriteTimeout = seconds (srv_writeTimeout cfg) 30,
            hs_IdleTimeout = seconds (srv_idleTimeout cfg) 60, hs_ReadHeaderTimeout = seconds (srv_readHeaderTimeout cfg) 10,
            hs_MaxHeaderBytes = DefaultInt (srv_maxHeaderBytes cfg) (5 * 2 ^ 20),
            hs_HTTP1 = True, hs_HTTP2 = srv_useHttp2 cfg, hs_UnencryptedHTTP2 = srv_useHttp2 cfg\<rparr>
      in case listen (server_addr cfg) of
           Inl err \<Rightarrow> Inl (''failed to create listener: '' @ err)
         | Inr l \<Rightarrow>
             (let inst = \<lparr>si_Name = srv_name cfg, si_Server = svr, si_Listener = l, si_TLSConfig = None,
                    si_TLS = use_tls, si_Started = False, si_Error = None, si_Config = cfg\<rparr>
              in case (if use_tls then tls else None) of
                   None \<Rightarrow> Inr inst
                 | Some configure \<Rightarrow>
                     (case configure (srv_tLS cfg) l of
                        Inl err \<Rightarrow> Inl (''failed to configure TLS: '' @ err)
                      | Inr (c, l') \<Rightarrow> Inr (inst\<lparr>si_Listener := l', si_TLSConfig := Some c\<rparr>))))"

section \<open>What a server does with a request\<close>

lemma server_handler_cases:
  "server_handler cfg h r w =
     (case (if srv_protocol cfg = ''http'' then redirect_config (strip_port (r_host r)) (srv_domainConfig cfg) else None) of
        Some dc \<Rightarrow> Return (http_Redirect r (''https://'' @ r_host r @ sr_uri r) ''Permanent Redirect'' 308
          (if 0 < dom_hSTSMaxAge dc then rw_set ''Strict-Transport-Security'' (hsts_value dc) w else w))
      | None \<Rightarrow>
          if 0 < srv_maxRequestBody cfg \<and> srv_maxRequestBody cfg < r_length r
          then Return (rw_Write ''Request entity too large'' (rw_WriteHeader 413 (rw_set ''Connection'' ''close'' w)))
          else h (if 0 < srv_maxRequestBody cfg \<and> (r_length r = -1 \<or> r_length r = 0)
                  then r\<lparr>sr_limit := Some (srv_maxRequestBody cfg)\<rparr> else r) w)"
  by (auto simp: server_handler_def wrapHandlerWithAutoHttpsRedirect_def wrapHandlerWithMaxBody_def wrapHandlerWithTag_def
      Let_def split: option.split)

lemma created_handler:
  "CommonHttpServer listen tls cfg h = Inr inst \<Longrightarrow> hs_Handler (si_Server inst) = server_handler cfg h"
  by (auto simp: CommonHttpServer_def Let_def split: sum.splits option.splits prod.splits if_splits)

text \<open>A domain of the configuration covers a host literally or as a wildcard.\<close>

definition covers :: "DomainConfig \<Rightarrow> string \<Rightarrow> bool" where
  "covers dc host \<longleftrightarrow> dom_autoRedirect dc
     \<and> (host \<in> set (dom_domains dc) \<or> (\<exists>base sub. ''*.'' @ base \<in> set (dom_domains dc) \<and> host = sub @ ''.'' @ base))"

lemma domain_matches_iff:
  "domain_matches host d \<longleftrightarrow> host = d \<or> (\<exists>base sub. d = ''*.'' @ base \<and> host = sub @ ''.'' @ base)"
  by (auto simp: domain_matches_def hasPrefix_iff hasSuffix_iff)

lemma redirect_config_None: "redirect_config host dcs = None \<longleftrightarrow> (\<forall>dc \<in> set dcs. \<not> covers dc host)"
  by (induction dcs) (auto simp: covers_def list_ex_iff domain_matches_iff)


text \<open>
  C18. The proxy never reads more of a body than the configured limit, in whatever pieces it reads: what it gets
  is a prefix of the body of at most that length, and exactly the body's bytes and errors when the body is within the
  limit. A body has its declared length or, when the length is unknown, any length.
\<close>

theorem body_bounded:
  assumes "CommonHttpServer listen tls cfg h = Inr inst" and "sr_limit r = None"
    and "0 < srv_maxRequestBody cfg" and "small_reads (srv_maxRequestBody cfg) ns"
    and "r_length r = -1 \<or> r_length r = int (length (r_body r))"
    and "r_length r \<le> srv_maxRequestBody cfg"
    and "\<forall>dc \<in> set (srv_domainConfig cfg). \<not> covers dc (strip_port (r_host r))"
  shows "\<exists>r'. hs_Handler (si_Server inst) r w = h r' w
    \<and> (\<exists>rest. r_body r = delivered (request_reads r' ns) @ rest)
    \<and> int (length (delivered (request_reads r' ns))) \<le> srv_maxRequestBody cfg
    \<and> (int (length (r_body r)) \<le> srv_maxRequestBody cfg \<and> srv_maxRequestBody cfg \<le> int_max
         \<longrightarrow> request_reads r' ns = request_reads r ns)"
proof -
  let ?m = "srv_maxRequestBody cfg"
  let ?r = "if r_length r = -1 \<or> r_length r = 0 then r\<lparr>sr_limit := Some ?m\<rparr> else r"
  let ?lr = "\<lparr>lr_ReadCloser = r_body r, lr_limit = ?m, lr_read = 0, lr_exceeded = False\<rparr>"
  have "redirect_config (strip_port (r_host r)) (srv_domainConfig cfg) = None" using assms(7) redirect_config_None by blast
  then have served: "hs_Handler (si_Server inst) r w = h ?r w"
    using assms(3,6) created_handler [OF assms(1)] by (simp add: server_handler_cases)
  have limited: "(\<exists>rest. r_body r = delivered (reads (limited_Read body_read) ?lr ns) @ rest)
      \<and> int (length (delivered (reads (limited_Read body_read) ?lr ns))) \<le> ?m"
    using body.limited_prefix [of ?lr ns] assms(3,4) by simp
  have plain: "\<exists>rest. r_body r = delivered (reads body_read (r_body r) ns) @ rest" using body.reads_prefix [of "r_body r" ns] by simp
  then obtain rest where "r_body r = delivered (reads body_read (r_body r) ns) @ rest" by blast
  then have "length (r_body r) = length (delivered (reads body_read (r_body r) ns)) + length rest" by (metis length_append)
  then have "int (length (delivered (reads body_read (r_body r) ns))) \<le> ?m" if "r_length r \<noteq> -1"
    using that assms(5,6) by linarith
  moreover have "reads (limited_Read body_read) ?lr ns = reads body_read (r_body r) ns"
    if "int (length (r_body r)) \<le> ?m" "?m \<le> int_max"
    using that body.limited_same [of ?lr ns] by simp
  ultimately show ?thesis
    using served limited plain assms(2) by (intro exI [of _ ?r]) (auto simp: request_reads_def)
qed

section \<open>The hypotheses hold\<close>

definition shop_server :: ServerConfig where
  "shop_server = \<lparr>srv_name = ''web'', srv_host = ''0.0.0.0'', srv_port = 80, srv_useHttp2 = False, srv_protocol = ''http'',
     srv_enabled = True, srv_maxRequestBody = 4, srv_tLS = None,
     srv_domainConfig = [\<lparr>dom_domains = [''*.shop.com''], dom_useTLS = True, dom_autoRedirect = True, dom_useWebsocket = False,
       dom_hSTSMaxAge = 60, dom_hSTSSubdomains = True, dom_hSTSPreload = False\<rparr>],
     srv_serviceDomains = [], srv_service = [], srv_readTimeout = 0, srv_writeTimeout = 0, srv_idleTimeout = 0,
     srv_readHeaderTimeout = 0, srv_maxHeaderBytes = 0\<rparr>"

definition shop_request :: "string \<Rightarrow> string \<Rightarrow> ServerRequest" where
  "shop_request host body = \<lparr>r_method = ''POST'', r_host = host, r_remote = [], r_proto = [], r_url = None, r_header = [],
     r_body = body, r_length = -1, sr_uri = ''/pay'', sr_limit = None\<rparr>"

definition echo :: handler where
  "echo r w = Return (rw_Write (delivered (request_reads r [3, 3])) w)"

lemma shop_created: "\<exists>inst. CommonHttpServer (\<lambda>a. Inr a) (None :: (TLSConfig option \<Rightarrow> string \<Rightarrow> string + unit \<times> string) option) shop_server echo = Inr inst"
  by (simp add: CommonHttpServer_def shop_server_def Let_def)


theorem body_bounded_witness:
  "\<exists>r'. server_handler shop_server echo (shop_request ''a.com'' ''abcdefgh'') new_writer = echo r' new_writer
     \<and> length (delivered (request_reads r' [3, 3])) \<le> 4"
proof -
  obtain inst where inst: "CommonHttpServer (\<lambda>a. Inr a) (None :: (TLSConfig option \<Rightarrow> string \<Rightarrow> string + unit \<times> string) option)
      shop_server echo = Inr inst" using shop_created by blast
  have "redirect_config (strip_port ''a.com'') (srv_domainConfig shop_server) = None" by code_simp
  then have "\<forall>dc \<in> set (srv_domainConfig shop_server). \<not> covers dc (strip_port (r_host (shop_request ''a.com'' ''abcdefgh'')))"
    by (simp add: redirect_config_None shop_request_def)
  then show ?thesis
    using body_bounded [OF inst, of "shop_request ''a.com'' ''abcdefgh''" "[3, 3]" new_writer] created_handler [OF inst]
    by (auto simp: shop_server_def shop_request_def small_reads_def int_max_def)
qed

end
