(* ===== verification/Http3Server.thy ===== *)
theory Http3Server
  imports HttpServers
begin

text \<open>
  The HTTP/3 server (\<open>gateway/server/http3_server.go\<close>): its life cycle, configuration and health check. The
  network and the QUIC library are parameters: resolving, opening and listening on an address, and the answers of
  shutting down. The goroutine \<open>serve\<close> ends at any time, with or without an error, and changes nothing but the log.
\<close>

section \<open>State\<close>

record quic_config =
  qc_MaxIncomingStreams :: int
  qc_MaxIdleTimeout :: duration
  qc_KeepAlivePeriod :: duration
  qc_EnableDatagrams :: bool

text \<open>\<open>q_server\<close>: the handler and configuration of the server of the QUIC library, once created. \<open>q_serving\<close>: whether its goroutine runs.\<close>

record Server =
  q_config :: HTTP3Config
  q_server :: "(handler \<times> quic_config) option"
  q_listener :: "string option"
  q_handler :: handler
  q_started :: bool
  q_serving :: bool
  q_cancelled :: bool

record quic_env =
  qe_resolve :: "string \<Rightarrow> string + string"
  qe_open :: "string \<Rightarrow> string + unit"
  qe_listen :: "string \<Rightarrow> string + string"

definition ToSecond :: "int \<Rightarrow> duration" where
  "ToSecond t = wrap64 (t * Second)"

definition NewHttp3Server :: "HTTP3Config \<Rightarrow> handler \<Rightarrow> Server" where
  "NewHttp3Server cfg h = \<lparr>q_config = cfg, q_server = None, q_listener = None, q_handler = h, q_started = False,
     q_serving = False, q_cancelled = False\<rparr>"

section \<open>Operations\<close>

definition createQUICConfig :: "Server \<Rightarrow> quic_config" where
  "createQUICConfig s = \<lparr>qc_MaxIncomingStreams = h3_maxConnections (q_config s), qc_MaxIdleTimeout = ToSecond (h3_idleTimeout (q_config s)),
     qc_KeepAlivePeriod = ToSecond (h3_keepAlive (q_config s)), qc_EnableDatagrams = True\<rparr>"

definition Http3_Start :: "quic_env \<Rightarrow> string \<Rightarrow> Server \<Rightarrow> Server \<times> string option" where
  "Http3_Start env addr s =
     (if q_started s then (s, Some ''http/3 server already started'')
      else if \<not> h3_enabled (q_config s) then (s, Some ''http/3 feature disabled'')
      else (case qe_resolve env addr of
              Inl err \<Rightarrow> (s, Some (''failed to resolve udp address: '' @ err))
            | Inr udpAddr \<Rightarrow>
                (case qe_open env udpAddr of
                   Inl err \<Rightarrow> (s, Some (''failed to create udp listener: '' @ err))
                 | Inr _ \<Rightarrow>
                     (case qe_listen env udpAddr of
                        Inl err \<Rightarrow> (s\<lparr>q_listener := None\<rparr>, Some (''failed to create quic listener: '' @ err))
                      | Inr l \<Rightarrow> (s\<lparr>q_listener := Some l, q_server := Some (q_handler s, createQUICConfig s),
                          q_started := True, q_serving := True\<rparr>, None)))))"

text \<open>The goroutine of \<open>serve\<close> ends.\<close>

definition serve_ends :: "Server \<Rightarrow> Server" where
  "serve_ends s = s\<lparr>q_serving := False\<rparr>"

definition Http3_Stop :: "Server \<Rightarrow> Server \<times> string option" where
  "Http3_Stop s =
     (if \<not> q_started s then (s, Some ''http/3 server not started'')
      else (s\<lparr>q_serving := False, q_cancelled := True, q_started := False\<rparr>, None))"

definition Http3_IsStarted :: "Server \<Rightarrow> bool" where
  "Http3_IsStarted s = q_started s"

record Stats =
  ss_Enabled :: bool
  ss_Started :: bool
  ss_MaxConnections :: int
  ss_ActiveConnections :: int
  ss_IdleTimeout :: duration
  ss_KeepAlive :: duration

definition Http3_GetStats :: "Server \<Rightarrow> Stats" where
  "Http3_GetStats s = \<lparr>ss_Enabled = h3_enabled (q_config s), ss_Started = q_started s, ss_MaxConnections = h3_maxConnections (q_config s),
     ss_ActiveConnections = 0, ss_IdleTimeout = ToSecond (h3_idleTimeout (q_config s)), ss_KeepAlive = ToSecond (h3_keepAlive (q_config s))\<rparr>"

definition Http3_UpdateConfig :: "HTTP3Config \<Rightarrow> Server \<Rightarrow> Server \<times> string option" where
  "Http3_UpdateConfig newConfig s =
     (if h3_enabled (q_config s) = h3_enabled newConfig \<and> h3_maxConnections (q_config s) = h3_maxConnections newConfig
         \<and> h3_idleTimeout (q_config s) = h3_idleTimeout newConfig \<and> h3_keepAlive (q_config s) = h3_keepAlive newConfig
      then (s, None)
      else (s\<lparr>q_config := newConfig\<rparr>,
            if q_started s then Some ''http/3 configuration changed, server restart required'' else None))"

definition Http3_SetHandler :: "handler \<Rightarrow> Server \<Rightarrow> Server" where
  "Http3_SetHandler h s = s\<lparr>q_handler := h, q_server := map_option (\<lambda>(_, c). (h, c)) (q_server s)\<rparr>"

definition Http3_GetConfig :: "Server \<Rightarrow> HTTP3Config" where
  "Http3_GetConfig s = q_config s"

definition Http3_HealthCheck :: "Server \<Rightarrow> string option" where
  "Http3_HealthCheck s =
     (if \<not> h3_enabled (q_config s) then Some ''http/3 feature disabled''
      else if \<not> q_started s then Some ''http/3 server not started''
      else if q_listener s = None then Some ''http/3 listener not initialized'' else None)"

definition Http3_GetListenAddr :: "Server \<Rightarrow> string" where
  "Http3_GetListenAddr s = (case q_listener s of Some l \<Rightarrow> l | None \<Rightarrow> [])"

section \<open>Life cycle\<close>

inductive http3_step :: "quic_env \<Rightarrow> Server \<Rightarrow> Server \<Rightarrow> bool" for env where
  start: "Http3_Start env addr s = (s', res) \<Longrightarrow> http3_step env s s'"
| stop: "Http3_Stop s = (s', res) \<Longrightarrow> http3_step env s s'"
| serve: "http3_step env s (serve_ends s)"
| update: "Http3_UpdateConfig c s = (s', res) \<Longrightarrow> http3_step env s s'"
| set_handler: "http3_step env s (Http3_SetHandler h s)"

inductive_cases http3_stepE: "http3_step env s s'"

definition http3_reachable :: "quic_env \<Rightarrow> Server \<Rightarrow> bool" where
  "http3_reachable env s \<longleftrightarrow> (\<exists>cfg h. (http3_step env)\<^sup>*\<^sup>* (NewHttp3Server cfg h) s)"

text \<open>A started server has a listener and serves its current handler; a running goroutine belongs to a started server.\<close>

definition http3_inv :: "Server \<Rightarrow> bool" where
  "http3_inv s \<longleftrightarrow> (q_started s \<longrightarrow> q_listener s \<noteq> None \<and> (\<exists>c. q_server s = Some (q_handler s, c)))
     \<and> (q_serving s \<longrightarrow> q_started s)"

lemma http3_step_inv: "http3_step env s s' \<Longrightarrow> http3_inv s \<Longrightarrow> http3_inv s'"
  by (induction rule: http3_step.induct)
    (auto simp: http3_inv_def Http3_Start_def Http3_Stop_def serve_ends_def Http3_UpdateConfig_def Http3_SetHandler_def
      split: if_splits sum.splits)

lemma http3_reachable_inv: "http3_reachable env s \<Longrightarrow> http3_inv s"
proof -
  assume "http3_reachable env s"
  then obtain cfg h where "(http3_step env)\<^sup>*\<^sup>* (NewHttp3Server cfg h) s" by (auto simp: http3_reachable_def)
  then show ?thesis
    by (induction rule: rtranclp_induct) (simp_all add: http3_step_inv, simp add: http3_inv_def NewHttp3Server_def)
qed

text \<open>
  In every reachable state the health check of the HTTP/3 server answers without an error exactly when the feature is enabled in the current
  configuration and the server was started and not stopped, and then requests go to the handler set last. It does not
  notice that the server has died: once its goroutine has ended the check still answers so.
\<close>

theorem http3_health:
  assumes "http3_reachable env s"
  shows "(Http3_HealthCheck s = None \<longleftrightarrow> h3_enabled (q_config s) \<and> q_started s)
    \<and> (Http3_HealthCheck s = None \<longrightarrow> (\<exists>c. q_server s = Some (q_handler s, c)))
    \<and> \<not> q_serving (serve_ends s) \<and> Http3_HealthCheck (serve_ends s) = Http3_HealthCheck s
    \<and> http3_reachable env (serve_ends s)"
proof -
  have "http3_reachable env (serve_ends s)"
    using assms http3_step.serve [of env s] unfolding http3_reachable_def by (meson rtranclp.rtrancl_into_rtrancl)
  moreover have "http3_inv s" using http3_reachable_inv [OF assms] .
  ultimately show ?thesis by (auto simp: Http3_HealthCheck_def http3_inv_def serve_ends_def)
qed

definition quic_sample :: quic_env where
  "quic_sample = \<lparr>qe_resolve = Inr, qe_open = \<lambda>_. Inr (), qe_listen = Inr\<rparr>"

definition h3_on :: HTTP3Config where
  "h3_on = \<lparr>h3_enabled = True, h3_maxConnections = 10, h3_idleTimeout = 30, h3_keepAlive = 5\<rparr>"

theorem http3_health_witness:
  "Http3_HealthCheck (serve_ends (fst (Http3_Start quic_sample '':443'' (NewHttp3Server h3_on echo)))) = None"
proof -
  let ?s = "fst (Http3_Start quic_sample '':443'' (NewHttp3Server h3_on echo))"
  have "http3_step quic_sample (NewHttp3Server h3_on echo) ?s" by (rule http3_step.start) (rule prod.collapse [symmetric])
  then have "http3_reachable quic_sample ?s" unfolding http3_reachable_def by blast
  from http3_health [OF this] show ?thesis
    by (simp add: Http3_Start_def NewHttp3Server_def h3_on_def quic_sample_def)
qed

end
