(* ===== verification/TlsManager.thy ===== *)
theory TlsManager
  imports GoMaps Config
begin

text \<open>
  The TLS manager (\<open>gateway/tls\<close>): the certificates by server name, the domains of automatic certificates, the TLS
  configuration of a server, and the certificate request with its two hooks. Loading key pairs and the ACME
  manager (\<open>autocert\<close>) are parameters; \<open>'h\<close> names hooks, \<open>'c\<close> are certificates.
\<close>

section \<open>State\<close>

text \<open>The settings of the ACME manager (\<open>gateway/autocert\<close>) that differ from their zero values: where it keeps certificates, the hosts it allows, the address.\<close>

record CertManager =
  am_Prompt :: bool
  am_Cache :: string
  am_HostPolicy :: "string list"
  am_RenewBefore :: duration
  am_Email :: string
  am_ForceRSA :: bool

definition NewCertManager :: "string list \<Rightarrow> string \<Rightarrow> CertManager" where
  "NewCertManager domains email =
     \<lparr>am_Prompt = True, am_Cache = ''./autocert'', am_HostPolicy = domains, am_RenewBefore = 0, am_Email = email, am_ForceRSA = False\<rparr>"

record 'h TLSManager =
  tg_config :: Config
  tg_AcmeMgr :: "CertManager option"
  tg_certMap :: "(string, CertConfig) gomap"
  tg_beforeAutoCert :: "'h option"
  tg_afterAutoCert :: "'h option"

definition NewTLSManager :: "Config \<Rightarrow> 'h TLSManager" where
  "NewTLSManager cfg = \<lparr>tg_config = cfg, tg_AcmeMgr = None, tg_certMap = [], tg_beforeAutoCert = None, tg_afterAutoCert = None\<rparr>"

definition RegisterBeforeAutoCert :: "'h \<Rightarrow> 'h TLSManager \<Rightarrow> 'h TLSManager" where
  "RegisterBeforeAutoCert f m = m\<lparr>tg_beforeAutoCert := Some f\<rparr>"

definition RegisterAfterAutoCert :: "'h \<Rightarrow> 'h TLSManager \<Rightarrow> 'h TLSManager" where
  "RegisterAfterAutoCert f m = m\<lparr>tg_afterAutoCert := Some f\<rparr>"

section \<open>Certificates by server name\<close>

text \<open>\<open>order\<close> is the iteration order of a certificate map.\<close>

definition InitCertMap :: "((string, CertConfig) gomap \<Rightarrow> (string \<times> CertConfig) list) \<Rightarrow> 'h TLSManager \<Rightarrow> 'h TLSManager" where
  "InitCertMap order m = m\<lparr>tg_certMap := fold (\<lambda>server certs.
       case srv_tLS server of
         None \<Rightarrow> certs
       | Some t \<Rightarrow> fold (\<lambda>(groupName, cert). gm_put groupName cert) (order (tls_certMap t)) certs)
     (cfg_servers (tg_config m)) []\<rparr>"

fun GetCert :: "string \<Rightarrow> (string \<times> CertConfig) list \<Rightarrow> string \<times> string" where
  "GetCert sni [] = ([], [])"
| "GetCert sni ((groupName, cert) # ord) =
     (if sni \<in> set (crt_domains cert) then (crt_certFile cert, crt_keyFile cert) else GetCert sni ord)"

text \<open>The answer is an error, no certificate, or a certificate; \<open>load\<close> reads a key pair.\<close>

definition GetCertificateFunc ::
    "(string \<Rightarrow> string \<Rightarrow> string + 'c) \<Rightarrow> (string \<times> CertConfig) list \<Rightarrow> string option \<Rightarrow> string + 'c option" where
  "GetCertificateFunc load ord info =
     (case info of
        None \<Rightarrow> Inr None
      | Some sniName \<Rightarrow>
          if sniName = [] then Inr None
          else (let (domainCert, domainKey) = GetCert sniName ord
                in if domainCert = [] \<or> domainKey = [] then Inr None
                   else (case load domainCert domainKey of
                           Inl err \<Rightarrow> Inl (''failed to load TLS certificate: '' @ err)
                         | Inr cert \<Rightarrow> Inr (Some cert))))"

section \<open>Configuring a server\<close>

text \<open>\<open>order\<close> is the iteration order of the set of domains.\<close>

definition server_domains :: "Config \<Rightarrow> string GoSet" where
  "server_domains cfg = fold (\<lambda>serverConfig domains.
       if srv_tLS serverConfig \<noteq> None \<or> srv_protocol serverConfig = ''https''
       then fold (\<lambda>domainConfig domains. fold Set_Add (dom_domains domainConfig) domains) (srv_domainConfig serverConfig) domains
       else domains) (cfg_servers cfg) NewSet"

definition GetTlsDomains :: "(string GoSet \<Rightarrow> (string \<times> unit) list) \<Rightarrow> Config \<Rightarrow> string list" where
  "GetTlsDomains order cfg =
     (if 0 < length (acf_domains (ft_autoCert (cfg_features cfg))) then acf_domains (ft_autoCert (cfg_features cfg))
      else Set_List (order (server_domains cfg)))"

text \<open>
  A TLS configuration: where its certificates come from, the lowest version, and the protocols it is created with, which are those of
  the ACME manager's configuration (\<open>None\<close>) or the zero value.
\<close>

datatype tls_source = FromAcme CertManager | FromCertMap

record tls_conf =
  tc_GetCertificate :: tls_source
  tc_NextProtos :: "string list option"
  tc_MinVersion :: int
  tc_PreferServerCipherSuites :: bool

definition VersionTLS12 :: int where "VersionTLS12 = 0x303"

definition acme_conf :: "CertManager \<Rightarrow> tls_conf" where
  "acme_conf acme =
     \<lparr>tc_GetCertificate = FromAcme acme, tc_NextProtos = None, tc_MinVersion = VersionTLS12, tc_PreferServerCipherSuites = True\<rparr>"

definition GetTlsConfig :: "'h TLSManager \<Rightarrow> tls_conf" where
  "GetTlsConfig m =
     \<lparr>tc_GetCertificate = FromCertMap, tc_NextProtos = Some [], tc_MinVersion = VersionTLS12, tc_PreferServerCipherSuites = True\<rparr>"

definition ConfigureTLS ::
    "(string GoSet \<Rightarrow> (string \<times> unit) list) \<Rightarrow> TLSConfig option \<Rightarrow> 'h TLSManager \<Rightarrow> 'h TLSManager \<times> (string + tls_conf)" where
  "ConfigureTLS order tlsConfig m =
     (case tlsConfig of
        None \<Rightarrow> (m, Inl ''HTTPS server missing TLS configuration'')
      | Some t \<Rightarrow>
          if tls_autoTLS t
          then (let domains = GetTlsDomains order (tg_config m)
                in if length domains = 0
                   then (m, Inl ''autotls enabled but no domains configured, cannot request certificate'')
                   else (case tg_AcmeMgr m of
                           None \<Rightarrow>
                             (let acme = NewCertManager domains (acf_email (ft_autoCert (cfg_features (tg_config m))))
                              in (m\<lparr>tg_AcmeMgr := Some acme\<rparr>, Inr (acme_conf acme)))
                         | Some acme \<Rightarrow> (m, Inr (acme_conf acme))))
          else (m, Inr (GetTlsConfig m)))"

text \<open>
  The request of a certificate under automatic TLS, for one handshake or several merged ones: the hooks run on
  a state around the ACME manager's answer; calling a hook that was never registered panics.
\<close>

definition AutoGetCertificate ::
    "('h \<Rightarrow> 's \<Rightarrow> 's \<times> string option) \<Rightarrow> ('s \<Rightarrow> 's \<times> (string + 'c)) \<Rightarrow> 'h TLSManager \<Rightarrow> 's \<Rightarrow> ('s \<times> (string + 'c)) outcome" where
  "AutoGetCertificate run origGetCert m s =
     (case tg_beforeAutoCert m of
        None \<Rightarrow> Panic
      | Some before \<Rightarrow>
          (let s = fst (run before s); (s, res) = origGetCert s
           in case tg_afterAutoCert m of
                None \<Rightarrow> Panic
              | Some after \<Rightarrow> Return (fst (run after s), res)))"

text \<open>
  Every TLS configuration demands TLS 1.2. With automatic certificates there is one ACME manager, kept once it was created; without, the
  manager does not change, and the configuration is the one HTTP/3 always gets.
\<close>

lemma ConfigureTLS_conf:
  assumes "ConfigureTLS order (Some t) m = (m', Inr c)"
  shows "tc_MinVersion c = VersionTLS12" and "\<not> tls_autoTLS t \<Longrightarrow> c = GetTlsConfig m \<and> m' = m"
    and "tls_autoTLS t \<Longrightarrow> \<exists>acme. tg_AcmeMgr m' = Some acme \<and> tc_GetCertificate c = FromAcme acme"
    and "tls_autoTLS t \<Longrightarrow> tg_AcmeMgr m = Some acme \<Longrightarrow> tg_AcmeMgr m' = Some acme"
  using assms by (auto simp: ConfigureTLS_def GetTlsConfig_def acme_conf_def Let_def split: if_splits option.splits)

lemma GetTlsConfig_simps [simp]: "tc_GetCertificate (GetTlsConfig m) = FromCertMap" "tc_NextProtos (GetTlsConfig m) = Some []"
  by (simp_all add: GetTlsConfig_def)

section \<open>Which certificate a name gets\<close>

definition names :: "CertConfig \<Rightarrow> string \<Rightarrow> bool" where
  "names cert sni \<longleftrightarrow> sni \<in> set (crt_domains cert)"

lemma GetCert_cases:
  "(\<exists>(g, cert) \<in> set ord. names cert sni \<and> GetCert sni ord = (crt_certFile cert, crt_keyFile cert))
   \<or> ((\<forall>(g, cert) \<in> set ord. \<not> names cert sni) \<and> GetCert sni ord = ([], []))"
proof (induction ord)
  case (Cons x ord)
  obtain g cert where x: "x = (g, cert)" by (cases x)
  show ?case
  proof (cases "names cert sni")
    case True
    with x show ?thesis by (simp add: names_def)
  next
    case False
    with x Cons show ?thesis by (auto simp: names_def)
  qed
qed simp

definition configured :: "Config \<Rightarrow> CertConfig \<Rightarrow> bool" where
  "configured cfg cert \<longleftrightarrow> (\<exists>server \<in> set (cfg_servers cfg). \<exists>t g. srv_tLS server = Some t \<and> (g, cert) \<in> set (tls_certMap t))"

lemma fold_put_set: "set (fold (\<lambda>(k, v). gm_put k v) xs m) \<subseteq> set xs \<union> set m"
proof (induction xs arbitrary: m)
  case (Cons x xs)
  obtain k v where x: "x = (k, v)" by (cases x)
  have "set (gm_put k v m) \<subseteq> insert (k, v) (set m)" by (induction m) auto
  with Cons [of "gm_put k v m"] x show ?case by auto
qed simp

lemma InitCertMap_groups:
  assumes "\<forall>server \<in> set (cfg_servers (tg_config m)). \<forall>t. srv_tLS server = Some t
             \<longrightarrow> iteration_of (order (tls_certMap t)) (tls_certMap t)"
    and "(g, cert) \<in> set (tg_certMap (InitCertMap order m))"
  shows "\<exists>server \<in> set (cfg_servers (tg_config m)). \<exists>t. srv_tLS server = Some t \<and> (g, cert) \<in> set (tls_certMap t)"
proof -
  let ?add = "\<lambda>server certs. case srv_tLS server of None \<Rightarrow> certs
      | Some t \<Rightarrow> fold (\<lambda>(groupName, cert). gm_put groupName cert) (order (tls_certMap t)) certs"
  have "(g, cert) \<in> set certs \<or> (\<exists>server \<in> set servers. \<exists>t. srv_tLS server = Some t \<and> (g, cert) \<in> set (tls_certMap t))"
    if "(g, cert) \<in> set (fold ?add servers certs)"
      and "\<forall>server \<in> set servers. \<forall>t. srv_tLS server = Some t \<longrightarrow> iteration_of (order (tls_certMap t)) (tls_certMap t)" for servers certs
    using that
  proof (induction servers arbitrary: certs)
    case (Cons server servers)
    have it: "set (order (tls_certMap t)) = set (tls_certMap t)" if "srv_tLS server = Some t" for t
      using Cons.prems(2) that iteration_set by auto
    from Cons.IH [of "?add server certs"] Cons.prems
    consider "(g, cert) \<in> set (?add server certs)"
      | "\<exists>server \<in> set servers. \<exists>t. srv_tLS server = Some t \<and> (g, cert) \<in> set (tls_certMap t)" by auto
    then show ?case
    proof cases
      case 1
      then show ?thesis
      proof (cases "srv_tLS server")
        case (Some t)
        with 1 fold_put_set [of "order (tls_certMap t)" certs] it show ?thesis by auto
      qed simp
    qed auto
  qed simp
  from this [of "cfg_servers (tg_config m)" "[]"] assms show ?thesis by (simp add: InitCertMap_def)
qed

text \<open>
  The certificate of a handshake by server name: a certificate is only ever loaded from the files of a
  configured group that lists exactly that name (a wildcard in the list names nothing else); without a name, with no such group or with
  an empty file name there is none, and a key pair that cannot be loaded is an error.
\<close>

theorem sni_certificate:
  assumes "\<forall>server \<in> set (cfg_servers cfg). \<forall>t. srv_tLS server = Some t \<longrightarrow> iteration_of (order (tls_certMap t)) (tls_certMap t)"
    and "m = InitCertMap order (NewTLSManager cfg)" and "iteration_of ord (tg_certMap m)" and "sni \<noteq> []"
  shows "case GetCertificateFunc load ord (Some sni) of
      Inl err \<Rightarrow> \<exists>cert e. configured cfg cert \<and> names cert sni \<and> load (crt_certFile cert) (crt_keyFile cert) = Inl e
    | Inr (Some c) \<Rightarrow> \<exists>cert. configured cfg cert \<and> names cert sni \<and> load (crt_certFile cert) (crt_keyFile cert) = Inr c
    | Inr None \<Rightarrow> (\<forall>(g, cert) \<in> set ord. \<not> names cert sni)
        \<or> (\<exists>cert. configured cfg cert \<and> names cert sni \<and> (crt_certFile cert = [] \<or> crt_keyFile cert = []))"
  using GetCert_cases [of ord sni]
proof
  assume "\<exists>(g, cert) \<in> set ord. names cert sni \<and> GetCert sni ord = (crt_certFile cert, crt_keyFile cert)"
  then obtain g cert where cert: "(g, cert) \<in> set ord" "names cert sni" "GetCert sni ord = (crt_certFile cert, crt_keyFile cert)" by auto
  then have entry: "(g, cert) \<in> set (tg_certMap m)" using assms(3) iteration_set by blast
  have "configured cfg cert"
    using InitCertMap_groups [OF _ entry [unfolded assms(2)]] assms(1) unfolding configured_def by (simp add: NewTLSManager_def) blast
  with cert assms(4) show ?thesis by (auto simp: GetCertificateFunc_def split: sum.split)
qed (use assms(4) in \<open>simp add: GetCertificateFunc_def\<close>)

section \<open>The domains of automatic certificates\<close>

lemma set_of_Add [simp]: "set_of (Set_Add x s) = insert x (set_of s)"
  by (simp add: Set_Add_def)

lemma set_of_fold_Add [simp]: "set_of (fold Set_Add xs s) = set xs \<union> set_of s"
  by (induction xs arbitrary: s) auto

lemma set_of_fold_domains [simp]:
  "set_of (fold (\<lambda>dc domains. fold Set_Add (dom_domains dc) domains) dcs s) = (\<Union>dc \<in> set dcs. set (dom_domains dc)) \<union> set_of s"
  by (induction dcs arbitrary: s) auto

definition tls_server :: "ServerConfig \<Rightarrow> bool" where
  "tls_server server \<longleftrightarrow> srv_tLS server \<noteq> None \<or> srv_protocol server = ''https''"

lemma set_of_server_domains:
  "set_of (server_domains cfg) = (\<Union>server \<in> {s \<in> set (cfg_servers cfg). tls_server s}. \<Union>dc \<in> set (srv_domainConfig server). set (dom_domains dc))"
proof -
  have "set_of (fold (\<lambda>serverConfig domains. if srv_tLS serverConfig \<noteq> None \<or> srv_protocol serverConfig = ''https''
        then fold (\<lambda>dc domains. fold Set_Add (dom_domains dc) domains) (srv_domainConfig serverConfig) domains else domains) servers s)
      = (\<Union>server \<in> {s \<in> set servers. tls_server s}. \<Union>dc \<in> set (srv_domainConfig server). set (dom_domains dc)) \<union> set_of s" for servers s
    by (induction servers arbitrary: s) (auto simp: tls_server_def split: if_splits)
  then show ?thesis by (simp add: server_domains_def)
qed

text \<open>
  The domains for which certificates are requested: those of the automatic certificates section if it lists any,
  whatever the servers serve; otherwise those of all TLS servers. They are never intersected.
\<close>

lemma tls_domains:
  assumes "iteration_of (order (server_domains cfg)) (server_domains cfg)"
  shows "set (GetTlsDomains order cfg) =
    (if acf_domains (ft_autoCert (cfg_features cfg)) \<noteq> [] then set (acf_domains (ft_autoCert (cfg_features cfg)))
     else \<Union>server \<in> {s \<in> set (cfg_servers cfg). tls_server s}. \<Union>dc \<in> set (srv_domainConfig server). set (dom_domains dc))"
  using iteration_set [OF assms] set_of_server_domains [of cfg]
  by (simp add: GetTlsDomains_def Set_List_def set_of_def)

section \<open>The hypotheses hold\<close>

definition tls_config :: "CertConfig list \<Rightarrow> TLSConfig" where
  "tls_config certs = \<lparr>tls_certMap = map (\<lambda>c. (crt_certFile c, c)) certs, tls_autoTLS = False\<rparr>"

definition https_site :: ServerConfig where
  "https_site = \<lparr>srv_name = ''tls'', srv_host = [], srv_port = 443, srv_useHttp2 = True, srv_protocol = ''https'',
     srv_enabled = True, srv_maxRequestBody = 0,
     srv_tLS = Some (tls_config [\<lparr>crt_domains = [''a.com''], crt_certFile = ''a.pem'', crt_keyFile = ''a.key''\<rparr>]),
     srv_domainConfig = [], srv_serviceDomains = [], srv_service = [], srv_readTimeout = 0, srv_writeTimeout = 0,
     srv_idleTimeout = 0, srv_readHeaderTimeout = 0, srv_maxHeaderBytes = 0\<rparr>"

definition site_config :: Config where
  "site_config = (let c = the (Merge (\<lambda>_. (zero_PxyFrontConfig, True)) (\<lambda>_. (zero_PxyBackendConfig, True)) (Some GetDefaultConfig))
     in c\<lparr>cfg_servers := [https_site],
          cfg_features := (cfg_features c)\<lparr>ft_hTTP3 := \<lparr>h3_enabled = True, h3_maxConnections = 9, h3_idleTimeout = 9, h3_keepAlive = 9\<rparr>\<rparr>\<rparr>)"

theorem sni_certificate_witness:
  "GetCertificateFunc (\<lambda>c k. Inr (c, k)) (tg_certMap (InitCertMap id (NewTLSManager site_config :: unit TLSManager))) (Some ''a.com'')
     = Inr (Some (''a.pem'', ''a.key''))
   \<and> (\<exists>cert. configured site_config cert \<and> names cert ''a.com'' \<and> (crt_certFile cert, crt_keyFile cert) = (''a.pem'', ''a.key''))"
proof -
  let ?m = "InitCertMap id (NewTLSManager site_config :: unit TLSManager)"
  have answer: "GetCertificateFunc (\<lambda>c k. Inr (c, k)) (tg_certMap ?m) (Some ''a.com'') = Inr (Some (''a.pem'', ''a.key''))"
    by (simp add: InitCertMap_def NewTLSManager_def site_config_def https_site_def tls_config_def GetCertificateFunc_def Let_def)
  then show ?thesis
    using sni_certificate [of site_config id ?m "tg_certMap ?m" "''a.com''" "\<lambda>c k. Inr (c, k)"] by (simp add: iteration_of_def)
qed

end
