(* ===== verification/ServerManager.thy ===== *)
theory ServerManager
  imports HttpServers TlsManager
begin

text \<open>
  The server manager (\<open>gateway/manager\<close>): starting and stopping the servers, the status copies, and the two hooks
  around certificate requests. Each server runs in a goroutine counted by a wait group; \<open>mg_waiting\<close> holds the
  instances whose goroutine has not ended, \<open>mg_serving\<close> those marked as started, \<open>mg_http3_waiting\<close> the number of HTTP/3
  goroutines. A goroutine of an HTTP server ends when its server is shut down or fails; those of HTTP/3
  servers never count themselves out. Listening is a parameter.
\<close>

section \<open>State\<close>

datatype hook = BeforeHandleAutoCert | AfterHandleAutoCert

record 'l managed = "('l, tls_conf) ServerInstance" +
  in_id :: nat

record Http3Instance =
  h3_Name :: string
  h3_Address :: string

record 'l manager =
  mg_stoppedHTTP80 :: "'l managed option"
  mg_autoCertTempServer :: bool
  mg_config :: Config
  mg_servers :: "(string, 'l managed) gomap"
  mg_http3Server :: "(string, Http3Instance) gomap"
  mg_handler :: handler
  mg_started :: bool
  mg_tlsManager :: "hook TLSManager"
  mg_next :: nat
  mg_waiting :: "nat list"
  mg_serving :: "nat list"
  mg_errors :: "(nat, string) gomap"
  mg_http3_waiting :: nat

text \<open>The iteration orders of the maps, and listening.\<close>

record 'l manager_env =
  ve_listen :: "string \<Rightarrow> string + 'l"
  ve_tls_listener :: "tls_conf \<Rightarrow> 'l \<Rightarrow> 'l"
  ve_certs :: "(string, CertConfig) gomap \<Rightarrow> (string \<times> CertConfig) list"
  ve_domains :: "string GoSet \<Rightarrow> (string \<times> unit) list"
  ve_servers :: "(string, 'l managed) gomap \<Rightarrow> (string \<times> 'l managed) list"

definition NewManager :: "'l manager_env \<Rightarrow> Config \<Rightarrow> handler \<Rightarrow> 'l manager" where
  "NewManager env cfg h =
     (let tm = InitCertMap (ve_certs env) (NewTLSManager cfg);
          tm = RegisterBeforeAutoCert BeforeHandleAutoCert tm;
          tm = RegisterBeforeAutoCert AfterHandleAutoCert tm
      in \<lparr>mg_stoppedHTTP80 = None, mg_autoCertTempServer = False, mg_config = cfg, mg_servers = [], mg_http3Server = [],
          mg_handler = h, mg_started = False, mg_tlsManager = tm, mg_next = 0, mg_waiting = [], mg_serving = [],
          mg_errors = [], mg_http3_waiting = 0\<rparr>)"

section \<open>Starting\<close>

definition GetEnabledServers :: "Config \<Rightarrow> ServerConfig list" where
  "GetEnabledServers cfg = filter srv_enabled (cfg_servers cfg)"

definition startServer :: "'l manager_env \<Rightarrow> ServerConfig \<Rightarrow> 'l manager \<Rightarrow> 'l manager \<times> string option" where
  "startServer env cfg m =
     (let (tm, tls) = ConfigureTLS (ve_domains env) (srv_tLS cfg) (mg_tlsManager m);
          configure = (\<lambda>t l. map_sum id (\<lambda>c. (c, ve_tls_listener env c l)) tls);
          reached = ((srv_protocol cfg = ''https'' \<or> srv_protocol cfg = ''http3'') \<and> (\<exists>l. ve_listen env (server_addr cfg) = Inr l));
          m = m\<lparr>mg_tlsManager := if reached then tm else mg_tlsManager m\<rparr>
      in case CommonHttpServer (ve_listen env) (Some configure) cfg (mg_handler m) of
           Inl err \<Rightarrow> (m, Some err)
         | Inr inst \<Rightarrow>
             (m\<lparr>mg_servers := gm_put (srv_name cfg) (ServerInstance.extend inst \<lparr>in_id = mg_next m\<rparr>) (mg_servers m),
                mg_next := Suc (mg_next m), mg_waiting := mg_next m # mg_waiting m\<rparr>, None))"

definition startHttp3Server :: "ServerConfig \<Rightarrow> 'l manager \<Rightarrow> 'l manager" where
  "startHttp3Server cfg m =
     m\<lparr>mg_http3Server := gm_put (srv_name cfg) \<lparr>h3_Name = srv_name cfg, h3_Address = server_addr cfg\<rparr> (mg_http3Server m),
       mg_http3_waiting := Suc (mg_http3_waiting m)\<rparr>"

definition start_one :: "'l manager_env \<Rightarrow> ServerConfig \<Rightarrow> 'l manager \<Rightarrow> 'l manager" where
  "start_one env cfg m =
     (case startServer env cfg m of
        (m, Some err) \<Rightarrow> m
      | (m, None) \<Rightarrow>
          if h3_enabled (ft_hTTP3 (cfg_features (mg_config m))) \<and> srv_protocol cfg = ''https''
          then startHttp3Server cfg m else m)"

definition Manager_Start :: "'l manager_env \<Rightarrow> 'l manager \<Rightarrow> 'l manager \<times> string option" where
  "Manager_Start env m =
     (if mg_started m then (m, Some ''server manager already started'')
      else (let enabled = GetEnabledServers (mg_config m)
            in if length enabled = 0 then (m, Some ''no enabled server configuration'')
               else (let m = fold (start_one env) enabled m
                     in if length (mg_servers m) = 0 then (m, Some ''no servers started successfully'')
                        else (m\<lparr>mg_started := True\<rparr>, None))))"

section \<open>Goroutines of servers\<close>

text \<open>\<open>runServer\<close> starts serving; later its server fails, or is shut down by someone.\<close>

definition run_begins :: "nat \<Rightarrow> 'l manager \<Rightarrow> 'l manager" where
  "run_begins i m = (if i \<in> set (mg_waiting m) then m\<lparr>mg_serving := i # mg_serving m\<rparr> else m)"

definition run_ends :: "nat \<Rightarrow> string option \<Rightarrow> 'l manager \<Rightarrow> 'l manager" where
  "run_ends i err m =
     m\<lparr>mg_waiting := filter (\<lambda>j. j \<noteq> i) (mg_waiting m), mg_serving := filter (\<lambda>j. j \<noteq> i) (mg_serving m),
       mg_errors := (case err of None \<Rightarrow> mg_errors m | Some e \<Rightarrow> gm_put i e (mg_errors m))\<rparr>"

section \<open>Stopping\<close>

text \<open>\<open>Stop\<close> waits for every goroutine: it blocks when some are left after all known servers were shut down.\<close>

definition Manager_Stop :: "'l manager \<Rightarrow> ('l manager \<times> string option) outcome" where
  "Manager_Stop m =
     (if \<not> mg_started m then Return (m, Some ''server manager not started'')
      else (let m = fold (\<lambda>(name, inst). run_ends (in_id inst) None) (mg_servers m) m
            in if mg_waiting m \<noteq> [] \<or> 0 < mg_http3_waiting m then Blocked
               else Return (m\<lparr>mg_servers := [], mg_started := False\<rparr>, None)))"

definition Manager_Restart :: "'l manager_env \<Rightarrow> 'l manager \<Rightarrow> ('l manager \<times> string option) outcome" where
  "Manager_Restart env m =
     bind_outcome (Manager_Stop m) (\<lambda>(m, err).
       case err of
         Some e \<Rightarrow> Return (m, Some (''failed to stop server: '' @ e))
       | None \<Rightarrow> Return (Manager_Start env m))"

section \<open>Status\<close>

definition status_copy :: "'l manager \<Rightarrow> 'l managed \<Rightarrow> string \<times> ServerConfig \<times> bool \<times> bool \<times> string option" where
  "status_copy m inst = (si_Name inst, si_Config inst, si_TLS inst, in_id inst \<in> set (mg_serving m), gm_get (mg_errors m) (in_id inst))"

definition GetServerStatus :: "'l manager_env \<Rightarrow> 'l manager \<Rightarrow> (string, string \<times> ServerConfig \<times> bool \<times> bool \<times> string option) gomap" where
  "GetServerStatus env m = fold (\<lambda>(name, inst). gm_put name (status_copy m inst)) (ve_servers env (mg_servers m)) []"

definition GetHttp3ServerStatus :: "'l manager \<Rightarrow> (string, Http3Instance) gomap" where
  "GetHttp3ServerStatus m = fold (\<lambda>(name, s). gm_put name s) (mg_http3Server m) []"

section \<open>Around certificate requests\<close>

definition port80 :: "'l manager \<Rightarrow> 'l managed \<Rightarrow> bool" where
  "port80 m inst \<longleftrightarrow> srv_protocol (si_Config inst) = ''http'' \<and> srv_port (si_Config inst) = 80 \<and> in_id inst \<in> set (mg_serving m)"

definition beforeHandleAutoCert :: "'l manager_env \<Rightarrow> 'l manager \<Rightarrow> 'l manager \<times> string option" where
  "beforeHandleAutoCert env m =
     (let m = (case find (\<lambda>(name, inst). port80 m inst) (ve_servers env (mg_servers m)) of
                 None \<Rightarrow> m
               | Some (name, inst) \<Rightarrow>
                   (run_ends (in_id inst) None m)
                     \<lparr>mg_stoppedHTTP80 := Some inst, mg_servers := gm_delete (si_Name inst) (mg_servers m)\<rparr>)
      in case ve_listen env ''0.0.0.0:80'' of
           Inl err \<Rightarrow> (m, Some (''autotls: failed to create port 80 challenge listener: '' @ err))
         | Inr l \<Rightarrow> (m\<lparr>mg_autoCertTempServer := True\<rparr>, None))"

definition afterHandleAutoCert :: "'l manager_env \<Rightarrow> 'l manager \<Rightarrow> 'l manager \<times> string option" where
  "afterHandleAutoCert env m =
     (let m = m\<lparr>mg_autoCertTempServer := False\<rparr>
      in case mg_stoppedHTTP80 m of
           None \<Rightarrow> (m, None)
         | Some inst \<Rightarrow> ((fst (startServer env (si_Config inst) m))\<lparr>mg_stoppedHTTP80 := None\<rparr>, None))"

definition run_hook :: "'l manager_env \<Rightarrow> hook \<Rightarrow> 'l manager \<Rightarrow> 'l manager \<times> string option" where
  "run_hook env k = (case k of BeforeHandleAutoCert \<Rightarrow> beforeHandleAutoCert env | AfterHandleAutoCert \<Rightarrow> afterHandleAutoCert env)"

text \<open>A handshake on a server with automatic certificates; \<open>acme\<close> is the ACME manager's answer for a name.\<close>

definition handshake ::
    "'l manager_env \<Rightarrow> ('l manager \<Rightarrow> string + 'c) \<Rightarrow> 'l manager \<Rightarrow> ('l manager \<times> (string + 'c)) outcome" where
  "handshake env acme m = AutoGetCertificate (run_hook env) (\<lambda>m. (m, acme m)) (mg_tlsManager m) m"

section \<open>Reachable states\<close>

text \<open>The steps of a manager: its operations, the goroutines, and the hooks that are registered.\<close>

inductive manager_step :: "'l manager_env \<Rightarrow> 'l manager \<Rightarrow> 'l manager \<Rightarrow> bool" for env where
  start: "Manager_Start env m = (m', res) \<Longrightarrow> manager_step env m m'"
| stop: "Manager_Stop m = Return (m', res) \<Longrightarrow> manager_step env m m'"
| begins: "manager_step env m (run_begins i m)"
| fails: "i \<in> set (mg_serving m) \<Longrightarrow> manager_step env m (run_ends i (Some err) m)"
| hook: "tg_beforeAutoCert (mg_tlsManager m) = Some k \<or> tg_afterAutoCert (mg_tlsManager m) = Some k
    \<Longrightarrow> manager_step env m (fst (run_hook env k m))"

definition reachable_manager :: "'l manager_env \<Rightarrow> Config \<Rightarrow> handler \<Rightarrow> 'l manager \<Rightarrow> bool" where
  "reachable_manager env cfg h m \<longleftrightarrow> (manager_step env)\<^sup>*\<^sup>* (NewManager env cfg h) m"

definition https_server :: "'l managed \<Rightarrow> bool" where
  "https_server inst \<longleftrightarrow> srv_protocol (si_Config inst) = ''https''"

text \<open>What holds in every state, also in the middle of a start.\<close>

definition hooks_inv :: "Config \<Rightarrow> 'l manager \<Rightarrow> bool" where
  "hooks_inv cfg m \<longleftrightarrow> mg_config m = cfg \<and> mg_stoppedHTTP80 m = None \<and> \<not> mg_autoCertTempServer m
     \<and> tg_beforeAutoCert (mg_tlsManager m) = Some AfterHandleAutoCert \<and> tg_afterAutoCert (mg_tlsManager m) = None"

definition servers_inv :: "Config \<Rightarrow> 'l manager \<Rightarrow> bool" where
  "servers_inv cfg m \<longleftrightarrow> set (mg_waiting m) \<subseteq> (\<lambda>(n, inst). in_id inst) ` set (mg_servers m)
     \<and> (mg_http3_waiting m = 0 \<longleftrightarrow> mg_http3Server m = [])
     \<and> (mg_http3Server m \<noteq> [] \<longleftrightarrow> h3_enabled (ft_hTTP3 (cfg_features cfg)) \<and> (\<exists>(n, inst) \<in> set (mg_servers m). https_server inst))"

definition manager_inv :: "Config \<Rightarrow> 'l manager \<Rightarrow> bool" where
  "manager_inv cfg m \<longleftrightarrow> servers_inv cfg m \<and> (mg_started m \<or> mg_servers m = [])"

lemma ConfigureTLS_hooks:
  "ConfigureTLS order t tm = (tm', res) \<Longrightarrow>
     tg_beforeAutoCert tm' = tg_beforeAutoCert tm \<and> tg_afterAutoCert tm' = tg_afterAutoCert tm"
  by (auto simp: ConfigureTLS_def Let_def split: option.splits if_splits)

lemma CommonHttpServer_config: "CommonHttpServer listen tls cfg h = Inr inst \<Longrightarrow> si_Config inst = cfg"
  by (auto simp: CommonHttpServer_def Let_def split: sum.splits option.splits prod.splits if_splits)

text \<open>Starting one server either changes no server at all or adds one of the given configuration.\<close>

lemma startServer_cases:
  assumes "startServer env sc m = (m', res)"
  obtains tm where "res \<noteq> None" "m' = m\<lparr>mg_tlsManager := tm\<rparr>"
      "tg_beforeAutoCert tm = tg_beforeAutoCert (mg_tlsManager m)" "tg_afterAutoCert tm = tg_afterAutoCert (mg_tlsManager m)"
  | tm inst where "res = None" "si_Config inst = sc" "in_id inst = mg_next m"
      "m' = m\<lparr>mg_tlsManager := tm, mg_servers := gm_put (srv_name sc) inst (mg_servers m), mg_next := Suc (mg_next m),
              mg_waiting := mg_next m # mg_waiting m\<rparr>"
      "tg_beforeAutoCert tm = tg_beforeAutoCert (mg_tlsManager m)" "tg_afterAutoCert tm = tg_afterAutoCert (mg_tlsManager m)"
proof -
  obtain tm tls where tls: "ConfigureTLS (ve_domains env) (srv_tLS sc) (mg_tlsManager m) = (tm, tls)" by fastforce
  let ?tm = "if (srv_protocol sc = ''https'' \<or> srv_protocol sc = ''http3'') \<and> (\<exists>l. ve_listen env (server_addr sc) = Inr l)
      then tm else mg_tlsManager m"
  let ?made = "CommonHttpServer (ve_listen env) (Some (\<lambda>t l. map_sum id (\<lambda>c. (c, ve_tls_listener env c l)) tls)) sc (mg_handler m)"
  have hooks: "tg_beforeAutoCert ?tm = tg_beforeAutoCert (mg_tlsManager m)" "tg_afterAutoCert ?tm = tg_afterAutoCert (mg_tlsManager m)"
    using ConfigureTLS_hooks [OF tls] by auto
  have m': "startServer env sc m =
      (case ?made of
         Inl err \<Rightarrow> (m\<lparr>mg_tlsManager := ?tm\<rparr>, Some err)
       | Inr inst \<Rightarrow> (m\<lparr>mg_tlsManager := ?tm, mg_servers := gm_put (srv_name sc) (ServerInstance.extend inst \<lparr>in_id = mg_next m\<rparr>) (mg_servers m),
                mg_next := Suc (mg_next m), mg_waiting := mg_next m # mg_waiting m\<rparr>, None))"
    using tls by (simp add: startServer_def Let_def split: sum.split)
  show thesis
  proof (cases ?made)
    case (Inl err)
    with m' assms hooks show ?thesis by (intro that(1) [of ?tm]) auto
  next
    case (Inr inst)
    then have "si_Config (ServerInstance.extend inst \<lparr>in_id = mg_next m\<rparr>) = sc"
      using CommonHttpServer_config [OF Inr] by (simp add: ServerInstance.defs)
    with Inr m' assms hooks show ?thesis
      by (intro that(2) [of "ServerInstance.extend inst \<lparr>in_id = mg_next m\<rparr>" ?tm]) (auto simp: ServerInstance.defs)
  qed
qed

section \<open>The hooks\<close>

lemma start_one_hooks: "hooks_inv cfg m \<Longrightarrow> hooks_inv cfg (start_one env sc m)"
proof -
  assume inv: "hooks_inv cfg m"
  obtain m' res where st: "startServer env sc m = (m', res)" by fastforce
  then have "hooks_inv cfg m'"
    by (cases rule: startServer_cases) (use inv in \<open>auto simp: hooks_inv_def\<close>)
  with st show "hooks_inv cfg (start_one env sc m)"
    by (auto simp: start_one_def hooks_inv_def startHttp3Server_def split: option.split)
qed

lemma start_all_hooks: "hooks_inv cfg m \<Longrightarrow> hooks_inv cfg (fold (start_one env) scs m)"
  by (induction scs arbitrary: m) (simp_all add: start_one_hooks)

lemma run_ends_fields [simp]:
  "mg_waiting (run_ends i err m) = filter (\<lambda>j. j \<noteq> i) (mg_waiting m)" "mg_servers (run_ends i err m) = mg_servers m"
  "mg_http3Server (run_ends i err m) = mg_http3Server m" "mg_http3_waiting (run_ends i err m) = mg_http3_waiting m"
  "mg_started (run_ends i err m) = mg_started m" "hooks_inv cfg (run_ends i err m) = hooks_inv cfg m"
  by (simp_all add: run_ends_def hooks_inv_def)

lemma run_ends_waiting:
  "mg_waiting (fold (\<lambda>(name, inst). run_ends (in_id inst) None) xs m) =
     filter (\<lambda>i. i \<notin> (\<lambda>(n, inst). in_id inst) ` set xs) (mg_waiting m)"
proof (induction xs arbitrary: m)
  case (Cons x xs)
  obtain n inst where x: "x = (n, inst)" by (cases x)
  show ?case unfolding x using Cons [of "run_ends (in_id inst) None m"] by (simp add: conj_commute)
qed simp

lemma run_ends_all:
  "mg_servers (fold (\<lambda>(name, inst). run_ends (in_id inst) None) xs m) = mg_servers m"
  "mg_http3Server (fold (\<lambda>(name, inst). run_ends (in_id inst) None) xs m) = mg_http3Server m"
  "mg_http3_waiting (fold (\<lambda>(name, inst). run_ends (in_id inst) None) xs m) = mg_http3_waiting m"
  "mg_started (fold (\<lambda>(name, inst). run_ends (in_id inst) None) xs m) = mg_started m"
  "hooks_inv cfg (fold (\<lambda>(name, inst). run_ends (in_id inst) None) xs m) = hooks_inv cfg m"
  by (induction xs arbitrary: m) (simp_all only: fold_simps id_apply comp_apply split_def run_ends_fields)

lemma step_hooks: "manager_step env m m' \<Longrightarrow> hooks_inv cfg m \<Longrightarrow> hooks_inv cfg m'"
proof (induction rule: manager_step.induct)
  case (start m m' res)
  then show ?case using start_all_hooks [of cfg m env]
    by (auto simp: Manager_Start_def Let_def hooks_inv_def split: if_splits)
next
  case (stop m m' res)
  then show ?case using run_ends_all(5) [of cfg "mg_servers m" m]
    by (auto simp: Manager_Stop_def Let_def hooks_inv_def split: if_splits)
next
  case (hook m k)
  then show ?case by (auto simp: hooks_inv_def run_hook_def afterHandleAutoCert_def Let_def)
qed (auto simp: hooks_inv_def run_begins_def run_ends_def)

lemma reachable_hooks: "reachable_manager env cfg h m \<Longrightarrow> hooks_inv cfg m"
  unfolding reachable_manager_def
proof (induction rule: rtranclp_induct)
  case base
  show ?case by (simp add: hooks_inv_def NewManager_def Let_def RegisterBeforeAutoCert_def InitCertMap_def NewTLSManager_def)
qed (rule step_hooks)

text \<open>
  C40. Automatic certificates never work: the manager registers both of its hooks as the one before a request, so
  that port 80 is never freed for the challenge and, in every reachable state and whatever the ACME manager
  answers, the request of a certificate panics.
\<close>

theorem autotls_panics:
  assumes "reachable_manager env cfg h m"
  shows "handshake env acme m = Panic \<and> mg_stoppedHTTP80 m = None \<and> \<not> mg_autoCertTempServer m"
  using reachable_hooks [OF assms] by (simp add: hooks_inv_def handshake_def AutoGetCertificate_def)

section \<open>Stopping\<close>

lemma put_fresh: "k \<notin> fst ` set m \<Longrightarrow> set (gm_put k v m) = insert (k, v) (set m)"
  by (induction m) auto

lemma start_one_servers:
  assumes "servers_inv cfg m" and "mg_config m = cfg" and "srv_name sc \<notin> fst ` set (mg_servers m)"
  shows "servers_inv cfg (start_one env sc m)" and "mg_config (start_one env sc m) = cfg"
    and "fst ` set (mg_servers (start_one env sc m)) \<subseteq> insert (srv_name sc) (fst ` set (mg_servers m))"
proof -
  have put: "set (gm_put (srv_name sc) v (mg_servers m)) = insert (srv_name sc, v) (set (mg_servers m))" for v
    using assms(3) by (rule put_fresh)
  obtain m' res where st: "startServer env sc m = (m', res)" by fastforce
  then have "servers_inv cfg (start_one env sc m) \<and> mg_config (start_one env sc m) = cfg
      \<and> fst ` set (mg_servers (start_one env sc m)) \<subseteq> insert (srv_name sc) (fst ` set (mg_servers m))"
  proof (cases rule: startServer_cases)
    case (1 tm)
    with st assms(1,2) show ?thesis by (auto simp: start_one_def servers_inv_def)
  next
    case (2 tm inst)
    then have started: "start_one env sc m = (if h3_enabled (ft_hTTP3 (cfg_features cfg)) \<and> srv_protocol sc = ''https''
        then startHttp3Server sc m' else m')"
      using st assms(2) by (simp add: start_one_def)
    have "mg_http3Server (startHttp3Server sc m') \<noteq> []"
      by (cases "mg_http3Server m'") (auto simp: startHttp3Server_def)
    with 2 started assms(1,2) put show ?thesis
      by (auto simp: servers_inv_def https_server_def startHttp3Server_def)
  qed
  then show "servers_inv cfg (start_one env sc m)" and "mg_config (start_one env sc m) = cfg"
    and "fst ` set (mg_servers (start_one env sc m)) \<subseteq> insert (srv_name sc) (fst ` set (mg_servers m))" by blast+
qed

lemma start_all_servers:
  assumes "servers_inv cfg m" and "mg_config m = cfg" and "distinct (map srv_name scs)"
    and "\<forall>sc \<in> set scs. srv_name sc \<notin> fst ` set (mg_servers m)"
  shows "servers_inv cfg (fold (start_one env) scs m)"
  using assms
proof (induction scs arbitrary: m)
  case (Cons sc scs)
  have "\<forall>s \<in> set scs. srv_name s \<notin> fst ` set (mg_servers (start_one env sc m))"
  proof
    fix s assume "s \<in> set scs"
    then have "srv_name s \<notin> insert (srv_name sc) (fst ` set (mg_servers m))"
      using Cons.prems(3,4) by (simp add: image_iff) metis
    then show "srv_name s \<notin> fst ` set (mg_servers (start_one env sc m))"
      using start_one_servers(3) [of cfg m sc env] Cons.prems by auto
  qed
  with Cons start_one_servers(1,2) [of cfg m sc env] show ?case by simp
qed simp

lemma step_manager:
  assumes "manager_step env m m'" and "manager_inv cfg m" and "hooks_inv cfg m"
    and "distinct (map srv_name (GetEnabledServers cfg))"
  shows "manager_inv cfg m'"
  using assms
proof (induction rule: manager_step.induct)
  case (start m m' res)
  show ?case
  proof (cases "mg_started m \<or> length (GetEnabledServers (mg_config m)) = 0")
    case True
    with start show ?thesis by (cases "mg_started m") (simp_all add: Manager_Start_def Let_def)
  next
    case False
    then have "mg_servers m = []" using start.prems(1) by (simp add: manager_inv_def)
    then have "servers_inv cfg (fold (start_one env) (GetEnabledServers cfg) m)"
      using start.prems by (intro start_all_servers) (auto simp: manager_inv_def hooks_inv_def)
    with False start show ?thesis
      by (auto simp: Manager_Start_def Let_def manager_inv_def hooks_inv_def servers_inv_def split: if_splits)
  qed
next
  case (stop m m' res)
  then show ?case
    by (auto simp: Manager_Stop_def Let_def manager_inv_def servers_inv_def run_ends_all run_ends_waiting split: if_splits)
next
  case (hook m k)
  then show ?case by (auto simp: hooks_inv_def run_hook_def afterHandleAutoCert_def Let_def manager_inv_def servers_inv_def)
qed (auto simp: manager_inv_def servers_inv_def run_begins_def run_ends_def)

lemma reachable_servers:
  assumes "reachable_manager env cfg h m" and "distinct (map srv_name (GetEnabledServers cfg))"
  shows "manager_inv cfg m"
  using assms(1) unfolding reachable_manager_def
proof (induction rule: rtranclp_induct)
  case base
  show ?case by (simp add: manager_inv_def servers_inv_def NewManager_def Let_def)
next
  case (step y z)
  then have "hooks_inv cfg y" using reachable_hooks unfolding reachable_manager_def by blast
  with step show ?case using step_manager assms(2) by blast
qed

lemma stop_result:
  assumes "reachable_manager env cfg h m" and "distinct (map srv_name (GetEnabledServers cfg))" and "mg_started m"
  shows "Manager_Stop m = (if h3_enabled (ft_hTTP3 (cfg_features cfg)) \<and> (\<exists>(n, inst) \<in> set (mg_servers m). https_server inst) then Blocked
      else Return ((fold (\<lambda>(name, inst). run_ends (in_id inst) None) (mg_servers m) m)\<lparr>mg_servers := [], mg_started := False\<rparr>, None))"
    and "mg_waiting (fold (\<lambda>(name, inst). run_ends (in_id inst) None) (mg_servers m) m) = []"
proof -
  have inv: "servers_inv cfg m" using reachable_servers [OF assms(1,2)] by (simp add: manager_inv_def)
  then have "filter (\<lambda>i. i \<notin> (\<lambda>(n, inst). in_id inst) ` set (mg_servers m)) (mg_waiting m) = []"
    by (simp add: servers_inv_def filter_empty_conv subset_iff)
  then show "mg_waiting (fold (\<lambda>(name, inst). run_ends (in_id inst) None) (mg_servers m) m) = []" by (simp add: run_ends_waiting)
  then have "Manager_Stop m = (if 0 < mg_http3_waiting m then Blocked
      else Return ((fold (\<lambda>(name, inst). run_ends (in_id inst) None) (mg_servers m) m)\<lparr>mg_servers := [], mg_started := False\<rparr>, None))"
    using assms(3) by (simp add: Manager_Stop_def Let_def run_ends_all)
  moreover have "0 < mg_http3_waiting m \<longleftrightarrow> h3_enabled (ft_hTTP3 (cfg_features cfg)) \<and> (\<exists>(n, inst) \<in> set (mg_servers m). https_server inst)"
    using inv by (auto simp: servers_inv_def)
  ultimately show "Manager_Stop m = (if h3_enabled (ft_hTTP3 (cfg_features cfg)) \<and> (\<exists>(n, inst) \<in> set (mg_servers m). https_server inst) then Blocked
      else Return ((fold (\<lambda>(name, inst). run_ends (in_id inst) None) (mg_servers m) m)\<lparr>mg_servers := [], mg_started := False\<rparr>, None))"
    by simp
qed

text \<open>
  C13. Stopping the servers: when the enabled servers have different names, a started manager stops, with no goroutine left and ready to be
  started again, exactly when HTTP/3 is off or no HTTPS server was started; otherwise \<open>Stop\<close> (and with it \<open>Restart\<close>)
  never returns, because the goroutine of an HTTP/3 server is counted in but never out.
\<close>

theorem stop_returns_iff:
  assumes "reachable_manager env cfg h m" and "distinct (map srv_name (GetEnabledServers cfg))" and "mg_started m"
  shows "if h3_enabled (ft_hTTP3 (cfg_features cfg)) \<and> (\<exists>(n, inst) \<in> set (mg_servers m). https_server inst)
    then Manager_Stop m = Blocked \<and> Manager_Restart env m = Blocked
    else \<exists>m'. Manager_Stop m = Return (m', None) \<and> mg_waiting m' = [] \<and> mg_servers m' = [] \<and> \<not> mg_started m'
           \<and> Manager_Restart env m = Return (Manager_Start env m')"
  using stop_result [OF assms] by (simp add: Manager_Restart_def)

section \<open>The hypotheses hold\<close>

definition site_env :: "string manager_env" where
  "site_env = \<lparr>ve_listen = \<lambda>a. Inr a, ve_tls_listener = \<lambda>_ l. l, ve_certs = id, ve_domains = id, ve_servers = id\<rparr>"

theorem autotls_panics_witness:
  "handshake site_env (\<lambda>_. Inr ''certificate'') (NewManager site_env site_config echo) = Panic"
  using autotls_panics [where env = site_env and cfg = site_config and h = echo and m = "NewManager site_env site_config echo"
      and acme = "\<lambda>_. Inr ''certificate''"]
  by (simp add: reachable_manager_def)

lemma site_started:
  assumes "GetEnabledServers cfg = [https_site]"
  obtains m inst where "Manager_Start site_env (NewManager site_env cfg h) = (m, None)" "mg_started m" "mg_servers m = [(''tls'', inst)]"
    "https_server inst"
proof -
  let ?m = "NewManager site_env cfg h"
  obtain m' where m': "startServer site_env https_site ?m = (m', None)"
    by (simp add: startServer_def CommonHttpServer_def ConfigureTLS_def https_site_def tls_config_def site_env_def Let_def)
  then obtain inst where inst: "mg_servers m' = [(''tls'', inst)]" "https_server inst"
  proof (cases rule: startServer_cases)
    case (2 tm inst)
    moreover have "srv_name https_site = ''tls''" "srv_protocol https_site = ''https''" by (simp_all add: https_site_def)
    ultimately show ?thesis by (intro that [of inst]) (simp_all add: NewManager_def Let_def https_server_def)
  qed simp
  have "mg_config ?m = cfg" "\<not> mg_started ?m" by (simp_all add: NewManager_def Let_def)
  moreover have "mg_servers (start_one site_env https_site ?m) = mg_servers m'"
    using m' by (simp add: start_one_def startHttp3Server_def)
  ultimately show thesis using assms inst that by (simp add: Manager_Start_def Let_def)
qed

theorem stop_returns_iff_witness:
  "\<exists>m. Manager_Start site_env (NewManager site_env site_config echo) = (m, None) \<and> Manager_Stop m = Blocked"
proof -
  have h3: "h3_enabled (ft_hTTP3 (cfg_features site_config))" "GetEnabledServers site_config = [https_site]"
    by (simp_all add: site_config_def Let_def GetEnabledServers_def https_site_def)
  obtain m inst where m: "Manager_Start site_env (NewManager site_env site_config echo) = (m, None)" "mg_started m"
      "mg_servers m = [(''tls'', inst)]" "https_server inst"
    by (rule site_started [OF h3(2)])
  have "reachable_manager site_env site_config echo m"
    unfolding reachable_manager_def using manager_step.start [OF m(1)] by blast
  then have "Manager_Stop m = Blocked"
    using stop_returns_iff [of site_env site_config echo m] m h3 by auto
  with m(1) show ?thesis by blast
qed

end
