(* ===== verification/BackendProxy.thy ===== *)
theory BackendProxy
  imports GoHttp Config
begin

text \<open>
  The canned back ends (\<open>backend_proxy\<close>): servers that answer each configured path with a fixed status, headers and
  message. Which lists of patterns \<open>http.ServeMux\<close> accepts and which pattern it picks for a path are
  parameters, as is the iteration order of header maps. A listener's goroutine marks its server as started.
\<close>

section \<open>Answers\<close>

text \<open>\<open>WriteHeader\<close> panics on a status that is not a three digit number.\<close>

definition checked_WriteHeader :: "int \<Rightarrow> ResponseWriter \<Rightarrow> ResponseWriter outcome" where
  "checked_WriteHeader code w = (if code < 100 \<or> 999 < code then Panic else Return (rw_WriteHeader code w))"

definition mock_handler ::
    "((string, string) gomap \<Rightarrow> (string \<times> string) list) \<Rightarrow> BackendResponse \<Rightarrow> ResponseWriter \<Rightarrow> ResponseWriter outcome" where
  "mock_handler order rs w =
     (let w = fold (\<lambda>(k, v). rw_set k v) (order (brs_headers rs)) w
      in bind_outcome (checked_WriteHeader (brs_code rs) w) (\<lambda>w. Return (rw_Write (brs_msg rs) w)))"

text \<open>The registered patterns with their answers; registering a pattern that is not accepted panics.\<close>

definition Backend_GetHandler :: "(string list \<Rightarrow> bool) \<Rightarrow> BackendServer \<Rightarrow> (string \<times> BackendResponse) list outcome" where
  "Backend_GetHandler accepts conf =
     (if accepts (map brs_path (bs_response conf)) then Return (map (\<lambda>rs. (brs_path rs, rs)) (bs_response conf)) else Panic)"

section \<open>Servers\<close>

record BackendSvr =
  bk_host :: string
  bk_port :: int
  bk_conf :: BackendServer
  bk_svr :: "(string \<times> (string \<times> BackendResponse) list) option"
  bk_started :: bool

definition NewBackendServer :: "BackendServer \<Rightarrow> BackendSvr" where
  "NewBackendServer conf = \<lparr>bk_host = bs_host conf, bk_port = bs_port conf, bk_conf = conf, bk_svr = None, bk_started = False\<rparr>"

definition Backend_GetAddr :: "BackendSvr \<Rightarrow> string" where
  "Backend_GetAddr s = bk_host s @ '':'' @ itoa (bk_port s)"

definition Backend_Start :: "(string list \<Rightarrow> bool) \<Rightarrow> BackendSvr \<Rightarrow> BackendSvr outcome" where
  "Backend_Start accepts s =
     bind_outcome (Backend_GetHandler accepts (bk_conf s)) (\<lambda>mux. Return (s\<lparr>bk_svr := Some (Backend_GetAddr s, mux)\<rparr>))"

definition Backend_runs :: "BackendSvr \<Rightarrow> BackendSvr" where
  "Backend_runs s = (if bk_svr s = None then s else s\<lparr>bk_started := True\<rparr>)"

text \<open>\<open>Shutdown\<close> of a server that was never created panics; \<open>err\<close> is its answer otherwise.\<close>

definition Backend_Stop :: "string option \<Rightarrow> BackendSvr \<Rightarrow> (BackendSvr \<times> string option) outcome" where
  "Backend_Stop err s =
     (let s = s\<lparr>bk_started := False\<rparr> in case bk_svr s of None \<Rightarrow> Panic | Some _ \<Rightarrow> Return (s, err))"

definition Backend_IsStarted :: "BackendSvr \<Rightarrow> bool" where
  "Backend_IsStarted s = bk_started s"

definition Backend_Name :: "BackendSvr \<Rightarrow> string" where
  "Backend_Name s = bs_serviceName (bk_conf s)"

type_synonym BackendProxy = "(string, BackendSvr) gomap"

definition NewBackendProxy :: "Config \<Rightarrow> BackendProxy" where
  "NewBackendProxy cfg =
     (if \<not> pb_enabled (cfg_pxyBackend cfg) then []
      else fold (\<lambda>server servers. gm_put (bs_serviceName server) (NewBackendServer server) servers)
             (pb_servers (cfg_pxyBackend cfg)) [])"

text \<open>\<open>Start\<close> and \<open>Stop\<close> of all servers, in an order of the map.\<close>

fun BackendProxy_Start :: "(string list \<Rightarrow> bool) \<Rightarrow> (string \<times> BackendSvr) list \<Rightarrow> BackendProxy \<Rightarrow> BackendProxy outcome" where
  "BackendProxy_Start accepts [] bp = Return bp"
| "BackendProxy_Start accepts ((name, svr) # ord) bp =
     bind_outcome (Backend_Start accepts svr) (\<lambda>svr. BackendProxy_Start accepts ord (gm_put name svr bp))"

fun BackendProxy_Stop :: "(string \<times> BackendSvr) list \<Rightarrow> BackendProxy \<Rightarrow> BackendProxy outcome" where
  "BackendProxy_Stop [] bp = Return bp"
| "BackendProxy_Stop ((name, svr) # ord) bp =
     bind_outcome (Backend_Stop None svr) (\<lambda>(svr, err). BackendProxy_Stop ord (gm_put name svr bp))"

section \<open>What they do\<close>

lemma set_headers:
  "rw_sent (fold (\<lambda>(k, v). rw_set k v) hs w) = rw_sent w \<and> rw_body (fold (\<lambda>(k, v). rw_set k v) hs w) = rw_body w"
  by (induction hs arbitrary: w) (auto simp: rw_set_def)

text \<open>A canned answer has the configured status and message; one without a status (or with an invalid one) makes every request panic.\<close>

lemma mock_answer:
  "mock_handler order rs new_writer =
     (if brs_code rs < 100 \<or> 999 < brs_code rs then Panic
      else Return (rw_Write (brs_msg rs) (rw_WriteHeader (brs_code rs) (fold (\<lambda>(k, v). rw_set k v) (order (brs_headers rs)) new_writer))))"
  by (simp add: mock_handler_def Let_def checked_WriteHeader_def)

lemma mock_sent:
  assumes "100 \<le> brs_code rs" and "brs_code rs \<le> 999"
  shows "\<exists>w h. mock_handler order rs new_writer = Return w \<and> rw_sent w = Some (brs_code rs, h) \<and> rw_body w = brs_msg rs"
proof -
  have "rw_sent new_writer = None" "rw_body new_writer = []" by (simp_all add: new_writer_def)
  with assms set_headers [of "order (brs_headers rs)" new_writer] show ?thesis
    by (simp add: mock_answer rw_WriteHeader_def rw_Write_def Let_def)
qed

text \<open>Stopping the servers panics if one was never started; of servers with one name only the last exists.\<close>

lemma stop_before_start:
  assumes "pb_enabled (cfg_pxyBackend cfg)" and "pb_servers (cfg_pxyBackend cfg) \<noteq> []"
    and "iteration_of ord (NewBackendProxy cfg)"
  shows "BackendProxy_Stop ord bp = Panic"
proof -
  have all: "\<forall>(n, s) \<in> set (NewBackendProxy cfg). bk_svr s = None"
  proof -
    have put: "\<forall>(n, s) \<in> set (gm_put k (NewBackendServer c) m). bk_svr s = None" if "\<forall>(n, s) \<in> set m. bk_svr s = None" for k c m
      using that by (induction m) (auto simp: NewBackendServer_def)
    have "\<forall>(n, s) \<in> set (fold (\<lambda>server servers. gm_put (bs_serviceName server) (NewBackendServer server) servers) svs m). bk_svr s = None"
      if "\<forall>(n, s) \<in> set m. bk_svr s = None" for svs m
      using that
    proof (induction svs arbitrary: m)
      case (Cons a svs)
      from Cons.IH [OF put [OF Cons.prems]] show ?case by simp
    qed simp
    from this [of "[]"] show ?thesis by (simp add: NewBackendProxy_def)
  qed
  have "NewBackendProxy cfg \<noteq> []"
  proof -
    have "gm_put k v m \<noteq> []" for k and v :: BackendSvr and m by (cases m) auto
    then have "fold (\<lambda>server servers. gm_put (bs_serviceName server) (NewBackendServer server) servers) svs m \<noteq> []"
      if "svs \<noteq> [] \<or> m \<noteq> []" for svs m
      using that by (induction svs arbitrary: m) auto
    with assms show ?thesis by (simp add: NewBackendProxy_def)
  qed
  then have "ord \<noteq> []" using assms(3) by (auto simp: iteration_of_def)
  then obtain n s ord' where ord: "ord = (n, s) # ord'" by (cases ord) auto
  then have "(n, s) \<in> set (NewBackendProxy cfg)" using iteration_set [OF assms(3)] by (metis list.set_intros(1))
  then have "bk_svr s = None" using all by auto
  with ord show ?thesis by (simp add: Backend_Stop_def Let_def)
qed

end
