(* ===== verification/GoTemplate.thy ===== *)
theory GoTemplate
  imports GoPrelude
begin

text \<open>
  The escapers of Go's \<open>html/template\<close> that the front end's directory listing uses: for text and title, for
  a quoted attribute, and the URL filter and normalizer that precede it in an \<open>href\<close>. What a browser reads back
  is the unescaping of the entities and of percent codes.
\<close>

section \<open>Text and attributes\<close>

definition tmpl_escape_char :: "char \<Rightarrow> string" where
  "tmpl_escape_char c =
     (if c = CHR 0x00 then [CHR 0xEF, CHR 0xBF, CHR 0xBD]
      else if c = CHR 0x22 then ''&#34;''
      else if c = CHR ''&'' then ''&amp;''
      else if c = CHR 0x27 then ''&#39;''
      else if c = CHR ''+'' then ''&#43;''
      else if c = CHR ''<'' then ''&lt;''
      else if c = CHR ''>'' then ''&gt;''
      else [c])"

definition tmpl_escape :: "string \<Rightarrow> string" where
  "tmpl_escape s = concat (map tmpl_escape_char s)"

definition html_markup :: "char \<Rightarrow> bool" where
  "html_markup c \<longleftrightarrow> c \<in> {CHR ''<'', CHR ''>'', CHR 0x22, CHR 0x27}"

lemma tmpl_escape_simps [simp]:
  "tmpl_escape [] = []" "tmpl_escape (c # s) = tmpl_escape_char c @ tmpl_escape s"
  by (simp_all add: tmpl_escape_def)

lemma tmpl_escape_append: "tmpl_escape (s @ t) = tmpl_escape s @ tmpl_escape t"
  by (simp add: tmpl_escape_def)

lemma tmpl_escape_no_markup: "filter html_markup (tmpl_escape s) = []"
  by (induction s) (auto simp: tmpl_escape_char_def html_markup_def)

text \<open>Reading the entities back, as a browser does.\<close>

fun html_unescape :: "string \<Rightarrow> string" where
  "html_unescape [] = []"
| "html_unescape (c # s) =
     (if hasPrefix (c # s) ''&#34;'' then CHR 0x22 # html_unescape (drop 4 s)
      else if hasPrefix (c # s) ''&amp;'' then CHR ''&'' # html_unescape (drop 4 s)
      else if hasPrefix (c # s) ''&#39;'' then CHR 0x27 # html_unescape (drop 4 s)
      else if hasPrefix (c # s) ''&#43;'' then CHR ''+'' # html_unescape (drop 4 s)
      else if hasPrefix (c # s) ''&lt;'' then CHR ''<'' # html_unescape (drop 3 s)
      else if hasPrefix (c # s) ''&gt;'' then CHR ''>'' # html_unescape (drop 3 s)
      else c # html_unescape s)"

lemma html_unescape_escape: "CHR 0x00 \<notin> set s \<Longrightarrow> html_unescape (tmpl_escape s) = s"
  by (induction s) (auto simp: tmpl_escape_char_def hasPrefix_def)

section \<open>URLs\<close>

definition lower_hex :: "nat \<Rightarrow> char" where
  "lower_hex d = (if d < 10 then char_of (48 + d) else char_of (87 + d))"

definition hex_value :: "char \<Rightarrow> nat option" where
  "hex_value c =
     (let n = of_char c :: nat in
      if 48 \<le> n \<and> n \<le> 57 then Some (n - 48)
      else if 97 \<le> n \<and> n \<le> 102 then Some (n - 87)
      else if 65 \<le> n \<and> n \<le> 70 then Some (n - 55) else None)"

definition is_hex :: "char \<Rightarrow> bool" where "is_hex c \<longleftrightarrow> hex_value c \<noteq> None"

definition pct_code :: "char \<Rightarrow> string" where
  "pct_code c = (let n = of_char c :: nat in [CHR ''%'', lower_hex (n div 16), lower_hex (n mod 16)])"

text \<open>The bytes that normalization keeps: reserved, unreserved and alphanumeric ones.\<close>

definition url_plain :: "char \<Rightarrow> bool" where
  "url_plain c \<longleftrightarrow>
     (let n = of_char c :: nat in
      c \<in> set ''!#$&*+,/:;=?@[]-._~'' \<or> (97 \<le> n \<and> n \<le> 122) \<or> (65 \<le> n \<and> n \<le> 90) \<or> (48 \<le> n \<and> n \<le> 57))"

fun url_normalize :: "string \<Rightarrow> string" where
  "url_normalize [] = []"
| "url_normalize (c # s) =
     (if url_plain c \<or> (c = CHR ''%'' \<and> 2 \<le> length s \<and> is_hex (s ! 0) \<and> is_hex (s ! 1))
      then [c] else pct_code c) @ url_normalize s"

text \<open>A URL with a scheme other than the three harmless ones is replaced.\<close>

definition is_safe_url :: "string \<Rightarrow> bool" where
  "is_safe_url s =
     (case indexChar CHR '':'' s of
        None \<Rightarrow> True
      | Some i \<Rightarrow>
          (let protocol = take i s in
           CHR ''/'' \<in> set protocol \<or> equalFold protocol ''http'' \<or> equalFold protocol ''https'' \<or> equalFold protocol ''mailto''))"

definition url_filter :: "string \<Rightarrow> string" where
  "url_filter s = (if is_safe_url s then s else ''#ZgotmplZ'')"

text \<open>The value of a quoted attribute that is a URL.\<close>

definition url_attribute :: "string \<Rightarrow> string" where
  "url_attribute s = tmpl_escape (url_normalize (url_filter s))"

fun pct_decode :: "string \<Rightarrow> string" where
  "pct_decode (CHR ''%'' # a # b # s) =
     (case (hex_value a, hex_value b) of
        (Some x, Some y) \<Rightarrow> char_of (16 * x + y) # pct_decode s
      | _ \<Rightarrow> CHR ''%'' # pct_decode (a # b # s))"
| "pct_decode (c # s) = c # pct_decode s"
| "pct_decode [] = []"

lemma hex_value_lower: "d < 16 \<Longrightarrow> hex_value (lower_hex d) = Some d"
  by (simp add: hex_value_def lower_hex_def Let_def)

lemma pct_decode_code: "pct_decode (pct_code c @ s) = c # pct_decode s"
proof -
  have "(of_char c :: nat) < 256" using nat_of_char_less_256 [of c] by simp
  then have "hex_value (lower_hex (of_char c div 16)) = Some (of_char c div 16)"
    "hex_value (lower_hex (of_char c mod 16)) = Some (of_char c mod 16)"
    by (simp_all add: hex_value_lower less_mult_imp_div_less)
  then show ?thesis by (simp add: pct_code_def Let_def)
qed

lemma pct_decode_plain: "c \<noteq> CHR ''%'' \<Longrightarrow> pct_decode (c # s) = c # pct_decode s"
  by (cases "c # s" rule: pct_decode.cases) auto

lemma pct_decode_normalize: "CHR ''%'' \<notin> set s \<Longrightarrow> pct_decode (url_normalize s) = s"
  by (induction s) (auto simp: pct_decode_code pct_decode_plain)

lemma normalize_no_nul: "CHR 0x00 \<notin> set (url_normalize s)"
proof -
  have none: "hex_value (CHR 0x00) = None" by code_simp
  have nz: "CHR 0x00 \<noteq> lower_hex d" if "d < 16" for d
    using hex_value_lower [OF that] none by (metis option.distinct(1))
  have "CHR 0x00 \<notin> set (pct_code c)" for c
    using nz [of "of_char c div 16"] nz [of "of_char c mod 16"] nat_of_char_less_256 [of c]
    by (simp add: pct_code_def Let_def less_mult_imp_div_less)
  moreover have "\<not> url_plain (CHR 0x00)" by code_simp
  ultimately show ?thesis by (induction s) (auto split: if_splits)
qed

end
