(* ===== verification/FrontendServer.thy ===== *)
theory FrontendServer
  imports FrontendGuarantees GoTemplate
begin

text \<open>
  The rest of the front end server (\<open>frontend_proxy/server.go\<close>): its creation with the chain of middlewares, the pool of HTTP
  clients, the log entry of a request, and the page that lists a directory. Reading a directory and
  formatting a time are parameters.
\<close>

section \<open>The server and its clients\<close>

record HttpClient =
  cl_Timeout :: duration
  cl_MaxIdleConns :: int
  cl_MaxIdleConnsPerHost :: int
  cl_IdleConnTimeout :: duration
  cl_DisableCompression :: bool
  cl_DisableKeepAlives :: bool
  cl_follows_redirects :: bool

datatype middleware = Logging | CustomHeaders | BackendProxying | Routing

record HeliosServer =
  hl_config :: PxyFrontConfig
  hl_gin :: "middleware list"
  hl_clientPool :: "HttpClient list"

definition new_client :: HttpClient where
  "new_client = \<lparr>cl_Timeout = 30 * Second, cl_MaxIdleConns = 100, cl_MaxIdleConnsPerHost = 10, cl_IdleConnTimeout = 90 * Second,
     cl_DisableCompression = False, cl_DisableKeepAlives = False, cl_follows_redirects = False\<rparr>"

definition setupGin :: "HeliosServer \<Rightarrow> HeliosServer" where
  "setupGin s = s\<lparr>hl_gin := [Logging, CustomHeaders, BackendProxying, Routing]\<rparr>"

definition NewFrontServer :: "Config \<Rightarrow> string + HeliosServer" where
  "NewFrontServer cfg = Inr (setupGin \<lparr>hl_config = cfg_pxyFrontend cfg, hl_gin = [], hl_clientPool = []\<rparr>)"

definition GetHTTPClient :: "nat option \<Rightarrow> HeliosServer \<Rightarrow> HeliosServer \<times> HttpClient" where
  "GetHTTPClient choice s =
     (case pool_take choice (hl_clientPool s) of
        (Some client, pool) \<Rightarrow> (s\<lparr>hl_clientPool := pool\<rparr>, client)
      | (None, pool) \<Rightarrow> (s, new_client))"

definition PutHTTPClient :: "HttpClient \<Rightarrow> HeliosServer \<Rightarrow> HeliosServer" where
  "PutHTTPClient client s = s\<lparr>hl_clientPool := client # hl_clientPool s\<rparr>"

definition front_addr :: "HeliosServer \<Rightarrow> string" where
  "front_addr s = pf_host (hl_config s) @ '':'' @ itoa (pf_port (hl_config s))"

text \<open>Running the engine only returns with an error; \<open>run\<close> is what it returns with, if it does.\<close>

definition Front_Start :: "(string \<Rightarrow> string option) \<Rightarrow> HeliosServer \<Rightarrow> string option" where
  "Front_Start run s = run (front_addr s)"

definition Front_Shutdown :: "HeliosServer \<Rightarrow> HeliosServer" where
  "Front_Shutdown s = s"

section \<open>Log entries\<close>

datatype log_entry =
  AccessLog string Header string int string duration int string
| RequestLog string string int duration string

fun logs_access :: "string \<Rightarrow> FrontServerConfig list \<Rightarrow> bool" where
  "logs_access internalFlag [] = False"
| "logs_access internalFlag (srv # srvs) =
     (if fs_name srv = internalFlag \<and> fs_access srv then True else logs_access internalFlag srvs)"

text \<open>The entry for a request, with the time its handling took, the status of its reply and the address of its client.\<close>

definition LoggingMiddleware :: "PxyFrontConfig \<Rightarrow> Request \<Rightarrow> string \<Rightarrow> duration \<Rightarrow> int \<Rightarrow> string \<Rightarrow> log_entry" where
  "LoggingMiddleware cfg r path latency status ip =
     (let bodySize = (if r_length r < 0 then 0 else r_length r);
          internalFlag = req_get r (pf_internalFlag cfg)
      in if logs_access internalFlag (pf_servers cfg)
         then AccessLog internalFlag (r_header r) (r_method r) bodySize path latency status ip
         else RequestLog (r_method r) path status latency ip)"

lemma logs_access_iff: "logs_access f srvs \<longleftrightarrow> (\<exists>srv \<in> set srvs. fs_name srv = f \<and> fs_access srv)"
  by (induction srvs) auto

section \<open>Directory listings\<close>

record FileInfo =
  fi_Name :: string
  fi_IsDir :: bool
  fi_Size :: int
  fi_ModTime :: string

text \<open>An entry of a directory: name, whether it is a directory, and size and time if they can be read.\<close>

type_synonym dir_entry = "string \<times> bool \<times> (int \<times> time) option"

definition file_infos :: "(time \<Rightarrow> string) \<Rightarrow> dir_entry list \<Rightarrow> FileInfo list" where
  "file_infos format entries =
     List.map_filter (\<lambda>(name, isDir, info). map_option (\<lambda>(n, t).
       \<lparr>fi_Name = name, fi_IsDir = isDir, fi_Size = n, fi_ModTime = format t\<rparr>) info) entries"

definition text_lines :: "string list \<Rightarrow> string" where
  "text_lines ls = concat (map (\<lambda>l. CHR 0x0A # l) ls)"

definition listing_head :: string where
  \<open>listing_head = text_lines
    [''<!DOCTYPE html>'', ''<html>'', ''<head>'', ''    <meta charset="UTF-8">'', ''    <title>Directory Listing - '']\<close>

definition listing_style :: string where
  \<open>listing_style = ''</title>'' @ text_lines
    [''    <style>'', ''        body { font-family: Arial, sans-serif; margin: 20px; }'',
     ''        table { border-collapse: collapse; width: 100%; }'',
     ''        th, td { border: 1px solid #ddd; padding: 8px; text-align: left; }'',
     ''        th { background-color: #f2f2f2; }'', ''        .dir { color: #0066cc; }'', ''        .file { color: #333; }'',
     ''    </style>'', ''</head>'', ''<body>'', ''    <h1>Directory Listing: '']\<close>

definition listing_table :: string where
  \<open>listing_table = ''</h1>'' @ text_lines
    [''    <table>'', ''        <tr>'', ''            <th>Name</th>'', ''            <th>Type</th>'',
     ''            <th>Size</th>'', ''            <th>Modified</th>'', ''        </tr>'', ''        '']\<close>

definition listing_tail :: string where
  \<open>listing_tail = text_lines [''    </table>'', ''</body>'', ''</html>'']\<close>

text \<open>The link of an entry is its name, a URL, followed by a slash for a directory.\<close>

definition listing_row :: "FileInfo \<Rightarrow> string" where
  \<open>listing_row f =
     text_lines [''        <tr>'', ''            <td><a href="''] @ url_attribute (fi_Name f) @ (if fi_IsDir f then ''/'' else [])
     @ ''" class="'' @ (if fi_IsDir f then ''dir'' else ''file'') @ ''">'' @ tmpl_escape (fi_Name f) @ ''</a></td>''
     @ text_lines [''            <td>''] @ (if fi_IsDir f then ''Directory'' else ''File'') @ ''</td>''
     @ text_lines [''            <td>''] @ (if \<not> fi_IsDir f then itoa (fi_Size f) @ '' bytes'' else ''-'') @ ''</td>''
     @ text_lines [''            <td>''] @ tmpl_escape (fi_ModTime f) @ ''</td>''
     @ text_lines [''        </tr>'', ''        '']\<close>

definition listing_page :: "string \<Rightarrow> FileInfo list \<Rightarrow> string" where
  "listing_page path infos =
     listing_head @ tmpl_escape path @ listing_style @ tmpl_escape path @ listing_table
     @ concat (map listing_row infos) @ listing_tail"

text \<open>
  The reply as it is rendered: a listing becomes its page, built from what reading the directory gives when it
  is rendered; every other content stays as it is.
\<close>

definition render_listing :: "(string \<Rightarrow> dir_entry list) \<Rightarrow> (time \<Rightarrow> string) \<Rightarrow> string \<Rightarrow> content \<Rightarrow> string option" where
  "render_listing readDir format path c =
     (case c of ListDirectory d \<Rightarrow> Some (listing_page path (file_infos format (readDir d))) | _ \<Rightarrow> None)"

section \<open>What a listing shows\<close>

lemma row_markup:
  "filter html_markup (listing_row f) = filter html_markup (listing_row (f\<lparr>fi_Name := [], fi_ModTime := []\<rparr>))"
proof -
  let ?f = "f\<lparr>fi_Name := [], fi_ModTime := []\<rparr>"
  have "fi_IsDir ?f = fi_IsDir f" "fi_Size ?f = fi_Size f" by simp_all
  then show ?thesis
    by (simp only: listing_row_def url_attribute_def filter_append tmpl_escape_no_markup)
qed

text \<open>
  C31. No file name can inject markup into a directory listing: the angle brackets and quotes of a listing are those
  of the listing with an empty path and empty names and times, whatever the requested path and the names are.
\<close>

theorem listing_safe:
  "filter html_markup (listing_page path infos) =
     filter html_markup (listing_page [] (map (\<lambda>f. f\<lparr>fi_Name := [], fi_ModTime := []\<rparr>) infos))"
proof -
  have "filter html_markup (concat (map listing_row infos)) =
      filter html_markup (concat (map listing_row (map (\<lambda>f. f\<lparr>fi_Name := [], fi_ModTime := []\<rparr>) infos)))"
  proof (induction infos)
    case (Cons f infos)
    then show ?case by (simp add: row_markup [of f])
  qed simp
  then show ?thesis by (simp only: listing_page_def filter_append tmpl_escape_no_markup)
qed

text \<open>
  A browser shows every entry of a listing under its name, and the link of an entry leads to its name (for names without a
  percent sign); but the link of a file whose name starts like a URL with a scheme leads nowhere.
\<close>

theorem listing_links:
  assumes "CHR 0x00 \<notin> set name"
  shows "html_unescape (tmpl_escape name) = name"
    and "is_safe_url name \<and> CHR ''%'' \<notin> set name \<longrightarrow> pct_decode (html_unescape (url_attribute name)) = name"
    and "\<not> is_safe_url name \<longrightarrow> html_unescape (url_attribute name) = ''#ZgotmplZ''"
proof -
  show "html_unescape (tmpl_escape name) = name" by (rule html_unescape_escape [OF assms])
  have plain: "html_unescape (url_attribute name) = url_normalize (url_filter name)"
    unfolding url_attribute_def by (rule html_unescape_escape [OF normalize_no_nul])
  show "is_safe_url name \<and> CHR ''%'' \<notin> set name \<longrightarrow> pct_decode (html_unescape (url_attribute name)) = name"
    unfolding plain by (simp add: url_filter_def pct_decode_normalize)
  have "url_normalize ''#ZgotmplZ'' = ''#ZgotmplZ''" by code_simp
  then show "\<not> is_safe_url name \<longrightarrow> html_unescape (url_attribute name) = ''#ZgotmplZ''"
    unfolding plain by (simp add: url_filter_def)
qed

theorem listing_links_witness:
  "html_unescape (tmpl_escape ''a<b>'') = ''a<b>'' \<and> pct_decode (html_unescape (url_attribute ''a<b>'')) = ''a<b>''
   \<and> html_unescape (url_attribute ''note:1.txt'') = ''#ZgotmplZ''"
proof -
  have "is_safe_url ''a<b>''" "\<not> is_safe_url ''note:1.txt''" by code_simp+
  with listing_links [of "''a<b>''"] listing_links [of "''note:1.txt''"] show ?thesis by simp
qed

text \<open>Every client that the pool hands out has the configured limits, in whatever order clients are taken and returned.\<close>

definition pool_inv :: "HeliosServer \<Rightarrow> bool" where
  "pool_inv s \<longleftrightarrow> set (hl_clientPool s) \<subseteq> {new_client}"

lemma pool_clients:
  "NewFrontServer cfg = Inr s \<Longrightarrow> pool_inv s"
  "pool_inv s \<Longrightarrow> GetHTTPClient choice s = (s', client) \<Longrightarrow> client = new_client \<and> pool_inv s'"
  "pool_inv s \<Longrightarrow> PutHTTPClient new_client s = s' \<Longrightarrow> pool_inv s'"
  using pool_take_set [of choice "hl_clientPool s"]
  by (auto simp: NewFrontServer_def setupGin_def pool_inv_def GetHTTPClient_def PutHTTPClient_def
      split: prod.splits option.splits dest: pool_take_Some)

end
