(* ===== verification/StatEndpoint.thy ===== *)
theory StatEndpoint
  imports StatStore GoHttp
begin

text \<open>
  The HTTP endpoint of the statistics (\<open>gateway/stat/server.go\<close>): three paths that answer with the cached counters as JSON.
  The JSON encoder, the cache, listening and shutting down are parameters.
\<close>

section \<open>The server\<close>

datatype stat_route = ApiStat | ApiGeo | ApiDomain

record StatServer =
  sv_Enabled :: bool
  sv_Addr :: string
  sv_Port :: int
  sv_serverAddr :: string
  sv_mux :: "(string \<times> stat_route) list"
  sv_listening :: bool

definition registerMux :: "(string \<times> stat_route) list" where
  "registerMux = [(''/api/stat'', ApiStat), (''/api/geo'', ApiGeo), (''/api/domain'', ApiDomain)]"

definition NewStatServer :: "StatConfig \<Rightarrow> StatServer" where
  "NewStatServer c =
     \<lparr>sv_Enabled = st_enabled c, sv_Addr = st_host c, sv_Port = st_port c,
      sv_serverAddr = st_host c @ '':'' @ itoa (st_port c), sv_mux = registerMux, sv_listening = False\<rparr>"

definition StatServer_Start :: "StatServer \<Rightarrow> StatServer \<times> string option" where
  "StatServer_Start s = (if \<not> sv_Enabled s then (s, None) else (s\<lparr>sv_listening := True\<rparr>, None))"

definition StatServer_Stop :: "string option \<Rightarrow> StatServer \<Rightarrow> StatServer \<times> string option" where
  "StatServer_Stop err s = (if \<not> sv_Enabled s then (s, None) else (s\<lparr>sv_listening := False\<rparr>, err))"

section \<open>Answers\<close>

definition api_headers :: "ResponseWriter \<Rightarrow> ResponseWriter" where
  "api_headers w =
     rw_set ''Access-Control-Allow-Methods'' ''POST, GET, OPTIONS, PUT, DELETE''
       (rw_set ''Access-Control-Allow-Origin'' ''*'' (rw_set ''Content-Type'' ''application/json'' w))"

text \<open>\<open>marshal\<close> encodes a map of counters, or fails; a counter whose cached bytes are too short panics.\<close>

definition api_stat ::
    "('c \<Rightarrow> string \<Rightarrow> string option) \<Rightarrow> ((string, int) gomap \<Rightarrow> string option) \<Rightarrow> 'c \<Rightarrow> ResponseWriter \<Rightarrow> ResponseWriter outcome" where
  "api_stat cget marshal c w =
     bind_outcome (Stat_Get cget c Total) (\<lambda>total.
     bind_outcome (Stat_Get cget c API) (\<lambda>api.
     bind_outcome (Stat_Get cget c Static) (\<lambda>static.
     bind_outcome (Stat_Get cget c Fail) (\<lambda>fail.
     bind_outcome (Stat_Get cget c Today) (\<lambda>today.
       let result = gm_put ''today'' today (gm_put ''fail'' fail (gm_put ''static'' static (gm_put ''api'' api (gm_put ''total'' total []))));
           w = api_headers w
       in Return (case marshal result of None \<Rightarrow> rw_WriteHeader 500 w | Some data \<Rightarrow> rw_Write data w))))))"

definition api_bytes :: "string option \<Rightarrow> ResponseWriter \<Rightarrow> ResponseWriter" where
  "api_bytes result w = rw_Write (case result of None \<Rightarrow> [] | Some data \<Rightarrow> data) (api_headers w)"

definition api_handler ::
    "('c \<Rightarrow> string \<Rightarrow> string option) \<Rightarrow> ((string, int) gomap \<Rightarrow> string option) \<Rightarrow> 'c \<Rightarrow> stat_route \<Rightarrow> ResponseWriter \<Rightarrow> ResponseWriter outcome" where
  "api_handler cget marshal c route w =
     (case route of
        ApiStat \<Rightarrow> api_stat cget marshal c w
      | ApiGeo \<Rightarrow> Return (api_bytes (GetGeoData cget c) w)
      | ApiDomain \<Rightarrow> Return (api_bytes (GetDomainStat cget c) w))"

section \<open>What the endpoint reports\<close>

fun counter :: "stat_kind \<Rightarrow> stat_state \<Rightarrow> int" where
  "counter Total s = ss_total s"
| "counter API s = ss_api s"
| "counter Static s = ss_static s"
| "counter Fail s = ss_fail s"
| "counter Today s = ss_today s"

lemma synced_get:
  assumes "\<And>k v c k'. cget (cset k v c) k' = (if k' = k then Some v else cget c k')"
    and "syncStat cset cget date (s, c) = (s1, c1)" and "in_int64 (counter tp s1)"
  shows "Stat_Get cget c1 tp = Return (counter tp s1)"
  using assms(2,3)
  by (cases tp) (auto simp: syncStat_def Stat_Get_def Let_def assms(1) Uint64_PutUint64 split: if_splits)

lemma sync_counters:
  "syncStat cset cget date (s, c) = (s1, c1) \<Longrightarrow>
     s1 = s \<or> s1 = s\<lparr>ss_today := 0\<rparr>"
  by (auto simp: syncStat_def Let_def split: if_splits)

lemma header_names:
  "canonicalKey ''Content-Type'' = ''Content-Type''"
  "canonicalKey ''Access-Control-Allow-Origin'' = ''Access-Control-Allow-Origin''"
  "canonicalKey ''Access-Control-Allow-Methods'' = ''Access-Control-Allow-Methods''"
  by code_simp+

text \<open>
  C32. After a synchronisation the endpoint answers a query of the counters with status 200 and the JSON of exactly the counters of the
  gateway, each under its name, and the queries of countries and domains with the JSON of their tables; every
  site may read the answers. (Assumed of the cache: a value that has been set is found.)
\<close>

theorem endpoint_reports:
  assumes cache: "\<And>k v c k'. cget (cset k v c) k' = (if k' = k then Some v else cget c k')"
    and wf: "\<forall>tp. in_int64 (counter tp s)"
    and sync: "syncStat cset cget date (s, c) = (s1, c1)"
    and tables: "c2 = syncDomainStat cset enc s1 (syncGEOStat cset enc s1 c1)"
  shows "(\<exists>w hdr result. api_handler cget (\<lambda>m. Some (enc m)) c2 ApiStat new_writer = Return w
      \<and> rw_sent w = Some (200, hdr) \<and> hdr_values hdr ''Content-Type'' = [''application/json'']
      \<and> hdr_values hdr ''Access-Control-Allow-Origin'' = [''*'']
      \<and> rw_body w = enc result \<and> (\<forall>tp. gm_get result (kind_key tp) = Some (counter tp s1)))
    \<and> (\<exists>w. api_handler cget (\<lambda>m. Some (enc m)) c2 ApiGeo new_writer = Return w \<and> rw_body w = enc (ss_geoIp s1))
    \<and> (\<exists>w. api_handler cget (\<lambda>m. Some (enc m)) c2 ApiDomain new_writer = Return w \<and> rw_body w = enc (ss_domain s1))"
proof -
  have wf1: "in_int64 (counter tp s1)" for tp
    using wf [rule_format, of tp] sync_counters [OF sync] by (cases tp) (auto simp: in_int64_bounds)
  have "Stat_Get cget c2 tp = Stat_Get cget c1 tp" for tp
    by (cases tp) (simp_all add: tables syncDomainStat_def syncGEOStat_def Stat_Get_def cache)
  then have get: "Stat_Get cget c2 tp = Return (counter tp s1)" for tp
    using synced_get [OF cache sync wf1] by simp
  let ?result = "gm_put ''today'' (ss_today s1) (gm_put ''fail'' (ss_fail s1) (gm_put ''static'' (ss_static s1)
      (gm_put ''api'' (ss_api s1) (gm_put ''total'' (ss_total s1) []))))"
  have run: "api_handler cget (\<lambda>m. Some (enc m)) c2 ApiStat new_writer = Return (rw_Write (enc ?result) (api_headers new_writer))"
    by (simp add: api_handler_def api_stat_def get Let_def)
  have keys: "gm_get ?result (kind_key tp) = Some (counter tp s1)" for tp by (cases tp) simp_all
  have sent: "rw_sent (rw_Write d (api_headers new_writer)) = Some (200, rw_header (api_headers new_writer))"
    "rw_body (rw_Write d (api_headers new_writer)) = d" for d
    by (simp_all add: rw_defs api_headers_def Let_def)
  have hdr: "hdr_values (rw_header (api_headers new_writer)) ''Content-Type'' = [''application/json'']"
    "hdr_values (rw_header (api_headers new_writer)) ''Access-Control-Allow-Origin'' = [''*'']"
    by (simp_all add: api_headers_def rw_defs hdr_values_set header_names)
  have "\<exists>w hdr result. api_handler cget (\<lambda>m. Some (enc m)) c2 ApiStat new_writer = Return w
      \<and> rw_sent w = Some (200, hdr) \<and> hdr_values hdr ''Content-Type'' = [''application/json'']
      \<and> hdr_values hdr ''Access-Control-Allow-Origin'' = [''*'']
      \<and> rw_body w = enc result \<and> (\<forall>tp. gm_get result (kind_key tp) = Some (counter tp s1))"
    using run sent hdr keys by blast
  moreover have "\<exists>w. api_handler cget (\<lambda>m. Some (enc m)) c2 ApiGeo new_writer = Return w \<and> rw_body w = enc (ss_geoIp s1)"
    "\<exists>w. api_handler cget (\<lambda>m. Some (enc m)) c2 ApiDomain new_writer = Return w \<and> rw_body w = enc (ss_domain s1)"
    by (simp_all add: api_handler_def api_bytes_def GetGeoData_def GetDomainStat_def tables syncDomainStat_def syncGEOStat_def cache sent)
  ultimately show ?thesis by blast
qed

text \<open>A cache, and three requests that are counted.\<close>

definition cache_set :: "string \<Rightarrow> string \<Rightarrow> (string, string) gomap \<Rightarrow> (string, string) gomap" where
  "cache_set k v c = gm_put k v c"

theorem endpoint_reports_witness:
  "\<exists>s1 c1 w hdr. syncStat cache_set gm_get ''2025-1-1'' (run_stat (\<lambda>ip. ''DE'') [EvAdd Total, EvAdd Total, EvAdd API] empty_stat, []) = (s1, c1)
     \<and> ss_total s1 = 2
     \<and> api_handler gm_get (\<lambda>m. Some (itoa (int (length m)))) (syncDomainStat cache_set (\<lambda>m. itoa (int (length m))) s1
         (syncGEOStat cache_set (\<lambda>m. itoa (int (length m))) s1 c1)) ApiStat new_writer = Return w
     \<and> rw_sent w = Some (200, hdr)"
proof -
  let ?s = "run_stat (\<lambda>ip. ''DE'') [EvAdd Total, EvAdd Total, EvAdd API] empty_stat"
  obtain s1 c1 where sync: "syncStat cache_set gm_get ''2025-1-1'' (?s, []) = (s1, c1)" by fastforce
  have s: "?s = empty_stat\<lparr>ss_total := 2, ss_api := 1, ss_today := 2\<rparr>"
    by (simp add: run_stat_def empty_stat_def Stat_Add_def addTotal_def addAPI_def addToday_def wrap64_def)
  have wf: "\<forall>tp. in_int64 (counter tp ?s)"
  proof
    fix tp show "in_int64 (counter tp ?s)" unfolding s by (cases tp) (simp_all add: in_int64_bounds empty_stat_def)
  qed
  have cache: "gm_get (cache_set k v c) k' = (if k' = k then Some v else gm_get c k')" for k v c k'
    by (simp add: cache_set_def)
  have "ss_total s1 = 2" using sync_counters [OF sync] s by auto
  with endpoint_reports [OF cache wf sync refl, of "\<lambda>m. itoa (int (length m))"] sync show ?thesis by blast
qed

end
