(* ===== verification/InternalGrpc.thy ===== *)
theory InternalGrpc
  imports GrpcProxy
begin

text \<open>
  The second proxy from HTTP to gRPC (\<open>internal/grpc\<close>), which start-up creates beside that of \<open>gateway/grpc_proxy\<close>. Its
  requests and responses have the same structure; it has its own connection pool and is created by \<open>InitGrpcProxy\<close> instead of
  by its first use. Each operation is shown to be that of the gateway's proxy, so that the guarantees carry over.
\<close>

section \<open>State and creation\<close>

record 'c InternalGrpcProxy =
  igp_config :: GrpcProxyConfig
  igp_connPool :: "(string, 'c) gomap"

definition Internal_NewGrpcProxy :: "GrpcProxyConfig \<Rightarrow> 'c InternalGrpcProxy" where
  "Internal_NewGrpcProxy cfg = \<lparr>igp_config = cfg, igp_connPool = []\<rparr>"

text \<open>The package's variables: the proxy, if there is one, and whether initialisation was done.\<close>

record 'c internal_grpc =
  ig_globalProxy :: "'c InternalGrpcProxy option"
  ig_once :: bool

definition Internal_InitGrpcProxy :: "GrpcProxyConfig \<Rightarrow> 'c internal_grpc \<Rightarrow> 'c internal_grpc" where
  "Internal_InitGrpcProxy cfg g =
     (if ig_once g then g
      else g\<lparr>ig_once := True, ig_globalProxy := (if grc_enabled cfg then Some (Internal_NewGrpcProxy cfg) else ig_globalProxy g)\<rparr>)"

definition Internal_GetGrpcProxy :: "'c internal_grpc \<Rightarrow> 'c InternalGrpcProxy option" where
  "Internal_GetGrpcProxy g = ig_globalProxy g"

definition Internal_IsEnabled :: "'c internal_grpc \<Rightarrow> bool" where
  "Internal_IsEnabled g =
     (case Internal_GetGrpcProxy g of None \<Rightarrow> False | Some p \<Rightarrow> grc_enabled (igp_config p))"

section \<open>Handling a request\<close>

definition Internal_IsGrpcRequest :: "'c InternalGrpcProxy \<Rightarrow> Request \<Rightarrow> bool" where
  "Internal_IsGrpcRequest p r =
     (if \<not> grc_enabled (igp_config p) then False
      else (let grpcFlag = req_get r (grc_grpcHeader (igp_config p)) in grpcFlag = ''true'' \<or> grpcFlag = ''1''))"

definition Internal_ValidateGrpcAddr :: "'c InternalGrpcProxy \<Rightarrow> string \<Rightarrow> bool" where
  "Internal_ValidateGrpcAddr p addr =
     (if grc_hosts (igp_config p) = [] then False
      else list_ex (\<lambda>host. addr = host \<or> hasPrefix addr (host @ '':'')) (grc_hosts (igp_config p)))"

definition Internal_parseHttpRequest :: "('j, 'c) grpc_env \<Rightarrow> Request \<Rightarrow> string + 'j GrpcRequest" where
  "Internal_parseHttpRequest env r =
     (case gr_read env (r_body r) of
        Some err \<Rightarrow> Inl (''failed to read request body: '' @ err)
      | None \<Rightarrow>
         (case gr_decode env (r_body r) of
            Inl err \<Rightarrow> Inl (''failed to unmarshal request: '' @ err)
          | Inr grpcReq \<Rightarrow>
              if gq_service grpcReq = [] then Inl ''service field is required''
              else if gq_method grpcReq = [] then Inl ''method field is required''
              else Inr (if gq_timeout grpcReq \<le> 0 then grpcReq\<lparr>gq_timeout := 30\<rparr> else grpcReq)))"

definition Internal_getConnection :: "('j, 'c) grpc_env \<Rightarrow> string \<Rightarrow> 'c InternalGrpcProxy \<Rightarrow> 'c InternalGrpcProxy \<times> (string + 'c)" where
  "Internal_getConnection env addr p =
     (case gm_get (igp_connPool p) addr of
        Some conn \<Rightarrow> (p, Inr conn)
      | None \<Rightarrow>
         (case gr_dial env addr of
            Inl err \<Rightarrow> (p, Inl (''failed to connect to gRPC server '' @ addr @ '': '' @ err))
          | Inr conn \<Rightarrow> (p\<lparr>igp_connPool := gm_put addr conn (igp_connPool p)\<rparr>, Inr conn)))"

definition Internal_executeGrpcCall ::
    "('j, 'c) grpc_env \<Rightarrow> string \<Rightarrow> 'j GrpcRequest \<Rightarrow> 'c InternalGrpcProxy \<Rightarrow> 'c InternalGrpcProxy \<times> (string + 'j GrpcResponse)" where
  "Internal_executeGrpcCall env addr req p =
     (let (p, conn) = Internal_getConnection env addr p
      in case conn of
           Inl err \<Rightarrow> (p, Inl (''failed to get connection: '' @ err))
         | Inr conn \<Rightarrow>
            (let timeout = wrap64 (gq_timeout req * Second);
                 md = (if 0 < length (gq_headers req) then Some (gq_headers req) else None);
                 fullMethod = ''/'' @ gq_service req @ ''/'' @ gq_method req
             in case gr_marshal env (gq_data req) of
                  Inl err \<Rightarrow> (p, Inl (''failed to marshal request data: '' @ err))
                | Inr reqData \<Rightarrow>
                   (let hs = (case gr_incoming env of None \<Rightarrow> [] | Some inc \<Rightarrow> first_values inc)
                    in case gr_invoke env conn timeout md fullMethod reqData of
                         Inl err \<Rightarrow> (p, Inr \<lparr>gs_success = False, gs_data = None, gs_error = err,
                           gs_code = error_code err, gs_headers = hs\<rparr>)
                       | Inr respData \<Rightarrow> (p, Inr \<lparr>gs_success = True, gs_data = gr_unmarshal env respData, gs_error = [],
                           gs_code = 200, gs_headers = hs\<rparr>))))"

definition Internal_writeGrpcResponse :: "('j, 'c) grpc_env \<Rightarrow> 'j GrpcResponse \<Rightarrow> responseRecorder \<Rightarrow> responseRecorder" where
  "Internal_writeGrpcResponse env resp w =
     (let w = w\<lparr>rec_header := hdr_set ''Content-Type'' ''application/json'' (rec_header w)\<rparr>;
          w = rec_WriteHeader (gs_code resp) w
      in case gr_encode env resp of None \<Rightarrow> w | Some json \<Rightarrow> rec_Write json w)"

definition Internal_writeErrorResponse :: "('j, 'c) grpc_env \<Rightarrow> string \<Rightarrow> int \<Rightarrow> responseRecorder \<Rightarrow> responseRecorder" where
  "Internal_writeErrorResponse env message code w = Internal_writeGrpcResponse env (error_response message code) w"

definition Internal_HandleGrpcRequest ::
    "('j, 'c) grpc_env \<Rightarrow> Request \<Rightarrow> 'c InternalGrpcProxy \<times> responseRecorder \<Rightarrow> 'c InternalGrpcProxy \<times> responseRecorder" where
  "Internal_HandleGrpcRequest env r pw =
     (let (p, w) = pw;
          grpcAddr = req_get r (grc_grpcAddr (igp_config p))
      in if grpcAddr = [] then (p, Internal_writeErrorResponse env ''missing gRPC address header'' 400 w)
         else if \<not> Internal_ValidateGrpcAddr p grpcAddr then (p, Internal_writeErrorResponse env ''gRPC address not allowed'' 403 w)
         else (case Internal_parseHttpRequest env r of
            Inl err \<Rightarrow> (p, Internal_writeErrorResponse env (''invalid request format: '' @ err @ [CHR 0x0A]) 400 w)
          | Inr grpcReq \<Rightarrow>
             (case Internal_executeGrpcCall env grpcAddr grpcReq p of
                (p, Inl err) \<Rightarrow> (p, Internal_writeErrorResponse env (''gRPC call failed: '' @ err) 500 w)
              | (p, Inr resp) \<Rightarrow> (p, Internal_writeGrpcResponse env resp w))))"

definition Internal_Close :: "'c InternalGrpcProxy \<Rightarrow> 'c InternalGrpcProxy" where
  "Internal_Close p = p\<lparr>igp_connPool := []\<rparr>"

section \<open>The same as the gateway's proxy\<close>

definition as_gateway :: "'c InternalGrpcProxy \<Rightarrow> 'c GrpcProxy" where
  "as_gateway p = \<lparr>gp_config = igp_config p, gp_connPool = igp_connPool p\<rparr>"

lemma as_gateway_fields [simp]: "gp_config (as_gateway p) = igp_config p" "gp_connPool (as_gateway p) = igp_connPool p"
  by (simp_all add: as_gateway_def)

lemma internal_texts:
  "Internal_parseHttpRequest = parseHttpRequest" "Internal_writeGrpcResponse = writeGrpcResponse"
  "Internal_writeErrorResponse = writeErrorResponse"
proof -
  show w: "Internal_writeGrpcResponse = writeGrpcResponse"
    by (intro ext) (simp add: Internal_writeGrpcResponse_def writeGrpcResponse_def)
  show "Internal_parseHttpRequest = parseHttpRequest"
    by (intro ext) (simp add: Internal_parseHttpRequest_def parseHttpRequest_def)
  show "Internal_writeErrorResponse = writeErrorResponse"
    by (intro ext) (simp add: Internal_writeErrorResponse_def writeErrorResponse_def w)
qed

lemma internal_validate: "Internal_ValidateGrpcAddr p = ValidateGrpcAddr (as_gateway p)"
  by (intro ext) (simp add: Internal_ValidateGrpcAddr_def ValidateGrpcAddr_def)

lemma internal_connection:
  "map_prod as_gateway id (Internal_getConnection env addr p) = getConnection env addr (as_gateway p)"
  by (simp add: Internal_getConnection_def getConnection_def as_gateway_def split: option.split sum.split)

lemma internal_call:
  "map_prod as_gateway id (Internal_executeGrpcCall env addr req p) = executeGrpcCall env addr req (as_gateway p)"
  by (cases "Internal_getConnection env addr p")
    (auto simp: Internal_executeGrpcCall_def executeGrpcCall_def Let_def internal_connection [symmetric] split: sum.split)

text \<open>
  The proxy that start-up creates and the gateway's own proxy answer every request alike and with the same connections,
  and both are there under the same condition.
\<close>

theorem internal_refines:
  "map_prod as_gateway id (Internal_HandleGrpcRequest env r (p, w)) = HandleGrpcRequest env r (as_gateway p, w)
   \<and> Internal_IsGrpcRequest p r = IsGrpcRequest (as_gateway p) r
   \<and> as_gateway (Internal_Close p) = Grpc_Close (as_gateway p)
   \<and> map_option as_gateway (Internal_GetGrpcProxy (Internal_InitGrpcProxy (ft_grpcProxy (cfg_features cfg))
         \<lparr>ig_globalProxy = None, ig_once = False\<rparr>)) = GetGrpcProxy cfg"
proof -
  have "map_prod as_gateway id (Internal_HandleGrpcRequest env r (p, w)) = HandleGrpcRequest env r (as_gateway p, w)"
  proof (cases "parseHttpRequest env r")
    case (Inr q)
    then show ?thesis
      by (cases "Internal_executeGrpcCall env (req_get r (grc_grpcAddr (igp_config p))) q p")
        (auto simp: Internal_HandleGrpcRequest_def HandleGrpcRequest_def Let_def internal_texts internal_validate
          internal_call [symmetric] split: sum.split)
  qed (simp add: Internal_HandleGrpcRequest_def HandleGrpcRequest_def Let_def internal_texts internal_validate)
  then show ?thesis
    by (simp add: Internal_IsGrpcRequest_def IsGrpcRequest_def Internal_Close_def Grpc_Close_def Internal_InitGrpcProxy_def
        Internal_GetGrpcProxy_def GetGrpcProxy_def Internal_NewGrpcProxy_def NewGrpcProxy_def as_gateway_def)
qed

end
