(* ===== verification/Logger.thy ===== *)
theory Logger
  imports Config
begin

text \<open>
  The gateway's logger (\<open>internal/logger\<close>): the global logger, its one reload from the configuration, and which messages it
  writes. Levels are ordered as zerolog orders them; writing is a parameter of the model.
\<close>

datatype Level = DebugLevel | InfoLevel | WarnLevel | ErrorLevel | NoLevel

fun level_rank :: "Level \<Rightarrow> nat" where
  "level_rank DebugLevel = 0"
| "level_rank InfoLevel = 1"
| "level_rank WarnLevel = 2"
| "level_rank ErrorLevel = 3"
| "level_rank NoLevel = 6"

lemma level_rank_inj: "level_rank a = level_rank b \<Longrightarrow> a = b"
  by (cases a; cases b) simp_all

instantiation Level :: linorder
begin

definition less_eq_Level :: "Level \<Rightarrow> Level \<Rightarrow> bool" where
  "a \<le> b \<longleftrightarrow> level_rank a \<le> level_rank b"

definition less_Level :: "Level \<Rightarrow> Level \<Rightarrow> bool" where
  "a < b \<longleftrightarrow> level_rank a < level_rank b"

instance
  by standard (auto simp: less_eq_Level_def less_Level_def intro: level_rank_inj)

end

record ZeroLogger =
  zl_level :: Level
  zl_noColor :: bool
  zl_caller :: bool

text \<open>The package's variables: the logger and whether it was reloaded.\<close>

record logger_state =
  lg_globalLogger :: ZeroLogger
  lg_once :: bool

definition InitLogger :: "logger_state \<Rightarrow> logger_state" where
  "InitLogger l = l\<lparr>lg_globalLogger := \<lparr>zl_level = NoLevel, zl_noColor = False, zl_caller = False\<rparr>\<rparr>"

definition getLevel :: "string \<Rightarrow> Level" where
  "getLevel level =
     (if level = ''debug'' then DebugLevel else if level = ''info'' then InfoLevel
      else if level = ''warn'' then WarnLevel else if level = ''error'' then ErrorLevel else InfoLevel)"

definition ReloadLogger :: "LogConfig \<Rightarrow> logger_state \<Rightarrow> logger_state" where
  "ReloadLogger conf l =
     (if lg_once l then l
      else \<lparr>lg_globalLogger = \<lparr>zl_level = getLevel (lg_logLevel conf), zl_noColor = (\<not> lg_color conf), zl_caller = True\<rparr>,
             lg_once = True\<rparr>)"

text \<open>Whether a message of a level is written.\<close>

definition writes :: "logger_state \<Rightarrow> Level \<Rightarrow> bool" where
  "writes l lvl \<longleftrightarrow> zl_level (lg_globalLogger l) \<le> lvl"

lemmas logger_defs = InitLogger_def ReloadLogger_def writes_def getLevel_def less_eq_Level_def

text \<open>
  Before the configuration is applied no message of the four levels is written, errors included; afterwards errors always are, whatever the
  configured level is, and a second configuration changes nothing.
\<close>

theorem logger_levels:
  "(lvl \<noteq> NoLevel \<longrightarrow> \<not> writes (InitLogger l) lvl)
   \<and> (\<not> lg_once l \<longrightarrow> writes (ReloadLogger conf l) ErrorLevel)
   \<and> ReloadLogger conf' (ReloadLogger conf l) = ReloadLogger conf l"
  by (cases lvl) (simp_all add: logger_defs)

end
