(* ===== verification/Startup.thy ===== *)
theory Startup
  imports CoreProxy FrontendServer ServerManager StatEndpoint InternalGrpc BackendProxy Logger
begin

text \<open>
  Initialisation (\<open>initialize\<close>): the runners that create the parts of the gateway, in the order of their priorities. \<open>slices.SortFunc\<close> sorts them
  but does not promise to keep the order of equal priorities, so the order is an argument: any list of the runners with
  ascending priorities. The state holds the initializer's fields and the variables of the packages.
\<close>

section \<open>State\<close>

text \<open>The core proxy, whose handler is created once.\<close>

record Proxy =
  py_handler :: "ReverseProxyConf option"

record ('l, 'r, 'c) Initializer =
  it_logger :: logger_state
  it_mongo :: bool
  it_runtime :: runtime
  it_jobs :: "JobSyncer list"
  it_FrontServer :: "HeliosServer option"
  it_BackendServer :: "BackendProxy option"
  it_Gateway :: "Proxy option"
  it_breaker :: "Breaker option"
  it_Manager :: "'l manager option"
  it_internalGrpc :: "'c internal_grpc"
  it_GrpcProxy :: "'c InternalGrpcProxy option"
  it_modifiers :: "Modifier list"
  it_handlers :: "'r PreHandler list"
  it_geo :: bool
  it_statDB :: "stat_db option"
  it_stats :: stat_state
  it_StatServer :: "StatServer option"
  it_pprof :: "string option"

text \<open>
  The surroundings: the two configurations; reading and decoding the domain file, and the orders of its map; connecting to MongoDB and
  querying it, which depends on whether it was set up before; listening and the other parameters of the manager; what a reverse
  proxy does with a request; opening the statistics and country databases.
\<close>

record ('l, 'r, 'c) init_env =
  ie_appConf :: AppConfig
  ie_cfg :: Config
  ie_read :: "string \<Rightarrow> string option"
  ie_decode :: "string \<Rightarrow> (string, serviceMap) gomap option"
  ie_orders :: "(string \<times> serviceMap) list \<times> (string \<times> serviceMap) list \<times> (string \<times> serviceMap) list \<times> (string \<times> serviceMap) list"
  ie_apps :: "bool \<Rightarrow> DaoAPP list outcome"
  ie_manager :: "'l manager_env"
  ie_mod :: mod_env
  ie_serve :: "ReverseProxyConf \<Rightarrow> handler"
  ie_opened :: "string \<Rightarrow> string + stat_db"
  ie_unmarshal :: "string \<Rightarrow> (string, int) gomap option"
  ie_order :: "(string, int) gomap \<Rightarrow> (string \<times> int) list"
  ie_files :: files
  ie_geo :: bool

section \<open>Runners\<close>

datatype Runner =
  RLogger | RMongo | RRuntime | RFrontServer | RGateway | RGatewayManager | RBackendServer | RGrpcProxy
| RModifierManager | RPreHandlerManager | RStatManager | RStatServer | RPProf

fun Priority :: "Runner \<Rightarrow> nat" where
  "Priority RLogger = 0" | "Priority RMongo = 0" | "Priority RRuntime = 0"
| "Priority RFrontServer = 1" | "Priority RGateway = 1"
| "Priority RGatewayManager = 2" | "Priority RBackendServer = 2" | "Priority RGrpcProxy = 2"
| "Priority RModifierManager = 2" | "Priority RPreHandlerManager = 2" | "Priority RStatManager = 2"
| "Priority RStatServer = 2" | "Priority RPProf = 2"

definition registered :: "Runner list" where
  "registered =
     [RLogger, RMongo, RRuntime, RFrontServer, RGateway, RGatewayManager, RBackendServer, RGrpcProxy,
      RModifierManager, RPreHandlerManager, RStatManager, RStatServer, RPProf]"

definition load_domains :: "('l, 'r, 'c) init_env \<Rightarrow> runtime \<Rightarrow> runtime" where
  "load_domains env rt =
     (let (ord1, ord2, ord3, ord4) = ie_orders env
      in loadRuntimeDomains (ie_read env) (ie_decode env) ord1 ord2 ord3 ord4 (ie_appConf env) rt)"

text \<open>What a runner does with the state, or the panic of its goroutine.\<close>

type_synonym ('l, 'r, 'c) runner_fn = "('l, 'r, 'c) init_env \<Rightarrow> ('l, 'r, 'c) Initializer \<Rightarrow> (('l, 'r, 'c) Initializer \<times> string option) outcome"

text \<open>The gateway's manager needs the core proxy: without it, creating its handler panics.\<close>

definition InitGatewayManager :: "('l, 'r, 'c) runner_fn" where
  "InitGatewayManager env i =
     (case it_Gateway i of
        None \<Rightarrow> Panic
      | Some gw \<Rightarrow>
          (let h = Proxy_Create (ie_cfg env) None (py_handler gw)
           in Return (i\<lparr>it_Gateway := Some (gw\<lparr>py_handler := Some h\<rparr>),
                        it_Manager := Some (NewManager (ie_manager env) (ie_cfg env) (ie_serve env h))\<rparr>, None)))"

definition InitStat :: "('l, 'r, 'c) runner_fn" where
  "InitStat env i =
     bind_outcome (InitStatManager (ie_opened env) (ie_unmarshal env) (ie_order env) (cfg_stat (ie_cfg env)) (ie_files env) (it_stats i))
       (\<lambda>res. case res of
          Inl err \<Rightarrow> Return (i, Some err)
        | Inr (db, stats) \<Rightarrow> Return (i\<lparr>it_geo := ie_geo env, it_statDB := db, it_stats := stats\<rparr>, None))"

definition run_InitLogger :: "('l, 'r, 'c) runner_fn" where
  "run_InitLogger env i =
     Return (i\<lparr>it_logger := ReloadLogger (cfg_log (ie_cfg env)) (it_logger i)\<rparr>, None)"

definition run_InitMongo :: "('l, 'r, 'c) runner_fn" where
  "run_InitMongo env i =
     Return (i\<lparr>it_mongo := True\<rparr>, None)"

text \<open>The jobs that refresh the runtime data start a few seconds later.\<close>

definition run_InitRuntime :: "('l, 'r, 'c) runner_fn" where
  "run_InitRuntime env i =
     (let rt = load_domains env (it_runtime i)
      in bind_outcome (ie_apps env (it_mongo i)) (\<lambda>apps.
           Return (i\<lparr>it_runtime := InitDomainPortsMap apps rt, it_jobs := InitRuntimeSyncer (ie_appConf env)\<rparr>, None)))"

definition run_InitFrontServer :: "('l, 'r, 'c) runner_fn" where
  "run_InitFrontServer env i =
     (case NewFrontServer (ie_cfg env) of Inl err \<Rightarrow> Return (i, Some err) | Inr fs \<Rightarrow> Return (i\<lparr>it_FrontServer := Some fs\<rparr>, None))"

definition run_InitGateway :: "('l, 'r, 'c) runner_fn" where
  "run_InitGateway env i =
     Return (i\<lparr>it_Gateway := Some \<lparr>py_handler = None\<rparr>, it_breaker := Some (NewBreaker (ft_break (cfg_features (ie_cfg env))))\<rparr>, None)"

definition run_InitBackendServer :: "('l, 'r, 'c) runner_fn" where
  "run_InitBackendServer env i =
     Return (i\<lparr>it_BackendServer := Some (NewBackendProxy (ie_cfg env))\<rparr>, None)"

definition run_InitGrpcProxy :: "('l, 'r, 'c) runner_fn" where
  "run_InitGrpcProxy env i =
     (let g = Internal_InitGrpcProxy (ft_grpcProxy (cfg_features (ie_cfg env))) (it_internalGrpc i)
      in Return (i\<lparr>it_internalGrpc := g, it_GrpcProxy := Internal_GetGrpcProxy g\<rparr>, None))"

definition run_InitModifierManager :: "('l, 'r, 'c) runner_fn" where
  "run_InitModifierManager env i =
     Return (i\<lparr>it_modifiers := it_modifiers i @ InitModifiers (ie_mod env) (ie_cfg env)\<rparr>, None)"

definition run_InitPreHandlerManager :: "('l, 'r, 'c) runner_fn" where
  "run_InitPreHandlerManager env i =
     Return (i\<lparr>it_handlers := it_handlers i @ InitPreHandlerManager (ie_cfg env) (it_runtime i)\<rparr>, None)"

definition run_InitStatServer :: "('l, 'r, 'c) runner_fn" where
  "run_InitStatServer env i =
     Return (i\<lparr>it_StatServer := Some (NewStatServer (cfg_stat (ie_cfg env)))\<rparr>, None)"

text \<open>Profiling listens on an address of its own, in the background.\<close>

definition run_InitPProf :: "('l, 'r, 'c) runner_fn" where
  "run_InitPProf env i =
     Return (i\<lparr>it_pprof := (if pp_enable (cfg_pProf (ie_cfg env)) \<and> 0 < pp_port (cfg_pProf (ie_cfg env))
        then Some ('':'' @ itoa (pp_port (cfg_pProf (ie_cfg env)))) else it_pprof i)\<rparr>, None)"

lemmas run_defs [simp] =
  run_InitLogger_def run_InitMongo_def run_InitRuntime_def run_InitFrontServer_def run_InitGateway_def run_InitBackendServer_def
  run_InitGrpcProxy_def run_InitModifierManager_def run_InitPreHandlerManager_def run_InitStatServer_def run_InitPProf_def

fun run_fn ::
    "('l, 'r, 'c) init_env \<Rightarrow> Runner \<Rightarrow> ('l, 'r, 'c) Initializer \<Rightarrow> (('l, 'r, 'c) Initializer \<times> string option) outcome" where
  "run_fn env RLogger i = run_InitLogger env i"
| "run_fn env RMongo i = run_InitMongo env i"
| "run_fn env RRuntime i = run_InitRuntime env i"
| "run_fn env RFrontServer i = run_InitFrontServer env i"
| "run_fn env RGateway i = run_InitGateway env i"
| "run_fn env RGatewayManager i = InitGatewayManager env i"
| "run_fn env RBackendServer i = run_InitBackendServer env i"
| "run_fn env RGrpcProxy i = run_InitGrpcProxy env i"
| "run_fn env RModifierManager i = run_InitModifierManager env i"
| "run_fn env RPreHandlerManager i = run_InitPreHandlerManager env i"
| "run_fn env RStatManager i = InitStat env i"
| "run_fn env RStatServer i = run_InitStatServer env i"
| "run_fn env RPProf i = run_InitPProf env i"

text \<open>Every runner is run, also after an error; the last error is returned.\<close>

definition run_one ::
    "('l, 'r, 'c) init_env \<Rightarrow> Runner \<Rightarrow> (('l, 'r, 'c) Initializer \<times> string option) outcome
       \<Rightarrow> (('l, 'r, 'c) Initializer \<times> string option) outcome" where
  "run_one env runner res =
     bind_outcome res (\<lambda>(i, err). bind_outcome (run_fn env runner i) (\<lambda>(i, e). Return (i, if e = None then err else e)))"

definition Initialize ::
    "('l, 'r, 'c) init_env \<Rightarrow> (Runner list \<Rightarrow> Runner list) \<Rightarrow> ('l, 'r, 'c) Initializer
       \<Rightarrow> (('l, 'r, 'c) Initializer \<times> string option) outcome" where
  "Initialize env sortFunc i = fold (run_one env) (sortFunc registered) (Return (i, None))"

section \<open>The order of runners\<close>

text \<open>What is known of the sorted list: the registered runners with ascending priorities.\<close>

definition sorted_runners :: "Runner list \<Rightarrow> bool" where
  "sorted_runners rs \<longleftrightarrow> mset rs = mset registered \<and> sorted (map Priority rs)"

lemma sorted_split:
  "sorted (map f xs) \<Longrightarrow> \<forall>x \<in> set xs. f x \<le> (2 :: nat) \<Longrightarrow>
     xs = filter (\<lambda>x. f x = 0) xs @ filter (\<lambda>x. f x = 1) xs @ filter (\<lambda>x. f x = 2) xs"
proof (induction xs)
  case (Cons x xs)
  then have ge: "\<forall>y \<in> set xs. f x \<le> f y" by simp
  consider "f x = 0" | "f x = 1" | "f x = 2" using Cons.prems(2) by force
  then show ?case
  proof cases
    case 2
    then have "filter (\<lambda>x. f x = 0) xs = []" using ge by (auto simp: filter_empty_conv)
    with 2 Cons show ?thesis by auto
  next
    case 3
    then have "filter (\<lambda>x. f x = 0) xs = []" "filter (\<lambda>x. f x = 1) xs = []" using ge by (force simp: filter_empty_conv)+
    with 3 Cons show ?thesis by auto
  qed (use Cons in auto)
qed simp

lemma Priority_le: "Priority r \<le> 2" by (cases r) simp_all

lemma runners_split:
  assumes "sorted_runners rs"
  obtains hs ns ls where "rs = hs @ ns @ ls"
    "mset hs = mset [RLogger, RMongo, RRuntime]" "mset ns = mset [RFrontServer, RGateway]"
    "mset ls = mset [RGatewayManager, RBackendServer, RGrpcProxy, RModifierManager, RPreHandlerManager, RStatServer, RPProf, RStatManager]"
proof -
  have level: "mset (filter (\<lambda>r. Priority r = k) rs) = mset (filter (\<lambda>r. Priority r = k) registered)" for k
    using assms unfolding sorted_runners_def by (metis mset_filter)
  have "rs = filter (\<lambda>x. Priority x = 0) rs @ filter (\<lambda>x. Priority x = 1) rs @ filter (\<lambda>x. Priority x = 2) rs"
    using assms Priority_le by (intro sorted_split) (simp_all add: sorted_runners_def)
  then show thesis
  proof (rule that)
    show "mset (filter (\<lambda>x. Priority x = 0) rs) = mset [RLogger, RMongo, RRuntime]"
      using level [of 0] by (simp add: registered_def)
    show "mset (filter (\<lambda>x. Priority x = 1) rs) = mset [RFrontServer, RGateway]"
      using level [of 1] by (simp add: registered_def)
    show "mset (filter (\<lambda>x. Priority x = 2) rs) = mset [RGatewayManager, RBackendServer, RGrpcProxy, RModifierManager,
        RPreHandlerManager, RStatServer, RPProf, RStatManager]"
      using level [of 2] by (simp add: registered_def)
  qed
qed

text \<open>Runners of one priority can be exchanged, but for those that connect to MongoDB and read it.\<close>

lemma bind_outcome_cong: "(\<And>a. x = Return a \<Longrightarrow> f a = g a) \<Longrightarrow> bind_outcome x f = bind_outcome x g"
  by (cases x) simp_all

definition plain_low :: "Runner \<Rightarrow> bool" where
  "plain_low r \<longleftrightarrow> r \<in> {RBackendServer, RGrpcProxy, RModifierManager, RPreHandlerManager, RStatServer, RPProf}"

text \<open>The effect of a runner that neither fails nor panics.\<close>

definition effect :: "('l, 'r, 'c) init_env \<Rightarrow> Runner \<Rightarrow> ('l, 'r, 'c) Initializer \<Rightarrow> ('l, 'r, 'c) Initializer" where
  "effect env r i = (case run_fn env r i of Return (i, e) \<Rightarrow> i | _ \<Rightarrow> i)"

lemma plain_effect: "plain_low r \<or> Priority r = 1 \<Longrightarrow> run_fn env r i = Return (effect env r i, None)"
  by (cases r) (simp_all add: plain_low_def effect_def Let_def NewFrontServer_def)

lemma plain_frame:
  "plain_low r \<Longrightarrow> it_Gateway (effect env r i) = it_Gateway i \<and> it_stats (effect env r i) = it_stats i
     \<and> effect env r (i\<lparr>it_Gateway := gw, it_Manager := mg\<rparr>) = (effect env r i)\<lparr>it_Gateway := gw, it_Manager := mg\<rparr>
     \<and> effect env r (i\<lparr>it_geo := geo, it_statDB := db, it_stats := st\<rparr>) = (effect env r i)\<lparr>it_geo := geo, it_statDB := db, it_stats := st\<rparr>"
  by (cases r) (simp_all add: plain_low_def effect_def Let_def)

lemma effect_commutes: "plain_low a \<Longrightarrow> plain_low b \<Longrightarrow> effect env a (effect env b i) = effect env b (effect env a i)"
  unfolding plain_low_def by (elim insertE emptyE; hypsubst; simp add: effect_def Let_def)

lemma Stat_frame:
  "plain_low r \<Longrightarrow> InitStat env (effect env r i) = bind_outcome (InitStat env i) (\<lambda>(i, e). Return (effect env r i, e))"
  unfolding InitStat_def
  by (simp add: bind_outcome_assoc plain_frame) (rule bind_outcome_cong, auto simp: plain_frame split: sum.split)

lemma GatewayManager_frame:
  "plain_low r \<Longrightarrow> InitGatewayManager env (effect env r i) = bind_outcome (InitGatewayManager env i) (\<lambda>(i, e). Return (effect env r i, e))"
  unfolding InitGatewayManager_def by (auto simp: plain_frame Let_def split: option.split)

lemma bind_outcome_id: "bind_outcome x Return = x"
  by (cases x) simp_all

lemma bind_Blocked: "bind_outcome x f = Blocked \<longleftrightarrow> x = Blocked \<or> (\<exists>a. x = Return a \<and> f a = Blocked)"
  by (cases x) simp_all

lemma InitStat_not_Blocked: "InitStat env i \<noteq> Blocked"
proof -
  have "compatibleStat u cfg fs db \<noteq> Blocked" for u cfg fs db
    by (auto simp: compatibleStat_def Let_def split: option.split)
  then have "LoadStat u cfg fs db \<noteq> Blocked" for u cfg fs db
    by (auto simp: LoadStat_def bind_Blocked split: option.splits if_splits)
  then have "initCacheFromFile u ord cfg fs db st \<noteq> Blocked" for u ord cfg fs db st
    by (auto simp: initCacheFromFile_def bind_Blocked Let_def split: option.splits prod.splits)
  then have "InitStatSyncer u ord cfg fs db st \<noteq> Blocked" for u ord cfg fs db st
    by (auto simp: InitStatSyncer_def bind_Blocked split: if_splits)
  then have "InitStatManager opn u ord cfg fs st \<noteq> Blocked" for opn u ord cfg fs st
    by (auto simp: InitStatManager_def bind_Blocked split: sum.splits)
  then show ?thesis by (auto simp: InitStat_def bind_Blocked split: sum.splits)
qed

lemma InitStat_Gateway: "InitStat env i = Return (j, e) \<Longrightarrow> it_Gateway j = it_Gateway i"
proof -
  assume "InitStat env i = Return (j, e)"
  then obtain a where "(case a of Inl err \<Rightarrow> Return (i, Some err)
      | Inr (db, stats) \<Rightarrow> Return (i\<lparr>it_geo := ie_geo env, it_statDB := db, it_stats := stats\<rparr>, None)) = Return (j, e)"
    by (auto simp: InitStat_def bind_outcome_Return)
  then show "it_Gateway j = it_Gateway i" by (cases a) auto
qed

lemma Stat_GatewayManager:
  "run_one env RStatManager (run_one env RGatewayManager res) = run_one env RGatewayManager (run_one env RStatManager res)"
proof (cases res)
  case (Return x)
  obtain i err where x: "x = (i, err)" by (cases x)
  show ?thesis
  proof (cases "it_Gateway i")
    case None
    consider "InitStat env i = Panic" | j e where "InitStat env i = Return (j, e)" "it_Gateway j = None"
    proof (cases "InitStat env i")
      case (Return y)
      then show thesis using InitStat_Gateway [of env i "fst y" "snd y"] None that(2) [of "fst y" "snd y"] by simp
    qed (use that InitStat_not_Blocked in auto)
    then show ?thesis
      by cases (simp_all add: Return x run_one_def InitGatewayManager_def None)
  next
    case (Some gw)
    let ?st = "InitStatManager (ie_opened env) (ie_unmarshal env) (ie_order env) (cfg_stat (ie_cfg env)) (ie_files env) (it_stats i)"
    show ?thesis
      by (cases ?st) (auto simp: Return x run_one_def InitGatewayManager_def InitStat_def Some Let_def split: sum.split)
  qed
qed (simp_all add: run_one_def)

lemma run_one_Return:
  "plain_low r \<or> Priority r = 1 \<Longrightarrow> run_one env r (Return (i, err)) = Return (effect env r i, err)"
  by (simp add: run_one_def plain_effect)

lemma low_cases: "Priority r = 2 \<longleftrightarrow> plain_low r \<or> r = RGatewayManager \<or> r = RStatManager"
  by (cases r) (simp_all add: plain_low_def)

lemma plain_commutes:
  assumes "plain_low a" and "Priority b = 2"
  shows "run_one env a (run_one env b res) = run_one env b (run_one env a res)"
proof (cases res)
  case (Return x)
  obtain i err where x: "x = (i, err)" by (cases x)
  from assms(2) consider "plain_low b" | "b = RGatewayManager" | "b = RStatManager" using low_cases by blast
  then show ?thesis
  proof cases
    case 1
    with assms show ?thesis by (simp add: Return x run_one_Return effect_commutes [of a b])
  next
    case 2
    with assms show ?thesis
      by (cases "InitGatewayManager env i") (auto simp: Return x run_one_def plain_effect GatewayManager_frame)
  next
    case 3
    with assms show ?thesis
      by (cases "InitStat env i") (auto simp: Return x run_one_def plain_effect Stat_frame)
  qed
qed (simp_all add: run_one_def)

lemma normal_commutes: "run_one env RFrontServer (run_one env RGateway res) = run_one env RGateway (run_one env RFrontServer res)"
  by (cases res) (auto simp: run_one_Return effect_def NewFrontServer_def run_one_def)

lemma run_one_commutes:
  assumes "Priority a = Priority b" and "Priority a \<noteq> 0"
  shows "run_one env a \<circ> run_one env b = run_one env b \<circ> run_one env a"
proof
  fix res
  from assms consider "Priority a = 2" "Priority b = 2" | "a \<in> {RFrontServer, RGateway}" "b \<in> {RFrontServer, RGateway}"
    by (cases a; cases b) simp_all
  then have "run_one env a (run_one env b res) = run_one env b (run_one env a res)"
  proof cases
    case 1
    then have "plain_low a \<or> plain_low b \<or> a = b \<or> a = RStatManager \<and> b = RGatewayManager \<or> a = RGatewayManager \<and> b = RStatManager"
      using low_cases by blast
    then show ?thesis using 1 plain_commutes [of a b] plain_commutes [of b a] Stat_GatewayManager by metis
  qed (auto simp: normal_commutes)
  then show "(run_one env a \<circ> run_one env b) res = (run_one env b \<circ> run_one env a) res" by simp
qed

lemma fold_runs:
  assumes "mset rs = mset rs'" and "\<forall>r \<in> set rs. Priority r = k" and "k \<noteq> 0"
  shows "fold (run_one env) rs = fold (run_one env) rs'"
  using assms by (intro fold_multiset_equiv) (auto intro!: run_one_commutes)

text \<open>Whether the sorted list connects to MongoDB before the runtime data is loaded from it.\<close>

definition mongo_first :: "Runner list \<Rightarrow> bool" where
  "mongo_first rs \<longleftrightarrow> RMongo \<in> set (takeWhile (\<lambda>r. r \<noteq> RRuntime) rs)"

text \<open>The state after a successful initialisation, with the applications that MongoDB answered.\<close>

definition initialized :: "('l, 'r, 'c) init_env \<Rightarrow> DaoAPP list \<Rightarrow> ('l, 'r, 'c) Initializer \<Rightarrow> ('l, 'r, 'c) Initializer" where
  "initialized env apps i =
     (let cfg = ie_cfg env;
          rt = InitDomainPortsMap apps (load_domains env (it_runtime i));
          h = Proxy_Create cfg None None;
          g = Internal_InitGrpcProxy (ft_grpcProxy (cfg_features cfg)) (it_internalGrpc i)
      in i\<lparr>it_logger := ReloadLogger (cfg_log cfg) (it_logger i), it_mongo := True, it_runtime := rt,
           it_jobs := InitRuntimeSyncer (ie_appConf env),
           it_FrontServer := Some (setupGin \<lparr>hl_config = cfg_pxyFrontend cfg, hl_gin = [], hl_clientPool = []\<rparr>),
           it_BackendServer := Some (NewBackendProxy cfg), it_Gateway := Some \<lparr>py_handler = Some h\<rparr>,
           it_breaker := Some (NewBreaker (ft_break (cfg_features cfg))),
           it_Manager := Some (NewManager (ie_manager env) cfg (ie_serve env h)),
           it_internalGrpc := g, it_GrpcProxy := Internal_GetGrpcProxy g,
           it_modifiers := it_modifiers i @ InitModifiers (ie_mod env) cfg,
           it_handlers := it_handlers i @ InitPreHandlerManager cfg rt,
           it_StatServer := Some (NewStatServer (cfg_stat cfg)),
           it_pprof := (if pp_enable (cfg_pProf cfg) \<and> 0 < pp_port (cfg_pProf cfg)
             then Some ('':'' @ itoa (pp_port (cfg_pProf cfg))) else it_pprof i)\<rparr>)"

definition startup_result ::
    "('l, 'r, 'c) init_env \<Rightarrow> bool \<Rightarrow> ('l, 'r, 'c) Initializer \<Rightarrow> (('l, 'r, 'c) Initializer \<times> string option) outcome" where
  "startup_result env mongo i = bind_outcome (ie_apps env mongo) (\<lambda>apps. InitStat env (initialized env apps i))"

lemma run_high:
  "run_one env RLogger (Return (i, err)) = Return (i\<lparr>it_logger := ReloadLogger (cfg_log (ie_cfg env)) (it_logger i)\<rparr>, err)"
  "run_one env RMongo (Return (i, err)) = Return (i\<lparr>it_mongo := True\<rparr>, err)"
  "run_one env RRuntime (Return (i, err)) = bind_outcome (ie_apps env (it_mongo i)) (\<lambda>apps.
     Return (i\<lparr>it_runtime := InitDomainPortsMap apps (load_domains env (it_runtime i)), it_jobs := InitRuntimeSyncer (ie_appConf env)\<rparr>, err))"
  by (simp_all add: run_one_def Let_def bind_outcome_assoc)

lemma run_bind: "run_one env r (bind_outcome x f) = bind_outcome x (\<lambda>a. run_one env r (f a))"
  by (cases x) (simp_all add: run_one_def)

lemma high_runs:
  assumes "mset hs = mset [RLogger, RMongo, RRuntime]"
  shows "fold (run_one env) hs (Return (i, None)) =
    bind_outcome (ie_apps env (mongo_first (hs @ rest) \<or> it_mongo i)) (\<lambda>apps.
      Return (i\<lparr>it_logger := ReloadLogger (cfg_log (ie_cfg env)) (it_logger i), it_mongo := True,
        it_runtime := InitDomainPortsMap apps (load_domains env (it_runtime i)), it_jobs := InitRuntimeSyncer (ie_appConf env)\<rparr>, None))"
proof -
  have "length hs = 3" using assms by (metis size_mset length_Cons list.size(3) numeral_3_eq_3)
  then obtain x y z where hs: "hs = [x, y, z]" by (auto simp: numeral_3_eq_3 length_Suc_conv)
  have "set hs = {RLogger, RMongo, RRuntime}" using mset_eq_setD [OF assms] by simp
  then have elems: "x \<in> {RLogger, RMongo, RRuntime}" "y \<in> {RLogger, RMongo, RRuntime}" "z \<in> {RLogger, RMongo, RRuntime}"
    by (auto simp: hs)
  have "distinct [x, y, z]" using mset_eq_imp_distinct_iff [OF assms] by (simp add: hs)
  with elems consider "hs = [RLogger, RMongo, RRuntime]" | "hs = [RLogger, RRuntime, RMongo]" | "hs = [RMongo, RLogger, RRuntime]"
    | "hs = [RMongo, RRuntime, RLogger]" | "hs = [RRuntime, RLogger, RMongo]" | "hs = [RRuntime, RMongo, RLogger]"
    unfolding hs by (elim insertE emptyE) simp_all
  then show ?thesis
    by cases (auto simp: run_high run_bind mongo_first_def intro!: bind_outcome_cong)
qed

lemma low_runs:
  assumes "it_Gateway i = Some gw"
  shows "fold (run_one env)
      [RGatewayManager, RBackendServer, RGrpcProxy, RModifierManager, RPreHandlerManager, RStatServer, RPProf, RStatManager]
      (Return (i, None)) =
    (let cfg = ie_cfg env; h = Proxy_Create cfg None (py_handler gw);
         g = Internal_InitGrpcProxy (ft_grpcProxy (cfg_features cfg)) (it_internalGrpc i)
     in InitStat env (i\<lparr>it_Gateway := Some (gw\<lparr>py_handler := Some h\<rparr>),
          it_Manager := Some (NewManager (ie_manager env) cfg (ie_serve env h)), it_BackendServer := Some (NewBackendProxy cfg),
          it_internalGrpc := g, it_GrpcProxy := Internal_GetGrpcProxy g,
          it_modifiers := it_modifiers i @ InitModifiers (ie_mod env) cfg,
          it_handlers := it_handlers i @ InitPreHandlerManager cfg (it_runtime i),
          it_StatServer := Some (NewStatServer (cfg_stat cfg)),
          it_pprof := (if pp_enable (cfg_pProf cfg) \<and> 0 < pp_port (cfg_pProf cfg)
             then Some ('':'' @ itoa (pp_port (cfg_pProf cfg))) else it_pprof i)\<rparr>))"
  using assms by (simp add: run_one_def InitGatewayManager_def Let_def bind_outcome_id)

lemma order_result:
  assumes "sorted_runners (sortFunc registered)"
  shows "Initialize env sortFunc i = startup_result env (mongo_first (sortFunc registered) \<or> it_mongo i) i"
proof -
  obtain hs ns ls where rs: "sortFunc registered = hs @ ns @ ls"
    and hs: "mset hs = mset [RLogger, RMongo, RRuntime]" and ns: "mset ns = mset [RFrontServer, RGateway]"
    and ls: "mset ls = mset [RGatewayManager, RBackendServer, RGrpcProxy, RModifierManager, RPreHandlerManager, RStatServer, RPProf, RStatManager]"
    using runners_split [OF assms] by blast
  have n: "fold (run_one env) ns = fold (run_one env) [RFrontServer, RGateway]"
    by (rule fold_runs [OF ns, of 1]) (use mset_eq_setD [OF ns] in auto)
  have l: "fold (run_one env) ls = fold (run_one env)
      [RGatewayManager, RBackendServer, RGrpcProxy, RModifierManager, RPreHandlerManager, RStatServer, RPProf, RStatManager]"
    by (rule fold_runs [OF ls, of 2]) (use mset_eq_setD [OF ls] in auto)
  have mid: "fold (run_one env) [RFrontServer, RGateway] (Return (j, None)) =
      Return (j\<lparr>it_FrontServer := Some (setupGin \<lparr>hl_config = cfg_pxyFrontend (ie_cfg env), hl_gin = [], hl_clientPool = []\<rparr>),
        it_Gateway := Some \<lparr>py_handler = None\<rparr>, it_breaker := Some (NewBreaker (ft_break (cfg_features (ie_cfg env))))\<rparr>, None)" for j
    by (simp add: run_one_def NewFrontServer_def)
  have high: "Initialize env sortFunc i = fold (run_one env) ls (fold (run_one env) ns (bind_outcome
      (ie_apps env (mongo_first (sortFunc registered) \<or> it_mongo i)) (\<lambda>apps.
        Return (i\<lparr>it_logger := ReloadLogger (cfg_log (ie_cfg env)) (it_logger i), it_mongo := True,
          it_runtime := InitDomainPortsMap apps (load_domains env (it_runtime i)), it_jobs := InitRuntimeSyncer (ie_appConf env)\<rparr>, None))))"
    unfolding Initialize_def rs fold_append comp_apply high_runs [OF hs, of env i "ns @ ls"] ..
  show ?thesis
  proof (cases "ie_apps env (mongo_first (sortFunc registered) \<or> it_mongo i)")
    case (Return apps)
    let ?j = "i\<lparr>it_logger := ReloadLogger (cfg_log (ie_cfg env)) (it_logger i), it_mongo := True,
        it_runtime := InitDomainPortsMap apps (load_domains env (it_runtime i)), it_jobs := InitRuntimeSyncer (ie_appConf env),
        it_FrontServer := Some (setupGin \<lparr>hl_config = cfg_pxyFrontend (ie_cfg env), hl_gin = [], hl_clientPool = []\<rparr>),
        it_Gateway := Some \<lparr>py_handler = None\<rparr>, it_breaker := Some (NewBreaker (ft_break (cfg_features (ie_cfg env))))\<rparr>"
    have "it_Gateway ?j = Some \<lparr>py_handler = None\<rparr>" by simp
    from low_runs [OF this, of env] show ?thesis
      unfolding high startup_result_def Return bind_outcome.simps n l mid
      by (auto simp: initialized_def Let_def intro!: arg_cong [where f = "InitStat env"] simp del: fold_simps)
  qed (simp_all add: high startup_result_def n l run_one_def)
qed

section \<open>The gateway after the start\<close>

text \<open>
  The state of the core proxy as the first request finds it: its ruler is created by that request; the flow recorder and the compressed error
  pages have initialisers that nothing calls.
\<close>

definition core_gateway :: "('l, 'r, 'c) init_env \<Rightarrow> Breaker \<Rightarrow> ('l, 'r, 'c) Initializer \<Rightarrow> ('r, 'c) gateway" where
  "core_gateway env b i =
     \<lparr>gw_cfg = ie_cfg env, gw_runtime = it_runtime i, gw_ruler = NewRuler (ie_cfg env) (it_runtime i), gw_cache = [],
      gw_handlers = it_handlers i, gw_recorder = None, gw_breaker = b, gw_modifiers = it_modifiers i,
      gw_grpc = GetGrpcProxy (ie_cfg env), gw_pages = \<lparr>pc_forbiddenGzip = None, pc_unavailableGzip = None\<rparr>\<rparr>"

lemma InitStat_fields:
  assumes "InitStat env i = Return (j, e)"
  shows "it_handlers j = it_handlers i \<and> it_runtime j = it_runtime i \<and> it_modifiers j = it_modifiers i \<and> it_breaker j = it_breaker i
    \<and> it_Manager j = it_Manager i"
proof -
  from assms obtain a where "(case a of Inl err \<Rightarrow> Return (i, Some err)
      | Inr (db, stats) \<Rightarrow> Return (i\<lparr>it_geo := ie_geo env, it_statDB := db, it_stats := stats\<rparr>, None)) = Return (j, e)"
    by (auto simp: InitStat_def bind_outcome_Return)
  then show ?thesis by (cases a) auto
qed

lemma initialized_fields:
  "it_handlers (initialized env apps i) = it_handlers i @ InitPreHandlerManager (ie_cfg env) (it_runtime (initialized env apps i))"
  "it_modifiers (initialized env apps i) = it_modifiers i @ InitModifiers (ie_mod env) (ie_cfg env)"
  "rt_Domains (it_runtime (initialized env apps i)) = rt_Domains (load_domains env (it_runtime i))"
  "it_breaker (initialized env apps i) = Some (NewBreaker (ft_break (cfg_features (ie_cfg env))))"
  "it_Manager (initialized env apps i) =
     Some (NewManager (ie_manager env) (ie_cfg env) (ie_serve env (Proxy_Create (ie_cfg env) None None)))"
  by (simp_all add: initialized_def Let_def InitDomainPortsMap_def loadDomainPortsMap_def)

lemma startup_fields:
  assumes "sorted_runners (sortFunc registered)" and "Initialize env sortFunc i = Return (i', err)"
  shows "it_handlers i' = it_handlers i @ InitPreHandlerManager (ie_cfg env) (it_runtime i')"
    and "it_modifiers i' = it_modifiers i @ InitModifiers (ie_mod env) (ie_cfg env)"
    and "rt_Domains (it_runtime i') = rt_Domains (load_domains env (it_runtime i))"
    and "it_breaker i' = Some (NewBreaker (ft_break (cfg_features (ie_cfg env))))"
    and "it_Manager i' = Some (NewManager (ie_manager env) (ie_cfg env) (ie_serve env (Proxy_Create (ie_cfg env) None None)))"
proof -
  obtain hs ns ls where rs: "sortFunc registered = hs @ ns @ ls" and hs: "mset hs = mset [RLogger, RMongo, RRuntime]"
    using runners_split [OF assms(1)] by blast
  obtain apps where "InitStat env (initialized env apps i) = Return (i', err)"
    using assms(2) unfolding order_result [of sortFunc, OF assms(1)] startup_result_def bind_outcome_Return by blast
  from InitStat_fields [OF this] initialized_fields [of env apps i]
  show "it_handlers i' = it_handlers i @ InitPreHandlerManager (ie_cfg env) (it_runtime i')"
    "it_modifiers i' = it_modifiers i @ InitModifiers (ie_mod env) (ie_cfg env)"
    "rt_Domains (it_runtime i') = rt_Domains (load_domains env (it_runtime i))"
    "it_breaker i' = Some (NewBreaker (ft_break (cfg_features (ie_cfg env))))"
    "it_Manager i' = Some (NewManager (ie_manager env) (ie_cfg env) (ie_serve env (Proxy_Create (ie_cfg env) None None)))"
    by simp_all
qed


definition demo_env :: "(string, unit, unit) init_env" where
  "demo_env = \<lparr>ie_appConf = GetDefaultConfig\<lparr>ac_domainMap := ''domains.json''\<rparr>, ie_cfg = page_config\<lparr>cfg_stat := zero_StatConfig\<rparr>,
     ie_read = (\<lambda>_. Some ''contents''), ie_decode = (\<lambda>_. Some [(''a.com'', \<lparr>sm_frontend = ''fa'', sm_backend = []\<rparr>)]),
     ie_orders = (let m = [(''a.com'', \<lparr>sm_frontend = ''fa'', sm_backend = []\<rparr>)] in (m, m, m, m)),
     ie_apps = (\<lambda>_. Return []), ie_manager = site_env, ie_mod = plain_mod_env, ie_serve = (\<lambda>_. echo),
     ie_opened = (\<lambda>_. Inl ''none''), ie_unmarshal = (\<lambda>_. None), ie_order = id, ie_files = (\<lambda>_. None), ie_geo = True\<rparr>"

definition new_initializer :: "(string, unit, unit) Initializer" where
  "new_initializer = \<lparr>it_logger = InitLogger \<lparr>lg_globalLogger = \<lparr>zl_level = NoLevel, zl_noColor = False, zl_caller = False\<rparr>, lg_once = False\<rparr>,
     it_mongo = False, it_runtime = \<lparr>rt_Domains = [], rt_map = \<lparr>dr_domains = [], dr_domainsMap = [], dr_domainFrontMap = []\<rparr>, rt_ports = []\<rparr>,
     it_jobs = [], it_FrontServer = None, it_BackendServer = None, it_Gateway = None, it_breaker = None, it_Manager = None,
     it_internalGrpc = \<lparr>ig_globalProxy = None, ig_once = False\<rparr>, it_GrpcProxy = None, it_modifiers = [], it_handlers = [],
     it_geo = False, it_statDB = None, it_stats = empty_stat, it_StatServer = None, it_pprof = None\<rparr>"

lemma registered_sorted: "sorted_runners registered"
  by (simp add: sorted_runners_def registered_def)

text \<open>Without statistics and with MongoDB answering, initialisation succeeds.\<close>

lemma quiet_started:
  assumes "sorted_runners (sortFunc registered)" and "\<And>b. ie_apps env b = Return apps"
    and "cfg_stat (ie_cfg env) = zero_StatConfig" and "ie_opened env = (\<lambda>_. Inl e)"
  shows "\<exists>i'. Initialize env sortFunc i = Return (i', None) \<and> it_FrontServer i' \<noteq> None \<and> it_BackendServer i' \<noteq> None \<and> it_StatServer i' \<noteq> None"
proof -
  have "InitStatManager (ie_opened env) (ie_unmarshal env) (ie_order env) (cfg_stat (ie_cfg env)) (ie_files env) s = Return (Inr (None, s))" for s
    by (simp add: assms(3,4) InitStatManager_def db_Init_def InitStatSyncer_def zero_StatConfig_def)
  then show ?thesis
    unfolding order_result [of sortFunc, OF assms(1)]
    by (simp add: startup_result_def InitStat_def assms(2) initialized_def Let_def)
qed

lemma demo_started: "\<exists>i'. Initialize demo_env (\<lambda>rs. rs) new_initializer = Return (i', None)"
  using quiet_started [of "\<lambda>rs. rs" demo_env "[]" "''none''" new_initializer] registered_sorted by (auto simp: demo_env_def)


end
