(* ===== verification/Serving.thy ===== *)
theory Serving
  imports Startup
begin

text \<open>
  The gateway from its start on: the steps of its life, each request it serves, each refresh of the runtime data and each tick of
  its background jobs, and what holds after any sequence of them.
\<close>

section \<open>Steps\<close>

fun cleanup_handler :: "time \<Rightarrow> (string \<Rightarrow> time) \<Rightarrow> 'r PreHandler \<Rightarrow> 'r PreHandler" where
  "cleanup_handler now_global now_rule (LimiterHandler l) =
     LimiterHandler (l\<lparr>prl_fc := map_option (CleanupExpiredRecords now_global now_rule) (prl_fc l)\<rparr>)"
| "cleanup_handler now_global now_rule h = h"

text \<open>
  The surroundings of a request are one of \<open>envs\<close>; what the domain file holds at a refresh and the applications the database
  names are arbitrary, but no slice is longer than the address space.
\<close>

inductive gateway_step :: "('r, 'j, 'c) core_env set \<Rightarrow> ('r, 'c) gateway \<Rightarrow> ('r, 'c) gateway \<Rightarrow> bool" for envs where
  serve: "env \<in> envs \<Longrightarrow> ServeHTTP env gw r = Return (gw', reply, events) \<Longrightarrow> gateway_step envs gw gw'"
| domains: "rt = loadRuntimeDomains read_file decode ord1 ord2 ord3 ord4 app (gw_runtime gw) \<Longrightarrow> gateway_step envs gw (gw\<lparr>gw_runtime := rt\<rparr>)"
| ports: "\<forall>d \<in> set apps. length (app_ports d) < 2 ^ 64
    \<Longrightarrow> gateway_step envs gw (gw\<lparr>gw_runtime := RefreshDomainPortsMap apps (gw_runtime gw)\<rparr>)"
| breaker: "Breaker_Reset_tick (gw_breaker gw) = Return b \<Longrightarrow> gateway_step envs gw (gw\<lparr>gw_breaker := b\<rparr>)"
| cleanup: "gateway_step envs gw (gw\<lparr>gw_handlers := map (cleanup_handler now_global now_rule) (gw_handlers gw)\<rparr>)"

section \<open>What stays as it was\<close>

text \<open>A handler changes the state of the limiter only, a modifier the pools of the gzip modifier only.\<close>

fun handler_like :: "'r PreHandler \<Rightarrow> 'r PreHandler \<Rightarrow> bool" where
  "handler_like (LimiterHandler l) h \<longleftrightarrow> (\<exists>l'. h = LimiterHandler l' \<and> prl_enabled l' = prl_enabled l)"
| "handler_like h0 h \<longleftrightarrow> h = h0"

fun modifier_like :: "Modifier \<Rightarrow> Modifier \<Rightarrow> bool" where
  "modifier_like (GzipMod g) m \<longleftrightarrow>
     (\<exists>g'. m = GzipMod g' \<and> pools_clean g' \<and> gm_level g' = gm_level g \<and> gm_enabled g' = gm_enabled g)"
| "modifier_like m0 m \<longleftrightarrow> m = m0"

fun grpc_like :: "'c GrpcProxy option \<Rightarrow> 'c GrpcProxy option \<Rightarrow> bool" where
  "grpc_like None p \<longleftrightarrow> p = None"
| "grpc_like (Some p0) p \<longleftrightarrow> (\<exists>p'. p = Some p' \<and> gp_config p' = gp_config p0 \<and> pool_allowed p')"

definition gateway_like :: "('r, 'c) gateway \<Rightarrow> ('r, 'c) gateway \<Rightarrow> bool" where
  "gateway_like gw0 gw \<longleftrightarrow>
     gw_cfg gw = gw_cfg gw0 \<and> gw_ruler gw = gw_ruler gw0 \<and> gw_pages gw = gw_pages gw0
     \<and> list_all2 handler_like (gw_handlers gw0) (gw_handlers gw) \<and> gw_recorder gw = None
     \<and> list_all2 modifier_like (gw_modifiers gw0) (gw_modifiers gw)
     \<and> cache_ok (gw_cache gw) \<and> ports_ok (gw_runtime gw)
     \<and> br_serviceBucket (gw_breaker gw) = [] \<and> br_cf (gw_breaker gw) = br_cf (gw_breaker gw0)
     \<and> grpc_like (gw_grpc gw0) (gw_grpc gw)"

lemma limiter_like:
  "RateLimiter_Handle ctx l None r = Return (l', rcd, r', err) \<Longrightarrow> prl_enabled l' = prl_enabled l \<and> rcd = None"
  by (auto simp: RateLimiter_Handle_def Let_def case_prod_unfold split: if_splits option.splits)

lemma handle_like:
  assumes "PreHandler_Handle ctx h None r = Return (h', rcd, r', err)" and "handler_like h0 h"
  shows "handler_like h0 h' \<and> rcd = None"
  using assms by (cases h0) (auto simp: bind_outcome_Return dest!: limiter_like)

lemma run_like:
  "run_handlers PreHandler_Handle ctx hs None r = Return (hs', rcd, r', err) \<Longrightarrow> list_all2 handler_like hs0 hs
     \<Longrightarrow> list_all2 handler_like hs0 hs' \<and> rcd = None"
proof (induction hs arbitrary: hs0 r hs')
  case (Cons h hs)
  obtain h0 hs1 where hs0: "hs0 = h0 # hs1" "handler_like h0 h" "list_all2 handler_like hs1 hs"
    using Cons.prems(2) by (auto simp: list_all2_Cons2)
  obtain h1 rcd1 r1 e1 where h: "PreHandler_Handle ctx h None r = Return (h1, rcd1, r1, e1)"
    using Cons.prems(1) by (auto simp: bind_outcome_Return)
  note like = handle_like [OF h hs0(2)]
  show ?case
  proof (cases e1)
    case None
    with Cons.prems(1) h like obtain hs2 where
      rest: "run_handlers PreHandler_Handle ctx hs None r1 = Return (hs2, rcd, r', err)" "hs' = h1 # hs2"
      by (auto simp: bind_outcome_Return)
    with Cons.IH [OF rest(1) hs0(3)] like hs0(1) show ?thesis by simp
  next
    case (Some e)
    with Cons.prems h like hs0 show ?thesis by auto
  qed
qed simp

lemma gzip_like:
  assumes "GzipModifier_ModifyResponse env g r = Return (g', r', err)" and "pools_clean g"
  shows "pools_clean g' \<and> gm_level g' = gm_level g \<and> gm_enabled g' = gm_enabled g"
proof -
  have "g' = g \<or> (\<exists>c. compressData env g (resp_body r) = Return (g', c))"
    using assms(1) by (auto simp: GzipModifier_ModifyResponse_def Let_def bind_outcome_Return split: if_splits option.splits)
  then show ?thesis using pools_clean_compress [OF assms(2)] compressData_settings assms(2) by blast
qed

lemma use_like: "Modifier_Use env cfg m r = Return (m', r') \<Longrightarrow> modifier_like m0 m \<Longrightarrow> modifier_like m0 m'"
  by (cases m0) (auto simp: bind_outcome_Return dest!: gzip_like)

lemma put_back_like:
  "list_all2 modifier_like ms0 ms \<Longrightarrow> use_all (Modifier_Use env cfg) (filter Modifier_IsEnabled ms) r = Return (used, r')
     \<Longrightarrow> list_all2 modifier_like ms0 (put_back Modifier_IsEnabled ms used)"
proof (induction arbitrary: r used rule: list_all2_induct)
  case (Cons m0 ms0 m ms)
  then show ?case by (cases "Modifier_IsEnabled m") (auto simp: bind_outcome_Return dest: use_like)
qed simp

lemma ruler_cache:
  "Ruler_Parse rand rt now ru r cache = Return (r', cache', result) \<Longrightarrow> cache_ok cache \<Longrightarrow> cache_ok cache'"
  by (auto simp: Ruler_Parse_def MatchAPIRule_def Let_def bind_outcome_Return case_prod_unfold
      split: if_splits option.splits list.splits intro: cache_ok_pick)

lemma resolver_cache:
  "Resolver_Parse rand rt now ru r cache = Return (r', cache', url, events) \<Longrightarrow> cache_ok cache \<Longrightarrow> cache_ok cache'"
  by (auto simp: Resolver_Parse_def Let_def bind_outcome_Return case_prod_unfold split: if_splits option.splits dest: ruler_cache)

lemma director_like:
  assumes "ProxyDirector env gw r = Return (gw', r', events)" and "gateway_like gw0 gw"
  shows "gateway_like gw0 gw' \<and> gw_runtime gw' = gw_runtime gw"
proof (cases "grpc_request gw r")
  case True
  with assms show ?thesis by (auto simp: ProxyDirector_def grpc_request_iff)
next
  case False
  from director_cases [OF assms(1) False] obtain hs rcd r1 err where
    run: "run_handlers PreHandler_Handle (en_pre env) (gw_handlers gw) (gw_recorder gw) r = Return (hs, rcd, r1, err)"
    and refused: "err \<noteq> None \<Longrightarrow> gw' = gw\<lparr>gw_handlers := hs, gw_recorder := rcd\<rparr>"
    and go: "err = None \<Longrightarrow> \<exists>r2 cache url evs.
       Resolver_Parse (en_random env) (gw_runtime gw) (en_now env) (gw_ruler gw) r1 (gw_cache gw) = Return (r2, cache, url, evs)
       \<and> gw' = gw\<lparr>gw_handlers := hs, gw_recorder := rcd, gw_cache := cache\<rparr>" by metis
  have like: "list_all2 handler_like (gw_handlers gw0) hs \<and> rcd = None"
    using run_like [of "en_pre env" "gw_handlers gw" r hs rcd r1 err "gw_handlers gw0"] run assms(2) by (simp add: gateway_like_def)
  show ?thesis
  proof (cases err)
    case None
    with go like assms(2) show ?thesis by (auto simp: gateway_like_def dest: resolver_cache)
  next
    case (Some e)
    with refused like assms(2) show ?thesis by (simp add: gateway_like_def)
  qed
qed

lemma round_trip_like:
  assumes "RoundTrip env gw r = (gw', res)" and "gateway_like gw0 gw"
  shows "gateway_like gw0 gw'"
proof (cases "gw' = gw")
  case False
  then obtain proxy resp where g: "handleGrpcProxy (en_grpc env) (gw_grpc gw) r = (proxy, resp)" "gw' = gw\<lparr>gw_grpc := proxy\<rparr>"
    using assms(1) by (auto simp: RoundTrip_def split: option.splits if_splits prod.splits)
  have "grpc_like (gw_grpc gw0) proxy"
  proof (cases "gw_grpc gw")
    case (Some p)
    then obtain p0 where "gw_grpc gw0 = Some p0" "gp_config p = gp_config p0" "pool_allowed p"
      using assms(2) by (cases "gw_grpc gw0") (auto simp: gateway_like_def)
    with Some g(1) handle_pool show ?thesis
      by (fastforce simp: handleGrpcProxy_def Let_def split: prod.splits)
  qed (use g(1) assms(2) in \<open>auto simp: handleGrpcProxy_def gateway_like_def\<close>)
  with assms(2) g(2) show ?thesis by (simp add: gateway_like_def)
qed (use assms(2) in simp)

lemma error_handler_like:
  "ProxyErrorHandler env gw w r = Return (gw', w', events) \<Longrightarrow> br_serviceBucket (gw_breaker gw) = [] \<Longrightarrow> gw' = gw"
  by (auto simp: ProxyErrorHandler_def Let_def Breaker_Set_def Map_Get_def split: if_splits)

lemma serve_like:
  assumes "ServeHTTP env gw r = Return (gw', reply, events)" and "gateway_like gw0 gw"
  shows "gateway_like gw0 gw'"
proof -
  obtain gw1 r1 ev1 where d: "ProxyDirector env gw r = Return (gw1, r1, ev1)"
    using assms(1) by (auto simp: ServeHTTP_def bind_outcome_Return)
  obtain gw2 res where t: "RoundTrip env gw1 r1 = (gw2, res)" by fastforce
  have like: "gateway_like gw0 gw2"
    using round_trip_like [OF t] director_like [OF d assms(2)] by blast
  show ?thesis
  proof (cases res)
    case (Inl e)
    then obtain w ev2 where "ProxyErrorHandler env gw2 new_writer r1 = Return (gw', w, ev2)"
      using assms(1) d t by (auto simp: ServeHTTP_def bind_outcome_Return)
    with error_handler_like like show ?thesis by (metis gateway_like_def)
  next
    case (Inr resp)
    then obtain mods resp' where m: "ProxyModifyResponse (en_mod env) (gw_cfg gw2) (gw_modifiers gw2) resp = Return (mods, resp')"
      "gw' = gw2\<lparr>gw_modifiers := mods\<rparr>"
      using assms(1) d t by (auto simp: ServeHTTP_def bind_outcome_Return)
    have "list_all2 modifier_like (gw_modifiers gw0) (gw_modifiers gw2)" using like by (simp add: gateway_like_def)
    then have "list_all2 modifier_like (gw_modifiers gw0) mods"
      using m(1) put_back_like by (auto simp: ProxyModifyResponse_def Chain_GetEnabledModifiers_def bind_outcome_Return)
    with like m(2) show ?thesis by (simp add: gateway_like_def)
  qed
qed

lemma ports_ok_refresh:
  assumes "ports_ok rt" and "\<forall>d \<in> set apps. length (app_ports d) < 2 ^ 64"
  shows "ports_ok (loadDomainPortsMap apps rt)"
  unfolding ports_ok_def loadDomainPortsMap_def
proof (intro allI impI)
  fix host ports
  assume "Map_Get (rt_ports (rt\<lparr>rt_ports := fold (\<lambda>d m. if app_domain d \<noteq> [] then Map_Put (app_domain d) (app_ports d) m else m)
      apps (rt_ports rt)\<rparr>)) host = Some ports"
  then show "length ports < 2 ^ 64"
    using assms by (auto simp: ports_after_load ports_ok_def find_Some_iff nth_mem split: if_splits option.splits)
      (metis nth_mem set_rev length_rev)
qed

lemma load_keeps_ports: "rt_ports (loadRuntimeDomains read_file decode ord1 ord2 ord3 ord4 app rt) = rt_ports rt"
  by (simp add: loadRuntimeDomains_def loadDefaultDomainsMap_def split: option.split)

lemma cleanup_like: "handler_like h0 h \<Longrightarrow> handler_like h0 (cleanup_handler now_global now_rule h)"
  by (cases h0) auto

lemma step_like:
  assumes "gateway_step envs gw gw'" and "gateway_like gw0 gw"
  shows "gateway_like gw0 gw'"
  using assms
proof (induction rule: gateway_step.induct)
  case (domains rt read_file decode ord1 ord2 ord3 ord4 app gw)
  then have "rt_ports rt = rt_ports (gw_runtime gw)" by (simp add: load_keeps_ports)
  with domains show ?case by (simp add: gateway_like_def ports_ok_def)
next
  case (ports apps gw)
  then show ?case by (simp add: gateway_like_def RefreshDomainPortsMap_def ports_ok_refresh)
next
  case (breaker gw b)
  then show ?case by (auto simp: gateway_like_def Breaker_Reset_tick_def split: if_splits)
next
  case (cleanup gw now_global now_rule)
  then have "list_all2 handler_like (gw_handlers gw0) (map (cleanup_handler now_global now_rule) (gw_handlers gw))"
    by (auto simp: gateway_like_def list_all2_conv_all_nth cleanup_like)
  with cleanup show ?case by (simp add: gateway_like_def)
qed (rule serve_like)

lemma steps_like:
  "(gateway_step envs)\<^sup>*\<^sup>* gw gw' \<Longrightarrow> gateway_like gw0 gw \<Longrightarrow> gateway_like gw0 gw'"
  by (induction rule: rtranclp_induct) (auto intro: step_like)

section \<open>From the start\<close>

text \<open>A start with nothing registered yet, and a database whose slices fit the address space.\<close>

definition clean_start :: "('l, 'r, 'c) init_env \<Rightarrow> ('l, 'r, 'c) Initializer \<Rightarrow> bool" where
  "clean_start env i \<longleftrightarrow> it_handlers i = [] \<and> it_modifiers i = [] \<and> rt_ports (it_runtime i) = []
     \<and> (\<forall>b apps. ie_apps env b = Return apps \<longrightarrow> (\<forall>d \<in> set apps. length (app_ports d) < 2 ^ 64))"

definition started_gateway :: "('l, 'r, 'c) init_env \<Rightarrow> ('l, 'r, 'c) Initializer \<Rightarrow> ('r, 'c) gateway" where
  "started_gateway env i = core_gateway env (the (it_breaker i)) i"

lemma startup_runtime:
  assumes "sorted_runners (sortFunc registered)" and "Initialize env sortFunc i = Return (i', err)"
  obtains b apps where "ie_apps env b = Return apps" "it_runtime i' = InitDomainPortsMap apps (load_domains env (it_runtime i))"
proof -
  obtain apps where apps: "ie_apps env (mongo_first (sortFunc registered) \<or> it_mongo i) = Return apps"
    "InitStat env (initialized env apps i) = Return (i', err)"
    using assms(2) unfolding order_result [of sortFunc, OF assms(1)] startup_result_def bind_outcome_Return by blast
  with InitStat_fields [OF apps(2)] show thesis by (intro that [OF apps(1)]) (simp add: initialized_def Let_def)
qed

lemma started_like:
  assumes "sorted_runners (sortFunc registered)" and "clean_start env i" and "Initialize env sortFunc i = Return (i', err)"
  shows "gateway_like (started_gateway env i') (started_gateway env i')"
    and "gw_handlers (started_gateway env i') = InitPreHandlerManager (ie_cfg env) (it_runtime i')"
    and "gw_modifiers (started_gateway env i') = InitModifiers (ie_mod env) (ie_cfg env)"
proof -
  note fields = startup_fields [of sortFunc env i i' err, OF assms(1,3)]
  show h: "gw_handlers (started_gateway env i') = InitPreHandlerManager (ie_cfg env) (it_runtime i')"
    and m: "gw_modifiers (started_gateway env i') = InitModifiers (ie_mod env) (ie_cfg env)"
    using fields(1,2) assms(2) by (simp_all add: started_gateway_def core_gateway_def clean_start_def)
  obtain b apps where apps: "ie_apps env b = Return apps" "it_runtime i' = InitDomainPortsMap apps (load_domains env (it_runtime i))"
    using startup_runtime [of sortFunc env i i' err, OF assms(1,3)] by blast
  have "rt_ports (load_domains env (it_runtime i)) = []"
    using assms(2) by (simp add: load_domains_def load_keeps_ports clean_start_def case_prod_unfold Let_def)
  then have "ports_ok (load_domains env (it_runtime i))" by (simp add: ports_ok_def Map_Get_def)
  then have "ports_ok (it_runtime i')"
    using apps assms(2) ports_ok_refresh unfolding InitDomainPortsMap_def clean_start_def by metis
  moreover have "list_all2 handler_like (InitPreHandlerManager (ie_cfg env) (it_runtime i')) (InitPreHandlerManager (ie_cfg env) (it_runtime i'))"
    by (simp add: InitPreHandlerManager_def PreManager_Add_def)
  moreover have "list_all2 modifier_like (InitModifiers (ie_mod env) (ie_cfg env)) (InitModifiers (ie_mod env) (ie_cfg env))"
    by (simp add: InitModifiers_def Chain_AddModifier_def pools_clean_new)
  moreover have "grpc_like (GetGrpcProxy (ie_cfg env)) (GetGrpcProxy (ie_cfg env))"
    by (simp add: GetGrpcProxy_def pool_allowed_def NewGrpcProxy_def)
  ultimately show "gateway_like (started_gateway env i') (started_gateway env i')"
    using h m fields(4) by (simp add: gateway_like_def started_gateway_def core_gateway_def cache_ok_def Map_Get_def NewBreaker_def NewSizeMap_def)
qed

text \<open>A gateway after a start and any sequence of steps.\<close>

definition serving :: "('r, 'j, 'c) core_env set \<Rightarrow> ('l, 'r, 'c) init_env \<Rightarrow> (Runner list \<Rightarrow> Runner list) \<Rightarrow> ('l, 'r, 'c) Initializer
    \<Rightarrow> ('l, 'r, 'c) Initializer \<Rightarrow> ('r, 'c) gateway \<Rightarrow> bool" where
  "serving envs env sortFunc i i' gw \<longleftrightarrow> sorted_runners (sortFunc registered) \<and> clean_start env i
     \<and> (\<exists>err. Initialize env sortFunc i = Return (i', err)) \<and> (gateway_step envs)\<^sup>*\<^sup>* (started_gateway env i') gw"

lemma serving_like:
  assumes "serving envs env sortFunc i i' gw"
  shows "gateway_like (started_gateway env i') gw"
    and "gw_handlers (started_gateway env i') = InitPreHandlerManager (ie_cfg env) (it_runtime i')"
    and "gw_modifiers (started_gateway env i') = InitModifiers (ie_mod env) (ie_cfg env)"
    and "rt_Domains (it_runtime i') = rt_Domains (load_domains env (it_runtime i))"
proof -
  obtain err where a: "sorted_runners (sortFunc registered)" "clean_start env i" "Initialize env sortFunc i = Return (i', err)"
      and steps: "(gateway_step envs)\<^sup>*\<^sup>* (started_gateway env i') gw"
    using assms unfolding serving_def by blast
  note start = started_like [of sortFunc env i i' err, OF a]
  show "gateway_like (started_gateway env i') gw" by (rule steps_like [OF steps start(1)])
  show "gw_handlers (started_gateway env i') = InitPreHandlerManager (ie_cfg env) (it_runtime i')"
    "gw_modifiers (started_gateway env i') = InitModifiers (ie_mod env) (ie_cfg env)" by (rule start(2,3))+
  show "rt_Domains (it_runtime i') = rt_Domains (load_domains env (it_runtime i))"
    by (rule startup_fields(3) [of sortFunc env i i' err, OF a(1,3)])
qed

lemma handler_names: "list_all2 handler_like hs0 hs \<Longrightarrow> map PreHandler_Name hs = map PreHandler_Name hs0"
proof (induction rule: list_all2_induct)
  case (Cons h0 hs0 h hs)
  then show ?case by (cases h0) auto
qed simp

lemma modifier_names: "list_all2 modifier_like ms0 ms \<Longrightarrow> map Modifier_GetName ms = map Modifier_GetName ms0"
proof (induction rule: list_all2_induct)
  case (Cons m0 ms0 m ms)
  then show ?case by (cases m0) auto
qed simp


section \<open>Every request is answered\<close>

lemma limiter_returns: "\<exists>x. RateLimiter_Handle ctx l None r = Return x"
  by (auto simp: RateLimiter_Handle_def Let_def case_prod_unfold split: option.split)

lemma handle_returns: "\<exists>h' r' err. PreHandler_Handle ctx h None r = Return (h', None, r', err)"
proof (cases h)
  case (LimiterHandler l)
  obtain l' rcd r' err where "RateLimiter_Handle ctx l None r = Return (l', rcd, r', err)" using limiter_returns by fastforce
  with limiter_like LimiterHandler show ?thesis by fastforce
qed simp_all

lemma run_returns: "\<exists>hs' r' err. run_handlers PreHandler_Handle ctx hs None r = Return (hs', None, r', err)"
proof (induction hs arbitrary: r)
  case (Cons h hs)
  obtain h' r' err where h: "PreHandler_Handle ctx h None r = Return (h', None, r', err)" using handle_returns by blast
  from Cons.IH [of r'] h show ?case by (cases err) (auto simp: bind_outcome_Return)
qed simp

lemma custom_returns: "random_ok rand \<Longrightarrow> \<exists>res. ResolveCustomService_loop rand host services = Return res"
proof (induction services)
  case (Cons s services)
  have "\<exists>x. PickOneAddrRoundRobin rand addrs = Return x" for addrs
  proof (cases "addrs = []")
    case False
    then have "0 \<le> rand 0 (int (length addrs) - 1) \<and> rand 0 (int (length addrs) - 1) \<le> int (length addrs) - 1"
      using Cons.prems unfolding random_ok_def by (cases addrs) auto
    then show ?thesis by (simp add: PickOneAddrRoundRobin_def index_at_def)
  qed (simp add: PickOneAddrRoundRobin_def)
  then obtain h p where "PickOneAddrRoundRobin rand (map (\<lambda>u. (up_host u, up_port u)) (cs_upstream s)) = Return (h, p)" by fastforce
  with Cons show ?case by simp
qed simp

lemma ruler_returns:
  assumes "random_ok rand" and "r_url r \<noteq> None"
  shows "\<exists>r' cache' result. Ruler_Parse rand rt now ru r cache = Return (r', cache', result) \<and> r_url r' = r_url r"
proof -
  obtain url where url: "r_url r = Some url" using assms(2) by blast
  obtain res where "ResolveCustomService rand ru (r_host r) = Return res"
    using custom_returns [OF assms(1)] by (auto simp: ResolveCustomService_def)
  then show ?thesis
    using url by (auto simp: Ruler_Parse_def MatchAPIRule_def Let_def case_prod_unfold split: option.split list.split)
qed

lemma director_returns:
  assumes "random_ok (en_random env)" and "r_url r \<noteq> None" and "gw_recorder gw = None"
  shows "\<exists>gw' r' events. ProxyDirector env gw r = Return (gw', r', events)"
proof (cases "grpc_request gw r")
  case False
  obtain hs r1 err where run: "run_handlers PreHandler_Handle (en_pre env) (gw_handlers gw) None r = Return (hs, None, r1, err)"
    using run_returns by blast
  have "r_url r1 \<noteq> None"
    using handlers.run_header [OF run] assms(2) by (metis Request.ext_inject Request.surjective Request.update_convs(6) same_but_header_def)
  with ruler_returns [OF assms(1)] obtain r2 cache result where
    "Ruler_Parse (en_random env) (gw_runtime gw) (en_now env) (gw_ruler gw) r1 (gw_cache gw) = Return (r2, cache, result)" "r_url r2 = r_url r1"
    by blast
  with \<open>r_url r1 \<noteq> None\<close> run assms(3) show ?thesis
    by (cases err) (auto simp: ProxyDirector_def grpc_request_iff Resolver_Parse_def ResolveError_def Let_def split: option.split)
qed (auto simp: ProxyDirector_def grpc_request_iff)

lemma use_returns:
  assumes "modifier_like m0 m" and "\<And>g. m0 = GzipMod g \<Longrightarrow> valid_level (gm_level g)"
  shows "\<exists>m' r'. Modifier_Use env cfg m r = Return (m', r')"
proof (cases m)
  case (GzipMod g)
  then obtain g0 where g: "m0 = GzipMod g0" "pools_clean g" "gm_level g = gm_level g0" using assms(1) by (cases m0) auto
  then obtain g2 c where "compressData (me_gzip env) g (resp_body r) = Return (g2, c)"
    using assms(2) by (simp add: compressData_clean)
  then have "\<exists>x. GzipModifier_ModifyResponse (me_gzip env) g r = Return x"
    by (auto simp: GzipModifier_ModifyResponse_def Let_def split: option.split)
  with GzipMod show ?thesis by fastforce
qed simp_all

lemma use_all_returns:
  "list_all2 modifier_like ms0 ms \<Longrightarrow> \<forall>g. GzipMod g \<in> set ms0 \<longrightarrow> valid_level (gm_level g) \<or> \<not> gm_enabled g \<Longrightarrow>
     \<exists>used r'. use_all (Modifier_Use env cfg) (filter Modifier_IsEnabled ms) r = Return (used, r')"
proof (induction arbitrary: r rule: list_all2_induct)
  case (Cons m0 ms0 m ms)
  show ?case
  proof (cases "Modifier_IsEnabled m")
    case True
    have "valid_level (gm_level g)" if "m0 = GzipMod g" for g using that True Cons.hyps(1) Cons.prems by auto
    then obtain m' r' where m': "Modifier_Use env cfg m r = Return (m', r')" using use_returns [OF Cons.hyps(1)] by blast
    obtain used r2 where "use_all (Modifier_Use env cfg) (filter Modifier_IsEnabled ms) r' = Return (used, r2)"
      using Cons.IH [of r'] Cons.prems by auto
    with True m' show ?thesis by simp
  next
    case False
    with Cons show ?thesis by simp
  qed
qed simp

lemma serve_returns:
  assumes "serving envs env sortFunc i i' gw" and "random_ok (en_random cenv)" and "r_url r \<noteq> None"
    and "gz_enabled (mw_gzip (cfg_middleware (ie_cfg env))) \<Longrightarrow> valid_level (gz_level (mw_gzip (cfg_middleware (ie_cfg env))))"
  shows "\<exists>gw' reply events. ServeHTTP cenv gw r = Return (gw', reply, events)"
proof -
  have like: "gateway_like (started_gateway env i') gw" using serving_like(1) [OF assms(1)] .
  then have "gw_recorder gw = None" by (simp add: gateway_like_def)
  then obtain gw1 r1 ev1 where d: "ProxyDirector cenv gw r = Return (gw1, r1, ev1)"
    using director_returns [OF assms(2,3)] by blast
  obtain gw2 res where t: "RoundTrip cenv gw1 r1 = (gw2, res)" by fastforce
  have like2: "gateway_like (started_gateway env i') gw2"
    using round_trip_like [OF t] director_like [OF d like] by blast
  show ?thesis
  proof (cases res)
    case (Inl e)
    have "br_serviceBucket (gw_breaker gw2) = []" using like2 by (simp add: gateway_like_def)
    then have "\<exists>x. ProxyErrorHandler cenv gw2 new_writer r1 = Return x"
      by (simp add: ProxyErrorHandler_def Let_def Breaker_Set_def Map_Get_def)
    with d t Inl show ?thesis by (fastforce simp: ServeHTTP_def)
  next
    case (Inr resp)
    have "list_all2 modifier_like (InitModifiers (ie_mod env) (ie_cfg env)) (gw_modifiers gw2)"
      using like2 serving_like(3) [OF assms(1)] by (simp add: gateway_like_def)
    moreover have "\<forall>g. GzipMod g \<in> set (InitModifiers (ie_mod env) (ie_cfg env)) \<longrightarrow> valid_level (gm_level g) \<or> \<not> gm_enabled g"
      using assms(4) by (auto simp: InitModifiers_def Chain_AddModifier_def NewGzipModifier_def Let_def)
    ultimately obtain used resp' where
      "use_all (Modifier_Use (en_mod cenv) (gw_cfg gw2)) (filter Modifier_IsEnabled (gw_modifiers gw2)) resp = Return (used, resp')"
      using use_all_returns by blast
    then have "\<exists>x. ProxyModifyResponse (en_mod cenv) (gw_cfg gw2) (gw_modifiers gw2) resp = Return x"
      by (simp add: ProxyModifyResponse_def Chain_GetEnabledModifiers_def)
    with d t Inr show ?thesis by (fastforce simp: ServeHTTP_def)
  qed
qed


section \<open>Where requests go\<close>

definition known_at_start :: "('l, 'r, 'c) init_env \<Rightarrow> ('l, 'r, 'c) Initializer \<Rightarrow> string \<Rightarrow> bool" where
  "known_at_start env i host \<longleftrightarrow> host \<in> {[], ''127.0.0.1'', ''localhost''} \<or> host \<in> set (rt_Domains (load_domains env (it_runtime i)))"

lemma domain_refuses:
  assumes "PreCheckDomains_Handle d r = Some e"
  shows "\<exists>r'. run_handlers PreHandler_Handle ctx (SanitizerHandler a # DomainHandler d # hs) rcd r
      = Return (SanitizerHandler a # DomainHandler d # hs, rcd, r', Some e)"
proof -
  have "same_but_header r (Sanitizer_Access (pc_deny_order ctx) a r)" by (rule access_same)
  then have "r_host (Sanitizer_Access (pc_deny_order ctx) a r) = r_host r"
    by (metis same_but_header_def Request.select_convs(2) Request.surjective Request.update_convs(6))
  then have "PreCheckDomains_Handle d (Sanitizer_Access (pc_deny_order ctx) a r) = Some e"
    using assms by (simp add: PreCheckDomains_Handle_def)
  then show ?thesis by simp
qed

text \<open>A host the domain check does not know is refused; any other is sent to a target its configuration allows, or nowhere.\<close>

lemma director_refuses:
  assumes "gw_handlers gw = SanitizerHandler a # DomainHandler d # hs" and "PreCheckDomains_Handle d r = Some e"
    and "\<not> grpc_request gw r" and "ProxyDirector env gw r = Return (gw', r', events)"
  shows "r_url r' = Some (empty_url\<lparr>u_scheme := SchemeSandwich\<rparr>)"
proof -
  obtain r1 where "run_handlers PreHandler_Handle (en_pre env) (gw_handlers gw) (gw_recorder gw) r
      = Return (gw_handlers gw, gw_recorder gw, r1, Some e)"
    using domain_refuses [of d r e "en_pre env" a hs "gw_recorder gw"] assms(2) unfolding assms(1) by blast
  with assms(3,4) show ?thesis by (auto simp: ProxyDirector_def grpc_request_iff)
qed

lemma director_confined:
  assumes "ProxyDirector env gw r = Return (gw', r', events)" and "\<not> grpc_request gw r"
    and "random_ok (en_random env)" and "ports_ok (gw_runtime gw)" and "cache_ok (gw_cache gw)"
  shows "r_url r' = None \<or> (\<exists>url. r_url r' = Some url \<and> (u_scheme url = SchemeSandwich
       \<or> (\<exists>h p. u_scheme url = ''http'' \<and> u_host url = h @ '':'' @ itoa p
             \<and> allowed_target (ru_cfg (gw_ruler gw)) (gw_runtime gw) (r_host r) h p)))"
proof -
  obtain hs rcd r1 err where run: "run_handlers PreHandler_Handle (en_pre env) (gw_handlers gw) (gw_recorder gw) r = Return (hs, rcd, r1, err)"
    and refused: "err \<noteq> None \<Longrightarrow> r' = r1\<lparr>r_url := Some (empty_url\<lparr>u_scheme := SchemeSandwich\<rparr>)\<rparr>"
    and go: "err = None \<Longrightarrow> \<exists>r2 cache url evs.
       Resolver_Parse (en_random env) (gw_runtime gw) (en_now env) (gw_ruler gw) r1 (gw_cache gw) = Return (r2, cache, url, evs)
       \<and> r' = r2\<lparr>r_url := url\<rparr>"
    using director_cases [OF assms(1,2)] by metis
  have host: "r_host r1 = r_host r"
    using handlers.run_header [OF run] by (metis Request.ext_inject Request.surjective Request.update_convs(6) same_but_header_def)
  show ?thesis
  proof (cases err)
    case None
    with go obtain r2 cache url evs where
      res: "Resolver_Parse (en_random env) (gw_runtime gw) (en_now env) (gw_ruler gw) r1 (gw_cache gw) = Return (r2, cache, url, evs)"
      and r': "r' = r2\<lparr>r_url := url\<rparr>" by blast
    show ?thesis
    proof (cases url)
      case (Some u)
      from resolver_url [OF res [unfolded Some] assms(3-5)] r' host Some show ?thesis by auto
    qed (use r' in simp)
  qed (use refused in simp)
qed


section \<open>The hypotheses hold\<close>

definition demo_core_env :: "(unit, unit, unit) core_env" where
  "demo_core_env = sample_core_env"

lemma demo_serving:
  obtains i' where "serving {demo_core_env} demo_env (\<lambda>rs. rs) new_initializer i' (started_gateway demo_env i')"
proof -
  obtain i' where "Initialize demo_env (\<lambda>rs. rs) new_initializer = Return (i', None)" using demo_started by blast
  moreover have "clean_start demo_env new_initializer" by (simp add: clean_start_def new_initializer_def demo_env_def)
  ultimately have "serving {demo_core_env} demo_env (\<lambda>rs. rs) new_initializer i' (started_gateway demo_env i')"
    using registered_sorted by (auto simp: serving_def)
  then show thesis by (rule that)
qed

lemma demo_random: "random_ok (en_random demo_core_env)"
  by (simp add: random_ok_def demo_core_env_def sample_core_env_def)




end
