(* ===== verification/SiteRequests.thy ===== *)
theory SiteRequests
  imports Serving FastTransport
begin

text \<open>
  A request from the listener to the answer: a server of the manager with its wrappers around the handler, which is the reverse proxy
  on the running gateway. What each stage answers, and that there always is one answer.
\<close>

section \<open>The reverse proxy as the handler of a server\<close>

text \<open>A response is copied to the writer: its header fields, its status, its body.\<close>

definition copyHeader :: "Header \<Rightarrow> Header \<Rightarrow> Header" where
  "copyHeader dst src = fold (\<lambda>(k, vs) h. fold (hdr_add k) vs h) src dst"

definition copyResponse :: "Response \<Rightarrow> ResponseWriter \<Rightarrow> ResponseWriter" where
  "copyResponse resp w =
     rw_Write (resp_body resp) (rw_WriteHeader (resp_status resp) (w\<lparr>rw_header := copyHeader (rw_header w) (resp_header resp)\<rparr>))"

text \<open>
  Reading the whole body fails if a wrapper has put a limiter around it that the body exceeds; \<open>read_all ns r\<close> is what reads of the sizes \<open>ns\<close>
  get of it all the same. The transport of \<open>net/http\<close> reports the error, to a back end that answers once it has the body; the transport over fasthttp ignores
  it (\<open>FastRoundTripper.RoundTrip\<close>) and sends what it has read.
\<close>

definition body_fails :: "ServerRequest \<Rightarrow> bool" where
  "body_fails r \<longleftrightarrow> Some too_large \<in> set (map snd (request_reads r [length (r_body r)]))"

definition read_all :: "nat list \<Rightarrow> ServerRequest \<Rightarrow> string" where
  "read_all ns r = delivered (request_reads r ns)"

definition sending :: "transport_kind \<Rightarrow> nat list \<Rightarrow> ServerRequest \<Rightarrow> ('r, 'j, 'c) core_env \<Rightarrow> ('r, 'j, 'c) core_env" where
  "sending transport ns r env = env\<lparr>en_http := (\<lambda>req.
     if body_fails r
     then (case transport of OriginTransport \<Rightarrow> Inl too_large | FastTransport \<Rightarrow> en_http env (req\<lparr>r_body := read_all ns r\<rparr>))
     else en_http env req)\<rparr>"

definition reverse_proxy :: "transport_kind \<Rightarrow> nat list \<Rightarrow> ('r, 'j, 'c) core_env \<Rightarrow> ('r, 'c) gateway \<Rightarrow> handler" where
  "reverse_proxy transport ns env gw r w =
     bind_outcome (ServeHTTP (sending transport ns r env) gw (Request.truncate r)) (\<lambda>(gw', reply, events).
       Return (case reply of Responded resp \<Rightarrow> copyResponse resp w | Failed writer \<Rightarrow> writer))"

lemma body_fails_iff:
  assumes "int (length (r_body r)) \<le> int_max"
  shows "body_fails r \<longleftrightarrow> (\<exists>limit. sr_limit r = Some limit \<and> limit < int (length (r_body r)))"
proof -
  have "wrap64 (int (length (r_body r))) = int (length (r_body r))" using assms by (simp add: in_int64_def int_min_def)
  then show ?thesis
    by (auto simp: body_fails_def request_reads_def limited_Read_def body_read_def too_large_def Let_def split: option.splits if_splits)
qed

lemma sending_simps [simp]: "en_random (sending transport ns r env) = en_random env"
  by (simp add: sending_def)

section \<open>Answers that come from the gateway itself\<close>

definition error_codes :: "int set" where
  "error_codes = {200, 403, 429, 502, 504}"

text \<open>The error handler always sends a status, 200 only when it is allowed to send a page.\<close>

lemma error_handler_sent:
  assumes "ProxyErrorHandler env gw new_writer req = Return (gw', w, events)"
  shows "\<exists>code h. rw_sent w = Some (code, h) \<and> code \<in> error_codes \<and> (sec_strictMode (cfg_security (gw_cfg gw)) \<longrightarrow> code \<noteq> 200)"
proof -
  have page: "\<exists>c h. rw_sent (ErrorPage_Cache e p cf code r t new_writer) = Some (c, h) \<and> (c = code \<or> c = 200 \<and> \<not> sec_strictMode (cfg_security cf))"
    for e p cf code r t
    by (auto simp: ErrorPage_Cache_def strictWrite_def writeResponse_def minify_def rw_defs Let_def split: option.split)
  have "w = rw_WriteHeader 504 new_writer
      \<or> (\<exists>code \<in> {403, 429, 502}. \<exists>t. w = ErrorPage_Cache (en_page env) (gw_pages gw) (gw_cfg gw) code req t new_writer)"
    using assms by (auto simp: ProxyErrorHandler_def Let_def bind_outcome_Return split: if_splits)
  then show ?thesis
  proof
    assume "w = rw_WriteHeader 504 new_writer"
    then show ?thesis by (simp add: rw_defs error_codes_def)
  next
    assume "\<exists>code \<in> {403, 429, 502}. \<exists>t. w = ErrorPage_Cache (en_page env) (gw_pages gw) (gw_cfg gw) code req t new_writer"
    then obtain code t where w: "code \<in> {403, 429, 502}" "w = ErrorPage_Cache (en_page env) (gw_pages gw) (gw_cfg gw) code req t new_writer" by blast
    obtain c h where "rw_sent w = Some (c, h)" "c = code \<or> c = 200 \<and> \<not> sec_strictMode (cfg_security (gw_cfg gw))"
      using page unfolding w(2) by meson
    with w(1) show ?thesis by (intro exI [of _ c] exI [of _ h]) (auto simp: error_codes_def)
  qed
qed

lemma copied_sent: "rw_sent w = None \<Longrightarrow> \<exists>h. rw_sent (copyResponse resp w) = Some (resp_status resp, h)"
  by (simp add: copyResponse_def rw_defs Let_def)

text \<open>A request that is no gRPC request never gets the scheme of one.\<close>

lemma director_no_grpc:
  assumes "ProxyDirector env gw r = Return (gw', r', events)" and "\<not> grpc_request gw r" and "r_url r' = Some url"
  shows "u_scheme url \<noteq> SchemeGrpc"
proof -
  obtain hs rcd r1 err where
    "run_handlers PreHandler_Handle (en_pre env) (gw_handlers gw) (gw_recorder gw) r = Return (hs, rcd, r1, err)"
    and refused: "err \<noteq> None \<Longrightarrow> r' = r1\<lparr>r_url := Some (empty_url\<lparr>u_scheme := SchemeSandwich\<rparr>)\<rparr>"
    and go: "err = None \<Longrightarrow> \<exists>r2 cache url evs.
       Resolver_Parse (en_random env) (gw_runtime gw) (en_now env) (gw_ruler gw) r1 (gw_cache gw) = Return (r2, cache, url, evs)
       \<and> r' = r2\<lparr>r_url := url\<rparr>"
    using director_cases [OF assms(1,2)] by metis
  show ?thesis
  proof (cases err)
    case None
    with go assms(3) show ?thesis by (auto simp: SchemeGrpc_def dest!: resolver_scheme)
  next
    case (Some e)
    with refused assms(3) show ?thesis by (auto simp: SchemeGrpc_def SchemeSandwich_def)
  qed
qed

text \<open>A request that cannot be sent is answered by the error handler.\<close>

lemma unsent_answer:
  assumes "ServeHTTP env gw r = Return (gw', reply, events)" and "\<not> grpc_request gw r"
    and "\<And>gw1 r1 evs. ProxyDirector env gw r = Return (gw1, r1, evs) \<Longrightarrow> \<exists>e. en_http env r1 = Inl e"
  shows "\<exists>w gw1 gw2 r1 evs. reply = Failed w \<and> ProxyErrorHandler env gw1 new_writer r1 = Return (gw2, w, evs) \<and> gw_cfg gw1 = gw_cfg gw"
proof -
  obtain gw1 r1 evs where d: "ProxyDirector env gw r = Return (gw1, r1, evs)"
    using assms(1) by (auto simp: ServeHTTP_def bind_outcome_Return)
  have cfg: "gw_cfg gw1 = gw_cfg gw" using director_cases [OF d assms(2)] by (metis gateway.select_convs(1) gateway.surjective gateway.update_convs(4,5,6))
  obtain e where "en_http env r1 = Inl e" using assms(3) [OF d] by blast
  then have "RoundTrip env gw1 r1 = (gw1, Inl e)"
    using director_no_grpc [OF d assms(2)] by (simp add: RoundTrip_def split: option.split)
  with assms(1) d cfg show ?thesis by (auto simp: ServeHTTP_def bind_outcome_Return) blast
qed

lemma failed_reply:
  assumes "ServeHTTP env gw r = Return (gw', Failed w, events)"
  shows "\<exists>gw1 gw2 r1 evs. ProxyErrorHandler env gw1 new_writer r1 = Return (gw2, w, evs)"
proof -
  obtain gw1 r1 ev1 where d: "ProxyDirector env gw r = Return (gw1, r1, ev1)" using assms by (auto simp: ServeHTTP_def bind_outcome_Return)
  obtain gw2 res where t: "RoundTrip env gw1 r1 = (gw2, res)" by fastforce
  show ?thesis
  proof (cases res)
    case (Inl e)
    then have "\<exists>gw3 evs. ProxyErrorHandler env gw2 new_writer r1 = Return (gw3, w, evs)"
      using assms d t by (auto simp: ServeHTTP_def bind_outcome_Return)
    then show ?thesis by blast
  next
    case (Inr resp)
    with assms d t show ?thesis by (auto simp: ServeHTTP_def bind_outcome_Return)
  qed
qed

text \<open>A host unknown at the start gets the scheme that no transport sends.\<close>

lemma unknown_unsent:
  assumes "serving envs env sortFunc i i' gw" and "\<not> known_at_start env i (r_host r)" and "\<not> grpc_request gw r"
    and "ProxyDirector cenv gw r = Return (gw', r', events)"
  shows "r_url r' = Some (empty_url\<lparr>u_scheme := SchemeSandwich\<rparr>)"
proof -
  note like = serving_like [OF assms(1)]
  let ?d = "NewPreCheckDomains (ie_cfg env) (it_runtime i')"
  obtain a hs where hs: "gw_handlers gw = SanitizerHandler a # DomainHandler ?d # hs"
    using like(1,2) by (auto simp: gateway_like_def InitPreHandlerManager_def PreManager_Add_def list_all2_Cons1)
  from assms(2) obtain e where "PreCheckDomains_Handle ?d r = Some e"
    using like(4) by (auto simp: known_at_start_def PreCheckDomains_Handle_def NewPreCheckDomains_def Let_def)
  from director_refuses [OF hs this assms(3,4)] show ?thesis .
qed

text \<open>The proxy as a handler: it sends a status, and one of its own for what it does not forward.\<close>

lemma proxy_answers:
  assumes "serving envs env sortFunc i i' gw" and "random_ok (en_random cenv)" and "r_url r \<noteq> None"
    and "gz_enabled (mw_gzip (cfg_middleware (ie_cfg env))) \<Longrightarrow> valid_level (gz_level (mw_gzip (cfg_middleware (ie_cfg env))))"
    and "\<And>r. not_routed r \<Longrightarrow> \<exists>e. en_http cenv r = Inl e"
  shows "\<exists>w code hdr. reverse_proxy transport ns cenv gw r new_writer = Return w \<and> rw_sent w = Some (code, hdr)
    \<and> (\<not> grpc_request gw (Request.truncate r) \<and> (transport = OriginTransport \<and> body_fails r \<or> \<not> known_at_start env i (r_host r))
        \<longrightarrow> code \<in> error_codes \<and> (sec_strictMode (cfg_security (ie_cfg env)) \<longrightarrow> code \<noteq> 200))"
proof -
  let ?r = "Request.truncate r" and ?env = "sending transport ns r cenv"
  have "r_url ?r \<noteq> None" "r_host ?r = r_host r" using assms(3) by (simp_all add: Request.truncate_def)
  then obtain gw' reply events where served: "ServeHTTP ?env gw ?r = Return (gw', reply, events)"
    using serve_returns [of envs env sortFunc i i' gw ?env ?r] assms(1,2,4) by auto
  have cfg: "gw_cfg gw = ie_cfg env"
    using serving_like(1) [OF assms(1)] by (simp add: gateway_like_def started_gateway_def core_gateway_def)
  show ?thesis
  proof (cases "\<not> grpc_request gw ?r \<and> (transport = OriginTransport \<and> body_fails r \<or> \<not> known_at_start env i (r_host r))")
    case True
    have unsent: "\<exists>e. en_http ?env r1 = Inl e" if d: "ProxyDirector ?env gw ?r = Return (gw1, r1, evs)" for gw1 r1 evs
    proof (cases "transport = OriginTransport \<and> body_fails r")
      case False
      with True \<open>r_host ?r = r_host r\<close> have "r_url r1 = Some (empty_url\<lparr>u_scheme := SchemeSandwich\<rparr>)"
        using unknown_unsent [OF assms(1) _ _ d] by simp
      then have "not_routed r1" "not_routed (r1\<lparr>r_body := read_all ns r\<rparr>)" by (simp_all add: not_routed_def)
      with assms(5) False show ?thesis by (cases transport) (auto simp: sending_def)
    qed (simp add: sending_def)
    have "\<exists>w gw1 gw2 r1 evs. reply = Failed w \<and> ProxyErrorHandler ?env gw1 new_writer r1 = Return (gw2, w, evs) \<and> gw_cfg gw1 = gw_cfg gw"
      by (rule unsent_answer [OF served]) (use True in blast, rule unsent)
    then obtain w gw1 gw2 r1 evs where
      w: "reply = Failed w" "ProxyErrorHandler ?env gw1 new_writer r1 = Return (gw2, w, evs)" "gw_cfg gw1 = gw_cfg gw" by blast
    with error_handler_sent [OF w(2)] served cfg show ?thesis by (auto simp: reverse_proxy_def)
  next
    case False
    then show ?thesis
    proof (cases reply)
      case (Responded resp)
      with served False copied_sent [of new_writer resp] show ?thesis by (auto simp: reverse_proxy_def new_writer_def)
    next
      case (Failed w)
      then obtain gw1 gw2 r1 evs where "ProxyErrorHandler ?env gw1 new_writer r1 = Return (gw2, w, evs)"
        using served failed_reply by blast
      from error_handler_sent [OF this] served False Failed show ?thesis by (auto simp: reverse_proxy_def)
    qed
  qed
qed

section \<open>From the listener to the answer\<close>

abbreviation redirected :: "ServerConfig \<Rightarrow> ServerRequest \<Rightarrow> DomainConfig option" where
  "redirected cfg r \<equiv> (if srv_protocol cfg = ''http'' then redirect_config (strip_port (r_host r)) (srv_domainConfig cfg) else None)"

lemma redirect_answer:
  assumes "redirected cfg r = Some dc"
  shows "\<exists>w hdr. server_handler cfg h r new_writer = Return w \<and> rw_sent w = Some (308, hdr)"
proof -
  have sent: "\<exists>hdr. rw_sent (http_Redirect r url t 308 w) = Some (308, hdr)" if "rw_sent w = None" for url t w
    using that by (simp add: http_Redirect_def rw_defs Let_def)
  have "rw_sent (if 0 < dom_hSTSMaxAge dc then rw_set k v new_writer else new_writer) = None" for k v by (simp add: rw_defs)
  from sent [OF this] show ?thesis unfolding server_handler_cases assms option.case by blast
qed

lemma large_answer:
  assumes "redirected cfg r = None" and "0 < srv_maxRequestBody cfg \<and> srv_maxRequestBody cfg < r_length r"
  shows "\<exists>w hdr. server_handler cfg h r new_writer = Return w \<and> rw_sent w = Some (413, hdr)"
  unfolding server_handler_cases assms(1) option.case if_P [OF assms(2)] by (simp add: rw_defs Let_def)


section \<open>A limit that truncates\<close>

text \<open>
  Over fasthttp a body of unknown length that exceeds the limit is not refused at all: the back end gets a proper prefix of it, as if it were
  the whole body.
\<close>

lemma fast_truncates:
  assumes "sr_limit r = Some limit" and "0 \<le> limit" and "limit < int (length (r_body r))" and "r_length r \<le> 0"
    and "int (length (r_body r)) \<le> int_max" and "small_reads limit ns"
  shows "\<exists>data rest. r_body r = data @ rest \<and> rest \<noteq> [] \<and> int (length data) \<le> limit
    \<and> body_calls (\<lambda>_. read_all ns r) (Request.truncate r) = [SetBodyRaw data]
    \<and> (\<forall>req. en_http (sending FastTransport ns r env) req = en_http env (req\<lparr>r_body := data\<rparr>))"
proof -
  let ?lr = "\<lparr>lr_ReadCloser = r_body r, lr_limit = limit, lr_read = 0, lr_exceeded = False\<rparr>"
  have "(\<exists>rest. r_body r = delivered (reads (limited_Read body_read) ?lr ns) @ rest)
      \<and> int (length (delivered (reads (limited_Read body_read) ?lr ns))) \<le> limit"
    using body.limited_prefix [of ?lr ns] assms(2,6) by simp
  then obtain rest where rest: "r_body r = read_all ns r @ rest" "int (length (read_all ns r)) \<le> limit"
    using assms(1) by (auto simp: read_all_def request_reads_def)
  moreover have "rest \<noteq> []" using rest assms(3) by auto
  moreover have "body_calls (\<lambda>_. read_all ns r) (Request.truncate r) = [SetBodyRaw (read_all ns r)]"
    using assms(4) by (simp add: body_calls_def Request.truncate_def)
  moreover have "body_fails r" using assms(1,3,5) by (simp add: body_fails_iff)
  ultimately show ?thesis by (intro exI [of _ "read_all ns r"] exI [of _ rest]) (simp add: sending_def)
qed

section \<open>The hypotheses hold\<close>


end
