(* ===== verification/PeriodicJobs.thy ===== *)
theory PeriodicJobs
  imports GatewayRuntime Breaker StatStore
begin

text \<open>
  The periodic jobs: tickers, the goroutines that wait for them, and the loops the program starts (\<open>internal/job_syncer\<close>, the reset of the
  breaker, the cleanups of the rate limiter and of the gzip cache, the flush of the flow recorder and the statistics). The loops share
  a state with the rest of the program; a system of them is a step relation.
\<close>

section \<open>Tickers\<close>

text \<open>
  A ticker and the goroutine that ranges over its channel. The channel holds one tick at most: a tick that finds one waiting is
  dropped, and a late ticker skips the times it missed. \<open>tl_start\<close> and the last three fields record what has happened.
\<close>

record ticker_loop =
  tl_start :: time
  tl_period :: duration
  tl_next :: time
  tl_tick :: bool
  tl_stopped :: bool
  tl_busy :: bool
  tl_fired :: nat
  tl_lost :: nat
  tl_runs :: nat

definition new_loop :: "duration \<Rightarrow> time \<Rightarrow> ticker_loop" where
  "new_loop d now = \<lparr>tl_start = now, tl_period = d, tl_next = now + d, tl_tick = False, tl_stopped = False, tl_busy = False,
     tl_fired = 0, tl_lost = 0, tl_runs = 0\<rparr>"

text \<open>\<open>time.NewTicker\<close> panics for an interval that is not positive; \<open>time.Tick\<close> then returns a nil channel, on which a loop waits for ever.\<close>

definition NewTicker :: "duration \<Rightarrow> time \<Rightarrow> ticker_loop outcome" where
  "NewTicker d now = (if d \<le> 0 then Panic else Return (new_loop d now))"

definition time_Tick :: "duration \<Rightarrow> time \<Rightarrow> ticker_loop option" where
  "time_Tick d now = (if d \<le> 0 then None else Some (new_loop d now))"

definition ticker_fire :: "time \<Rightarrow> ticker_loop \<Rightarrow> ticker_loop" where
  "ticker_fire now l = l\<lparr>tl_next := tl_next l + tl_period l * (1 + (now - tl_next l) div tl_period l), tl_tick := True,
     tl_fired := Suc (tl_fired l), tl_lost := tl_lost l + (if tl_tick l then 1 else 0)\<rparr>"

definition loop_begin :: "ticker_loop \<Rightarrow> ticker_loop" where
  "loop_begin l = l\<lparr>tl_tick := False, tl_busy := True\<rparr>"

definition loop_end :: "ticker_loop \<Rightarrow> ticker_loop" where
  "loop_end l = l\<lparr>tl_busy := False, tl_runs := Suc (tl_runs l)\<rparr>"

text \<open>\<open>Ticker.Stop\<close>: no more ticks, a waiting one is discarded (Go 1.23 and later), and the channel stays open.\<close>

definition ticker_stop :: "ticker_loop \<Rightarrow> ticker_loop" where
  "ticker_stop l = l\<lparr>tl_stopped := True, tl_tick := False, tl_lost := tl_lost l + (if tl_tick l then 1 else 0)\<rparr>"

section \<open>The loops of the program\<close>

definition JobSyncer_loop :: "time \<Rightarrow> JobSyncer \<Rightarrow> ticker_loop outcome" where
  "JobSyncer_loop now j = NewTicker (js_syncTime j) now"

definition JobSyncer_Stop :: "ticker_loop \<Rightarrow> ticker_loop" where
  "JobSyncer_Stop l = ticker_stop l"

definition Breaker_Reset_loop :: "time \<Rightarrow> Breaker \<Rightarrow> ticker_loop option" where
  "Breaker_Reset_loop now b = time_Tick (wrap64 (brk_reset (br_cf b) * Second)) now"

definition cleanup_loop :: "time \<Rightarrow> ticker_loop outcome" where
  "cleanup_loop now = NewTicker (5 * Minute) now"

definition flushBuffer_loop :: "time \<Rightarrow> ticker_loop outcome" where
  "flushBuffer_loop now = NewTicker (30 * Second) now"

definition cleanupCache_loop :: "time \<Rightarrow> ticker_loop outcome" where
  "cleanupCache_loop now = NewTicker Minute now"

text \<open>The two loops of the statistics: to the cache, and from the cache to the file or database.\<close>

definition sync_stat_loop :: "time \<Rightarrow> StatConfig \<Rightarrow> ticker_loop outcome" where
  "sync_stat_loop now cfg = NewTicker (stat_interval (st_syncDuration cfg) 60) now"

definition save_stat_loop :: "time \<Rightarrow> StatConfig \<Rightarrow> ticker_loop outcome" where
  "save_stat_loop now cfg = NewTicker (stat_interval (st_saveDuration cfg) 3600) now"

section \<open>A system of loops\<close>

text \<open>
  The loops \<open>'k\<close> run beside the rest of the program on a common state. A run of a loop's body takes effect when it
  ends; \<open>body k\<close> says what it can do, \<open>work\<close> is what the rest of the program does, and \<open>plan k t\<close> the loop that the
  program can start at the time \<open>t\<close>. A panic in a goroutine ends the program.
\<close>

record ('k, 's) timed =
  tm_now :: time
  tm_state :: 's
  tm_loops :: "'k \<Rightarrow> ticker_loop option"
  tm_crashed :: bool

type_synonym 'k plan = "'k \<Rightarrow> time \<Rightarrow> ticker_loop option"
type_synonym ('k, 's) bodies = "'k \<Rightarrow> 's \<Rightarrow> 's outcome \<Rightarrow> bool"

definition timed_start :: "time \<Rightarrow> 's \<Rightarrow> ('k, 's) timed" where
  "timed_start now st = \<lparr>tm_now = now, tm_state = st, tm_loops = Map.empty, tm_crashed = False\<rparr>"

definition set_loop :: "'k \<Rightarrow> ticker_loop \<Rightarrow> ('k, 's) timed \<Rightarrow> ('k, 's) timed" where
  "set_loop k l s = s\<lparr>tm_loops := (tm_loops s)(k \<mapsto> l)\<rparr>"

inductive timed_step :: "'k plan \<Rightarrow> ('k, 's) bodies \<Rightarrow> ('s \<Rightarrow> 's \<Rightarrow> bool) \<Rightarrow> ('k, 's) timed \<Rightarrow> ('k, 's) timed \<Rightarrow> bool"
  for plan body work where
  pass: "\<not> tm_crashed s \<Longrightarrow> tm_now s \<le> t \<Longrightarrow> timed_step plan body work s (s\<lparr>tm_now := t\<rparr>)"
| work: "\<not> tm_crashed s \<Longrightarrow> work (tm_state s) st \<Longrightarrow> timed_step plan body work s (s\<lparr>tm_state := st\<rparr>)"
| launch: "\<not> tm_crashed s \<Longrightarrow> tm_loops s k = None \<Longrightarrow> plan k (tm_now s) = Some l
    \<Longrightarrow> timed_step plan body work s (set_loop k l s)"
| fire: "\<not> tm_crashed s \<Longrightarrow> tm_loops s k = Some l \<Longrightarrow> \<not> tl_stopped l \<Longrightarrow> tl_next l \<le> tm_now s
    \<Longrightarrow> timed_step plan body work s (set_loop k (ticker_fire (tm_now s) l) s)"
| receive: "\<not> tm_crashed s \<Longrightarrow> tm_loops s k = Some l \<Longrightarrow> tl_tick l \<Longrightarrow> \<not> tl_busy l
    \<Longrightarrow> timed_step plan body work s (set_loop k (loop_begin l) s)"
| finish: "\<not> tm_crashed s \<Longrightarrow> tm_loops s k = Some l \<Longrightarrow> tl_busy l \<Longrightarrow> body k (tm_state s) (Return st)
    \<Longrightarrow> timed_step plan body work s (set_loop k (loop_end l) (s\<lparr>tm_state := st\<rparr>))"
| crash: "\<not> tm_crashed s \<Longrightarrow> tm_loops s k = Some l \<Longrightarrow> tl_busy l \<Longrightarrow> body k (tm_state s) Panic
    \<Longrightarrow> timed_step plan body work s (s\<lparr>tm_crashed := True\<rparr>)"
| stop: "\<not> tm_crashed s \<Longrightarrow> tm_loops s k = Some l \<Longrightarrow> timed_step plan body work s (set_loop k (ticker_stop l) s)"

lemmas loop_ops = ticker_fire_def loop_begin_def loop_end_def ticker_stop_def

lemma timed_start_simps [simp]:
  "tm_now (timed_start t0 st) = t0" "tm_state (timed_start t0 st) = st" "tm_loops (timed_start t0 st) k = None"
  "\<not> tm_crashed (timed_start t0 st)"
  by (simp_all add: timed_start_def)

lemma set_loop_simps [simp]:
  "tm_now (set_loop k l s) = tm_now s" "tm_state (set_loop k l s) = tm_state s" "tm_crashed (set_loop k l s) = tm_crashed s"
  "tm_loops (set_loop k l s) k' = (if k' = k then Some l else tm_loops s k')"
  by (simp_all add: set_loop_def)

section \<open>How often a loop runs\<close>

text \<open>Every tick is run, running, waiting or lost, and no two are closer than the period.\<close>

definition loop_ok :: "time \<Rightarrow> ticker_loop \<Rightarrow> bool" where
  "loop_ok now l \<longleftrightarrow> 0 < tl_period l
     \<and> tl_fired l = tl_runs l + (if tl_busy l then 1 else 0) + (if tl_tick l then 1 else 0) + tl_lost l
     \<and> tl_start l + (int (tl_fired l) + 1) * tl_period l \<le> tl_next l \<and> tl_next l \<le> now + tl_period l
     \<and> (tl_stopped l \<longrightarrow> \<not> tl_tick l)"

definition plan_ok :: "'k plan \<Rightarrow> bool" where
  "plan_ok plan \<longleftrightarrow> (\<forall>k t l. plan k t = Some l \<longrightarrow> (\<exists>d > 0. l = new_loop d t))"

definition loops_ok :: "('k, 's) timed \<Rightarrow> bool" where
  "loops_ok s \<longleftrightarrow> (\<forall>k l. tm_loops s k = Some l \<longrightarrow> loop_ok (tm_now s) l)"

lemma new_loop_ok: "0 < d \<Longrightarrow> loop_ok t (new_loop d t)"
  by (simp add: loop_ok_def new_loop_def)

lemma loop_ok_later: "loop_ok now l \<Longrightarrow> now \<le> t \<Longrightarrow> loop_ok t l"
  by (auto simp: loop_ok_def)

lemma fire_ok:
  assumes "loop_ok now l" and "\<not> tl_stopped l" and "tl_next l \<le> now"
  shows "loop_ok now (ticker_fire now l)"
proof -
  let ?p = "tl_period l" and ?q = "(now - tl_next l) div tl_period l"
  have p: "0 < ?p" using assms(1) by (simp add: loop_ok_def)
  then have q: "0 \<le> ?p * ?q" "?p * ?q \<le> now - tl_next l"
    using assms(3) mult_div_mod_eq [of ?p "now - tl_next l"] pos_mod_sign [of ?p "now - tl_next l"]
    by (simp add: pos_imp_zdiv_nonneg_iff, linarith)
  have "(int (Suc (tl_fired l)) + 1) * ?p = (int (tl_fired l) + 1) * ?p + ?p" by (simp add: algebra_simps)
  then show ?thesis
    using assms(1,2) p q unfolding loop_ok_def ticker_fire_def by (auto simp: distrib_left)
qed

lemma begin_ok: "loop_ok now l \<Longrightarrow> tl_tick l \<Longrightarrow> \<not> tl_busy l \<Longrightarrow> loop_ok now (loop_begin l)"
  and end_ok: "loop_ok now l \<Longrightarrow> tl_busy l \<Longrightarrow> loop_ok now (loop_end l)"
  and stop_ok: "loop_ok now l \<Longrightarrow> loop_ok now (ticker_stop l)"
  by (auto simp: loop_ok_def loop_ops)

lemma step_ok: "timed_step plan body work s s' \<Longrightarrow> plan_ok plan \<Longrightarrow> loops_ok s \<Longrightarrow> loops_ok s'"
proof (induction rule: timed_step.induct)
  case (pass s t)
  then show ?case by (auto simp: loops_ok_def intro: loop_ok_later)
next
  case (launch s k l)
  then show ?case using new_loop_ok by (fastforce simp: loops_ok_def plan_ok_def)
qed (auto simp: loops_ok_def intro: fire_ok begin_ok end_ok stop_ok)

lemma steps_ok: "(timed_step plan body work)\<^sup>*\<^sup>* s s' \<Longrightarrow> plan_ok plan \<Longrightarrow> loops_ok s \<Longrightarrow> loops_ok s'"
  by (induction rule: rtranclp_induct) (auto intro: step_ok)

lemma timed_start_ok: "loops_ok (timed_start t0 st)"
  by (simp add: loops_ok_def)

lemma start_ok: "plan_ok plan \<Longrightarrow> (timed_step plan body work)\<^sup>*\<^sup>* (timed_start t0 st) s \<Longrightarrow> loops_ok s"
  by (rule steps_ok [OF _ _ timed_start_ok])

lemma rate_bound:
  assumes "plan_ok plan" and "(timed_step plan body work)\<^sup>*\<^sup>* (timed_start t0 st) s" and "tm_loops s k = Some l"
  shows "int (tl_runs l) * tl_period l \<le> tm_now s - tl_start l" and "int (tl_fired l) * tl_period l \<le> tm_now s - tl_start l"
    and "loop_ok (tm_now s) l"
proof -
  show ok: "loop_ok (tm_now s) l" using start_ok [OF assms(1,2)] assms(3) by (simp add: loops_ok_def)
  then have "tl_start l + (int (tl_fired l) + 1) * tl_period l \<le> tl_next l" "tl_next l \<le> tm_now s + tl_period l"
    unfolding loop_ok_def by blast+
  then have "(int (tl_fired l) + 1) * tl_period l \<le> tm_now s + tl_period l - tl_start l" by linarith
  then show fired: "int (tl_fired l) * tl_period l \<le> tm_now s - tl_start l" by (simp add: distrib_right)
  have "int (tl_runs l) * tl_period l \<le> int (tl_fired l) * tl_period l"
    using ok by (intro mult_right_mono) (simp_all add: loop_ok_def)
  with fired show "int (tl_runs l) * tl_period l \<le> tm_now s - tl_start l" by linarith
qed

text \<open>
  A loop never runs more often than its period allows, whatever the scheduling: every tick is run, running, waiting or lost,
  and there are at most as many ticks as periods since the loop was started.
\<close>

theorem job_rate:
  assumes "plan_ok plan" and "(timed_step plan body work)\<^sup>*\<^sup>* (timed_start t0 st) s" and "tm_loops s k = Some l"
  shows "tl_fired l = tl_runs l + (if tl_busy l then 1 else 0) + (if tl_tick l then 1 else 0) + tl_lost l
    \<and> int (tl_fired l) * tl_period l \<le> tm_now s - tl_start l"
  using rate_bound(2,3) [OF assms] unfolding loop_ok_def by blast

text \<open>A loop keeps the period it was started with.\<close>

lemma loop_origin:
  assumes "\<And>k t l. plan k t = Some l \<Longrightarrow> tl_period l = period k \<and> tl_start l = t"
    and "(timed_step plan body work)\<^sup>*\<^sup>* (timed_start t0 st) s"
  shows "t0 \<le> tm_now s \<and> (\<forall>k l. tm_loops s k = Some l \<longrightarrow> tl_period l = period k \<and> t0 \<le> tl_start l)"
  using assms(2)
proof (induction rule: rtranclp_induct)
  case (step s1 s2)
  from step.hyps(2) step.IH show ?case
    by (induction rule: timed_step.induct) (auto simp: loop_ops dest: assms(1))
qed simp

section \<open>Stopping a loop\<close>

text \<open>
  A stopped job finishes the run it is in and never runs again; but its goroutine does not end: there is no step that removes a loop.
\<close>

theorem job_stopped:
  assumes "plan_ok plan" and "(timed_step plan body work)\<^sup>*\<^sup>* (timed_start t0 st) s" and "(timed_step plan body work)\<^sup>*\<^sup>* s s'"
    and "tm_loops s k = Some l" and "tl_stopped l"
  shows "\<exists>l'. tm_loops s' k = Some l' \<and> tl_stopped l' \<and> \<not> tl_tick l'
    \<and> tl_runs l' + (if tl_busy l' then 1 else 0) = tl_runs l + (if tl_busy l then 1 else 0)"
  using assms(3)
proof (induction rule: rtranclp_induct)
  case base
  have "loop_ok (tm_now s) l" using start_ok [OF assms(1,2)] assms(4) by (simp add: loops_ok_def)
  then show ?case using assms(4,5) by (simp add: loop_ok_def)
next
  case (step s1 s2)
  from step.hyps(2) step.IH show ?case
    by (induction rule: timed_step.induct) (auto simp: loop_ops split: if_splits)
qed

section \<open>Going on\<close>

text \<open>A loop that is neither stopped nor in a program that crashed can always run once more, if its body returns.\<close>

definition runs_again :: "'k plan \<Rightarrow> ('k, 's) bodies \<Rightarrow> ('s \<Rightarrow> 's \<Rightarrow> bool) \<Rightarrow> 'k \<Rightarrow> nat \<Rightarrow> ('k, 's) timed \<Rightarrow> bool" where
  "runs_again plan body work k n s \<longleftrightarrow> (\<exists>s' l'. (timed_step plan body work)\<^sup>*\<^sup>* s s' \<and> \<not> tm_crashed s' \<and> tm_loops s' k = Some l'
     \<and> \<not> tl_stopped l' \<and> tl_runs l' = Suc n)"

lemma again_step: "timed_step plan body work s s' \<Longrightarrow> runs_again plan body work k n s' \<Longrightarrow> runs_again plan body work k n s"
  unfolding runs_again_def by (meson converse_rtranclp_into_rtranclp)

lemma again_busy:
  assumes "\<not> tm_crashed s" and "tm_loops s k = Some l" and "tl_busy l" and "\<not> tl_stopped l" and "body k (tm_state s) (Return st)"
  shows "runs_again plan body work k (tl_runs l) s"
proof -
  let ?s = "set_loop k (loop_end l) (s\<lparr>tm_state := st\<rparr>)"
  have "(timed_step plan body work)\<^sup>*\<^sup>* s ?s" using timed_step.finish assms by (metis r_into_rtranclp)
  moreover have "\<not> tm_crashed ?s \<and> tm_loops ?s k = Some (loop_end l) \<and> \<not> tl_stopped (loop_end l) \<and> tl_runs (loop_end l) = Suc (tl_runs l)"
    using assms(1,4) by (simp add: loop_end_def)
  ultimately show ?thesis unfolding runs_again_def by blast
qed

lemma again_tick:
  assumes "\<not> tm_crashed s" and "tm_loops s k = Some l" and "tl_tick l" and "\<not> tl_busy l" and "\<not> tl_stopped l"
    and "\<And>st. \<exists>st'. body k st (Return st')"
  shows "runs_again plan body work k (tl_runs l) s"
proof -
  obtain st where st: "body k (tm_state s) (Return st)" using assms(6) by blast
  have "timed_step plan body work s (set_loop k (loop_begin l) s)" using assms by (intro timed_step.receive)
  moreover have "runs_again plan body work k (tl_runs (loop_begin l)) (set_loop k (loop_begin l) s)"
    by (rule again_busy) (use assms st in \<open>simp_all add: loop_begin_def\<close>)
  ultimately show ?thesis by (simp add: loop_begin_def again_step)
qed

theorem job_again:
  assumes "\<not> tm_crashed s" and "tm_loops s k = Some l" and "\<not> tl_stopped l" and "\<And>st. \<exists>st'. body k st (Return st')"
  shows "runs_again plan body work k (tl_runs l) s"
proof -
  consider "tl_busy l" | "\<not> tl_busy l" "tl_tick l" | "\<not> tl_busy l" "\<not> tl_tick l" by blast
  then show ?thesis
  proof cases
    case 1
    with assms again_busy show ?thesis by metis
  next
    case 2
    show ?thesis by (rule again_tick) (use 2 assms in simp_all)
  next
    case 3
    let ?t = "max (tm_now s) (tl_next l)"
    let ?s = "s\<lparr>tm_now := ?t\<rparr>" and ?l = "ticker_fire ?t l"
    have "timed_step plan body work s ?s" using assms(1) by (intro timed_step.pass) simp_all
    moreover have "timed_step plan body work ?s (set_loop k ?l ?s)"
      using timed_step.fire [of ?s k l] assms(1-3) by simp
    moreover have "runs_again plan body work k (tl_runs ?l) (set_loop k ?l ?s)"
      by (rule again_tick) (use 3 assms in \<open>simp_all add: ticker_fire_def\<close>)
    ultimately show ?thesis by (simp add: ticker_fire_def again_step)
  qed
qed

section \<open>What the loops keep\<close>

text \<open>
  An interface: bodies and work that keep an invariant of the state, and bodies that do not panic where it holds. The
  program then never crashes and keeps the invariant, however the loops are scheduled.
\<close>

locale safe_jobs =
  fixes body :: "('k, 's) bodies" and work :: "'s \<Rightarrow> 's \<Rightarrow> bool" and inv :: "'s \<Rightarrow> bool"
  assumes body_keeps: "inv st \<Longrightarrow> body k st (Return st') \<Longrightarrow> inv st'"
    and body_safe: "inv st \<Longrightarrow> \<not> body k st Panic"
    and work_keeps: "inv st \<Longrightarrow> work st st' \<Longrightarrow> inv st'"
begin

lemma step_safe:
  "timed_step plan body work s s' \<Longrightarrow> inv (tm_state s) \<and> \<not> tm_crashed s \<Longrightarrow> inv (tm_state s') \<and> \<not> tm_crashed s'"
  by (induction rule: timed_step.induct) (auto intro: body_keeps work_keeps dest: body_safe)

lemma steps_safe:
  "(timed_step plan body work)\<^sup>*\<^sup>* s s' \<Longrightarrow> inv (tm_state s) \<Longrightarrow> \<not> tm_crashed s \<Longrightarrow> inv (tm_state s') \<and> \<not> tm_crashed s'"
  by (induction rule: rtranclp_induct) (auto dest: step_safe)

lemma started_safe: "(timed_step plan body work)\<^sup>*\<^sup>* (timed_start t0 st) s \<Longrightarrow> inv st \<Longrightarrow> inv (tm_state s) \<and> \<not> tm_crashed s"
  using steps_safe [of plan "timed_start t0 st" s] by simp

end

section \<open>The loops the program starts\<close>

text \<open>A job of the synchroniser has a ticker whatever interval it was given, and so have the loops of the statistics once these have started; only
  the loop of the breaker can wait for ever.\<close>

lemma job_ticker: "js_syncTime j = js_syncTime (NewJobSyncer name d) \<Longrightarrow> \<exists>d' > 0. JobSyncer_loop now j = Return (new_loop d' now)"
  by (intro exI [of _ "js_syncTime j"]) (auto simp: JobSyncer_loop_def NewTicker_def NewJobSyncer_def Second_def wrap64_def)

lemma fixed_tickers:
  "cleanup_loop now = Return (new_loop (5 * Minute) now)" "flushBuffer_loop now = Return (new_loop (30 * Second) now)"
  "cleanupCache_loop now = Return (new_loop Minute now)"
  by (simp_all add: cleanup_loop_def flushBuffer_loop_def cleanupCache_loop_def NewTicker_def Minute_def Second_def)

lemma stat_tickers:
  assumes "InitStatSyncer unmarshal order cfg fs db st = Return res" and "st_enableStat cfg"
  shows "\<exists>d > 0. sync_stat_loop now cfg = Return (new_loop d now)" and "\<exists>d > 0. save_stat_loop now cfg = Return (new_loop d now)"
proof -
  have "0 < stat_interval (st_syncDuration cfg) 60" "0 < stat_interval (st_saveDuration cfg) 3600"
    using assms by (auto simp: InitStatSyncer_def bind_outcome_Return split: if_splits)
  then show "\<exists>d > 0. sync_stat_loop now cfg = Return (new_loop d now)" "\<exists>d > 0. save_stat_loop now cfg = Return (new_loop d now)"
    unfolding sync_stat_loop_def save_stat_loop_def NewTicker_def by force+
qed

lemma breaker_never_reset: "brk_reset (br_cf b) = 0 \<Longrightarrow> Breaker_Reset_loop now b = None"
  by (simp add: Breaker_Reset_loop_def time_Tick_def wrap64_def)

end
