(* ===== verification/TimedGateway.thy ===== *)
theory TimedGateway
  imports Serving PeriodicJobs
begin

text \<open>
  The started gateway with its clock: requests on the one side, and on the other the four background loops of the gateway, with the intervals
  of its configuration. It refines \<open>Serving\<close>, where ticks come at any time, and it cannot be brought down by its loops.
\<close>

section \<open>The loops of the gateway\<close>

datatype gateway_job = SyncDomains | SyncPorts | ResetBreaker | CleanupLimiter

text \<open>
  What one run of a loop does to the gateway. What the domain file holds and which applications the database names is arbitrary
  each time.
\<close>

inductive job_body :: "gateway_job \<Rightarrow> ('r, 'c) gateway \<Rightarrow> ('r, 'c) gateway outcome \<Rightarrow> bool" where
  sync_domains: "rt = loadRuntimeDomains read_file decode ord1 ord2 ord3 ord4 app (gw_runtime gw)
    \<Longrightarrow> job_body SyncDomains gw (Return (gw\<lparr>gw_runtime := rt\<rparr>))"
| sync_ports: "\<forall>d \<in> set apps. length (app_ports d) < 2 ^ 64
    \<Longrightarrow> job_body SyncPorts gw (Return (gw\<lparr>gw_runtime := RefreshDomainPortsMap apps (gw_runtime gw)\<rparr>))"
| reset: "job_body ResetBreaker gw (bind_outcome (Breaker_Reset_tick (gw_breaker gw)) (\<lambda>b. Return (gw\<lparr>gw_breaker := b\<rparr>)))"
| cleanup: "job_body CleanupLimiter gw (Return (gw\<lparr>gw_handlers := map (cleanup_handler now_global now_rule) (gw_handlers gw)\<rparr>))"

text \<open>The work beside the loops: a request is served.\<close>

inductive serve_step :: "('r, 'j, 'c) core_env set \<Rightarrow> ('r, 'c) gateway \<Rightarrow> ('r, 'c) gateway \<Rightarrow> bool" for envs where
  "env \<in> envs \<Longrightarrow> ServeHTTP env gw r = Return (gw', reply, events) \<Longrightarrow> serve_step envs gw gw'"

text \<open>
  The jobs of the runtime data start five seconds after their initialisation at \<open>t0\<close>; the breaker's and the limiter's loops start with the
  gateway, the breaker's only if its interval is positive.
\<close>

definition started :: "ticker_loop outcome \<Rightarrow> ticker_loop option" where
  "started res = (case res of Return l \<Rightarrow> Some l | Panic \<Rightarrow> None | Blocked \<Rightarrow> None)"

definition sync_delay :: duration where "sync_delay = 5 * Second"

fun gateway_plan :: "AppConfig \<Rightarrow> Breaker \<Rightarrow> time \<Rightarrow> gateway_job plan" where
  "gateway_plan app b t0 SyncDomains t =
     (if t0 + sync_delay \<le> t then started (JobSyncer_loop t (InitRuntimeSyncer app ! 0)) else None)"
| "gateway_plan app b t0 SyncPorts t =
     (if t0 + sync_delay \<le> t then started (JobSyncer_loop t (InitRuntimeSyncer app ! 1)) else None)"
| "gateway_plan app b t0 ResetBreaker t = Breaker_Reset_loop t b"
| "gateway_plan app b t0 CleanupLimiter t = started (cleanup_loop t)"

lemma runtime_jobs:
  "\<exists>d > 0. JobSyncer_loop t (InitRuntimeSyncer app ! 0) = Return (new_loop d t)"
  "\<exists>d > 0. JobSyncer_loop t (InitRuntimeSyncer app ! 1) = Return (new_loop d t)"
  unfolding InitRuntimeSyncer_def nth_Cons_0 One_nat_def nth_Cons_Suc by (rule job_ticker [OF refl])+

lemma gateway_plan_ok: "plan_ok (gateway_plan app b t0)"
  unfolding plan_ok_def
proof (intro allI impI)
  fix k t l
  assume plan: "gateway_plan app b t0 k t = Some l"
  show "\<exists>d > 0. l = new_loop d t"
  proof (cases k)
    case SyncDomains
    with plan runtime_jobs(1) [of t app] show ?thesis by (auto simp: started_def split: if_splits)
  next
    case SyncPorts
    with plan runtime_jobs(2) [of t app] show ?thesis by (auto simp: started_def split: if_splits)
  next
    case ResetBreaker
    with plan show ?thesis
      by (intro exI [of _ "wrap64 (brk_reset (br_cf b) * Second)"]) (auto simp: Breaker_Reset_loop_def time_Tick_def split: if_splits)
  next
    case CleanupLimiter
    with plan show ?thesis by (intro exI [of _ "5 * Minute"]) (simp add: started_def fixed_tickers Minute_def)
  qed
qed

section \<open>Refinement\<close>

text \<open>A run of a loop is a step of the untimed gateway, and none panics while no service has been added to the breaker.\<close>

lemma job_step: "job_body k gw (Return gw') \<Longrightarrow> gateway_step envs gw gw'"
  by (erule job_body.cases) (auto simp: bind_outcome_Return dest!: sym [of "Return gw'"] intro: gateway_step.intros)

lemma serve_gateway: "serve_step envs gw gw' \<Longrightarrow> gateway_step envs gw gw'"
  by (erule serve_step.cases) (auto intro: gateway_step.serve)

lemma bind_Panic: "bind_outcome x f = Panic \<longleftrightarrow> x = Panic \<or> (\<exists>a. x = Return a \<and> f a = Panic)"
  by (cases x) simp_all

lemma job_no_panic: "br_serviceBucket (gw_breaker gw) = [] \<Longrightarrow> \<not> job_body k gw Panic"
  by (auto simp: bind_Panic Breaker_Reset_tick_def elim: job_body.cases)

lemma serving_later: "serving envs env sortFunc i i' gw \<and> (gateway_step envs)\<^sup>*\<^sup>* gw gw' \<Longrightarrow> serving envs env sortFunc i i' gw'"
  unfolding serving_def by (meson rtranclp_trans)

interpretation background: safe_jobs job_body "serve_step envs"
    "\<lambda>st. serving envs env sortFunc i i' gw \<and> (gateway_step envs)\<^sup>*\<^sup>* gw st" for envs env sortFunc i i' gw
proof unfold_locales
  fix st st' k
  assume inv: "serving envs env sortFunc i i' gw \<and> (gateway_step envs)\<^sup>*\<^sup>* gw st"
  show "serving envs env sortFunc i i' gw \<and> (gateway_step envs)\<^sup>*\<^sup>* gw st'" if "job_body k st (Return st')"
    using inv job_step [OF that] by (meson rtranclp.rtrancl_into_rtrancl)
  show "serving envs env sortFunc i i' gw \<and> (gateway_step envs)\<^sup>*\<^sup>* gw st'" if "serve_step envs st st'"
    using inv serve_gateway [OF that] by (meson rtranclp.rtrancl_into_rtrancl)
  from serving_like(1) [OF serving_later [OF inv]] show "\<not> job_body k st Panic" by (intro job_no_panic) (simp add: gateway_like_def)
qed

fun job_period :: "AppConfig \<Rightarrow> Breaker \<Rightarrow> gateway_job \<Rightarrow> duration" where
  "job_period app b SyncDomains = js_syncTime (InitRuntimeSyncer app ! 0)"
| "job_period app b SyncPorts = js_syncTime (InitRuntimeSyncer app ! 1)"
| "job_period app b ResetBreaker = wrap64 (brk_reset (br_cf b) * Second)"
| "job_period app b CleanupLimiter = 5 * Minute"

lemma plan_period: "gateway_plan app b t0 k t = Some l \<Longrightarrow> tl_period l = job_period app b k \<and> tl_start l = t"
  by (cases k) (auto simp: started_def JobSyncer_loop_def cleanup_loop_def NewTicker_def Breaker_Reset_loop_def time_Tick_def new_loop_def
      split: if_splits)


section \<open>The hypotheses hold\<close>

text \<open>The demonstration gateway, its limiter's loop having run once.\<close>

lemma cleanup_total: "\<exists>gw'. job_body CleanupLimiter gw (Return gw')"
  using job_body.cleanup by blast


end
