(* ===== verification/GatewayLife.thy ===== *)
theory GatewayLife
  imports Startup
begin

text \<open>
  The life of a gateway process (\<open>app/app.go\<close>, \<open>app/cli/root.go\<close>): loading the configuration, the pid file, the three goroutines of
  \<open>Run\<close>, the handler of the termination signal, and the command that reloads the service. A process is a record; its goroutines
  are the steps of a relation. The file system, signals, the clock and the parser
  of the command line are parameters.
\<close>

section \<open>The application\<close>

record ('l, 'c) HamburgerApp =
  ha_appConf :: AppConfig
  ha_conf :: Config
  ha_pidFile :: string
  ha_FrontServer :: "HeliosServer option"
  ha_BackendServer :: "BackendProxy option"
  ha_Gateway :: "Proxy option"
  ha_Manager :: "'l manager option"
  ha_GrpcProxy :: "'c InternalGrpcProxy option"
  ha_StatServer :: "StatServer option"

text \<open>
  What a launch depends on: reading files and decoding the three kinds of configuration; writing the pid file, that is the error and
  what the file holds afterwards; and what initialisation needs.
\<close>

record ('l, 'r, 'c) launch_env =
  la_read :: "string \<Rightarrow> string option"
  la_json :: "AppConfig decoder"
  la_toml :: "AppConfig decoder"
  la_front :: "string \<Rightarrow> PxyFrontConfig \<times> bool"
  la_back :: "string \<Rightarrow> PxyBackendConfig \<times> bool"
  la_write :: "string \<Rightarrow> string option \<times> string option"
  la_init :: "('l, 'r, 'c) init_env"
  la_sort :: "Runner list \<Rightarrow> Runner list"
  la_fresh :: "('l, 'r, 'c) Initializer"

definition NewHamburgerApp :: "('l, 'r, 'c) launch_env \<Rightarrow> string \<Rightarrow> ('l, 'c) HamburgerApp option" where
  "NewHamburgerApp env configFile =
     (let configFile = (if configFile = [] then ''config.json'' else configFile)
      in case LoadConfig (la_read env) (la_json env) (la_toml env) configFile of
           (appCfg, err) \<Rightarrow>
             if err then None
             else Some \<lparr>ha_appConf = the appCfg, ha_conf = the (Merge (la_front env) (la_back env) appCfg), ha_pidFile = [],
                    ha_FrontServer = None, ha_BackendServer = None, ha_Gateway = None, ha_Manager = None,
                    ha_GrpcProxy = None, ha_StatServer = None\<rparr>)"

definition SetPidFile :: "string \<Rightarrow> ('l, 'c) HamburgerApp \<Rightarrow> ('l, 'c) HamburgerApp" where
  "SetPidFile file app = app\<lparr>ha_pidFile := file\<rparr>"

definition app_init_env :: "('l, 'r, 'c) launch_env \<Rightarrow> ('l, 'c) HamburgerApp \<Rightarrow> ('l, 'r, 'c) init_env" where
  "app_init_env env app = (la_init env)\<lparr>ie_appConf := ha_appConf app, ie_cfg := ha_conf app\<rparr>"

definition InitApp :: "('l, 'r, 'c) launch_env \<Rightarrow> ('l, 'c) HamburgerApp \<Rightarrow> (string + ('l, 'c) HamburgerApp) outcome" where
  "InitApp env app =
     bind_outcome (Initialize (app_init_env env app) (la_sort env) (la_fresh env)) (\<lambda>(i, err).
       case err of
         Some e \<Rightarrow> Return (Inl e)
       | None \<Rightarrow> Return (Inr (app\<lparr>ha_FrontServer := it_FrontServer i, ha_BackendServer := it_BackendServer i, ha_Gateway := it_Gateway i,
                       ha_Manager := it_Manager i, ha_GrpcProxy := it_GrpcProxy i, ha_StatServer := it_StatServer i\<rparr>)))"

section \<open>Processes\<close>

text \<open>Where the goroutine that handles the termination signal is.\<close>

datatype handler_stage = Listening | Stuck | Stopped "string option" | Removed "string option"

text \<open>A process: its application's servers, the pid file, which goroutines of \<open>Run\<close> have ended, and its exit code once it has one.\<close>

record 'l process =
  ps_FrontServer :: HeliosServer
  ps_Manager :: "'l manager"
  ps_StatServer :: StatServer
  ps_path :: string
  ps_pidFile :: "string option"
  ps_front :: bool
  ps_manager :: bool
  ps_stat :: bool
  ps_returned :: bool
  ps_signal :: handler_stage
  ps_exit :: "int option"

text \<open>What comes of a command that runs the gateway: an error before the process owns the pid file, an exit during initialisation, or a running process.\<close>

datatype 'l launched = NotStarted "string option" | Exited int "string option" | Hangs "string option" | Running "'l process"

definition removePidFile :: "'l process \<Rightarrow> 'l process" where
  "removePidFile p = (if ps_path p = [] then p else p\<lparr>ps_pidFile := None\<rparr>)"

text \<open>\<open>Run\<close> up to its goroutines. A fatal log entry exits with 1; the status report dereferences the three servers, and a panic exits with 2.\<close>

definition Run :: "('l, 'r, 'c) launch_env \<Rightarrow> string option \<Rightarrow> ('l, 'c) HamburgerApp \<Rightarrow> 'l launched" where
  "Run env pidFile app =
     (case InitApp env app of
        Panic \<Rightarrow> Exited 2 pidFile
      | Blocked \<Rightarrow> Hangs pidFile
      | Return (Inl err) \<Rightarrow> Exited 1 pidFile
      | Return (Inr app) \<Rightarrow>
          (case (ha_FrontServer app, ha_BackendServer app, ha_Manager app) of
             (Some front, Some back, Some mgr) \<Rightarrow>
               Running \<lparr>ps_FrontServer = front, ps_Manager = mgr, ps_StatServer = the (ha_StatServer app), ps_path = ha_pidFile app,
                 ps_pidFile = pidFile, ps_front = False, ps_manager = False, ps_stat = False, ps_returned = False,
                 ps_signal = Listening, ps_exit = None\<rparr>
           | _ \<Rightarrow> Exited 2 pidFile))"

definition pidFileName :: string where
  "pidFileName = ''hamburger.pid''"

definition writePid :: "('l, 'r, 'c) launch_env \<Rightarrow> int \<Rightarrow> string option \<times> string option" where
  "writePid env pid = la_write env (itoa pid)"

definition runWithConfig :: "('l, 'r, 'c) launch_env \<Rightarrow> int \<Rightarrow> string option \<Rightarrow> string \<Rightarrow> 'l launched" where
  "runWithConfig env pid old configFile =
     (case NewHamburgerApp env configFile of
        None \<Rightarrow> NotStarted old
      | Some app \<Rightarrow>
          (case writePid env pid of
             (Some err, pidFile) \<Rightarrow> NotStarted pidFile
           | (None, pidFile) \<Rightarrow> Run env pidFile (SetPidFile pidFileName app)))"

section \<open>Goroutines\<close>

text \<open>The three goroutines of \<open>Run\<close>; a server that fails to start is fatal.\<close>

definition front_ended :: "(string \<Rightarrow> string option) \<Rightarrow> 'l process \<Rightarrow> 'l process" where
  "front_ended run p =
     (case Front_Start run (ps_FrontServer p) of Some err \<Rightarrow> p\<lparr>ps_exit := Some 1\<rparr> | None \<Rightarrow> p\<lparr>ps_front := True\<rparr>)"

definition manager_started :: "'l manager_env \<Rightarrow> 'l process \<Rightarrow> 'l process" where
  "manager_started env p =
     (case Manager_Start env (ps_Manager p) of
        (m, Some err) \<Rightarrow> p\<lparr>ps_Manager := m, ps_exit := Some 1\<rparr>
      | (m, None) \<Rightarrow> p\<lparr>ps_Manager := m, ps_manager := True\<rparr>)"

definition stat_started :: "'l process \<Rightarrow> 'l process" where
  "stat_started p =
     (case StatServer_Start (ps_StatServer p) of
        (s, Some err) \<Rightarrow> p\<lparr>ps_StatServer := s, ps_exit := Some 1\<rparr>
      | (s, None) \<Rightarrow> p\<lparr>ps_StatServer := s, ps_stat := True\<rparr>)"

text \<open>
  The handler of \<open>LifeCycle\<close>, after it received the signal: it stops the manager, which may wait for ever after it has shut
  the servers down; later it removes the pid file, and then exits.
\<close>

definition received :: "'l process \<Rightarrow> 'l process" where
  "received p =
     (let p = p\<lparr>ps_FrontServer := Front_Shutdown (ps_FrontServer p)\<rparr>; m = ps_Manager p
      in case Manager_Stop m of
           Return (m, err) \<Rightarrow> p\<lparr>ps_Manager := m, ps_signal := Stopped err\<rparr>
         | _ \<Rightarrow> p\<lparr>ps_Manager := fold (\<lambda>(name, inst). run_ends (in_id inst) None) (mg_servers m) m, ps_signal := Stuck\<rparr>)"

inductive app_step :: "'l manager_env \<Rightarrow> (string \<Rightarrow> string option) \<Rightarrow> 'l process \<Rightarrow> 'l process \<Rightarrow> bool" for env run where
  front: "ps_exit p = None \<Longrightarrow> \<not> ps_front p \<Longrightarrow> app_step env run p (front_ended run p)"
| manager: "ps_exit p = None \<Longrightarrow> \<not> ps_manager p \<Longrightarrow> ps_signal p \<noteq> Stuck \<Longrightarrow> app_step env run p (manager_started env p)"
| stat: "ps_exit p = None \<Longrightarrow> \<not> ps_stat p \<Longrightarrow> app_step env run p (stat_started p)"
| begins: "ps_exit p = None \<Longrightarrow> app_step env run p (p\<lparr>ps_Manager := run_begins i (ps_Manager p)\<rparr>)"
| fails: "ps_exit p = None \<Longrightarrow> i \<in> set (mg_serving (ps_Manager p))
    \<Longrightarrow> app_step env run p (p\<lparr>ps_Manager := run_ends i (Some err) (ps_Manager p)\<rparr>)"
| hook: "ps_exit p = None \<Longrightarrow> tg_beforeAutoCert (mg_tlsManager (ps_Manager p)) = Some k \<or> tg_afterAutoCert (mg_tlsManager (ps_Manager p)) = Some k
    \<Longrightarrow> app_step env run p (p\<lparr>ps_Manager := fst (run_hook env k (ps_Manager p))\<rparr>)"
| waited: "ps_exit p = None \<Longrightarrow> ps_front p \<Longrightarrow> ps_manager p \<Longrightarrow> ps_stat p \<Longrightarrow> \<not> ps_returned p
    \<Longrightarrow> app_step env run p ((removePidFile p)\<lparr>ps_returned := True\<rparr>)"
| main_ends: "ps_exit p = None \<Longrightarrow> ps_returned p \<Longrightarrow> app_step env run p (p\<lparr>ps_exit := Some 0\<rparr>)"
| signal: "ps_exit p = None \<Longrightarrow> ps_signal p = Listening \<Longrightarrow> app_step env run p (received p)"
| removes: "ps_exit p = None \<Longrightarrow> ps_signal p = Stopped err \<Longrightarrow> app_step env run p ((removePidFile p)\<lparr>ps_signal := Removed err\<rparr>)"
| exits: "ps_exit p = None \<Longrightarrow> ps_signal p = Removed err \<Longrightarrow> app_step env run p (p\<lparr>ps_exit := Some 0\<rparr>)"

section \<open>The reload command\<close>

definition readPid :: "string option \<Rightarrow> int option" where
  "readPid contents = Option.bind contents atoi"

text \<open>
  The loop of \<open>waitPidFileRemoved\<close>: \<open>clock i\<close> is what the clock shows when the condition is tested for the \<open>i\<close>-th time, \<open>gone i\<close> whether
  the file does not exist at the poll that follows. The result is the error; the loop may not end when the clock does not move.
\<close>

partial_function (option) wait_loop :: "(nat \<Rightarrow> int) \<Rightarrow> (nat \<Rightarrow> bool) \<Rightarrow> int \<Rightarrow> nat \<Rightarrow> string option option" where
  "wait_loop clock gone deadline i =
     (if clock i < deadline
      then (if gone i then Some None else wait_loop clock gone deadline (Suc i))
      else Some (Some ''timeout waiting for process shutdown''))"

definition waitPidFileRemoved :: "(nat \<Rightarrow> int) \<Rightarrow> (nat \<Rightarrow> bool) \<Rightarrow> duration \<Rightarrow> string option option" where
  "waitPidFileRemoved clock gone timeout = wait_loop clock gone (clock 0 + timeout) 1"

record reload_env =
  re_find :: "int \<Rightarrow> string option"
  re_signal :: "int \<Rightarrow> string option"
  re_clock :: "nat \<Rightarrow> int"
  re_exe :: "string + string"
  re_exec :: "string \<Rightarrow> string list \<Rightarrow> string option"

definition signalProcess :: "reload_env \<Rightarrow> int \<Rightarrow> string option" where
  "signalProcess env pid = (case re_find env pid of Some err \<Rightarrow> Some err | None \<Rightarrow> re_signal env pid)"

text \<open>Starting a new process: the command line, if there is an executable, and the error.\<close>

definition startNewProcess :: "reload_env \<Rightarrow> string \<Rightarrow> string list list \<times> string option" where
  "startNewProcess env configFile =
     (case re_exe env of
        Inl err \<Rightarrow> ([], Some err)
      | Inr exe \<Rightarrow> ([[exe, ''run'', ''--config'', configFile]], re_exec env exe [''run'', ''--config'', configFile]))"

text \<open>What the reload command does: which process it signals, which commands it starts, and its error.\<close>

definition reload_cmd ::
    "reload_env \<Rightarrow> string option \<Rightarrow> (nat \<Rightarrow> bool) \<Rightarrow> string \<Rightarrow> (int list \<times> string list list \<times> string option) option" where
  "reload_cmd env pidFile gone configFile =
     (case readPid pidFile of
        None \<Rightarrow> Some ([], [], Some ''no pid'')
      | Some pid \<Rightarrow>
          (case signalProcess env pid of
             Some err \<Rightarrow> Some ([pid], [], Some err)
           | None \<Rightarrow>
               (case waitPidFileRemoved (re_clock env) gone (30 * Second) of
                  None \<Rightarrow> None
                | Some (Some err) \<Rightarrow> Some ([pid], [], Some err)
                | Some None \<Rightarrow> (case startNewProcess env configFile of (started, err) \<Rightarrow> Some ([pid], started, err)))))"

section \<open>The other commands\<close>

text \<open>\<open>generate\<close> writes the default configuration, \<open>test\<close> loads one; an error of any command makes the program exit with 1.\<close>

definition CreateConfig :: "(AppConfig \<Rightarrow> string + string) \<Rightarrow> (string \<Rightarrow> string \<Rightarrow> string option) \<Rightarrow> string option" where
  "CreateConfig marshal write =
     (case marshal GetDefaultConfig of Inl err \<Rightarrow> Some err | Inr data \<Rightarrow> write ''config.default.json'' data)"

definition test_cmd :: "('l, 'r, 'c) launch_env \<Rightarrow> string \<Rightarrow> string option" where
  "test_cmd env configFile =
     (case LoadConfig (la_read env) (la_json env) (la_toml env) configFile of (c, err) \<Rightarrow> if err then None else Some ''config ok'')"

definition main_exit :: "string option \<Rightarrow> int" where
  "main_exit err = (case err of None \<Rightarrow> 0 | Some e \<Rightarrow> 1)"

text \<open>A configuration that passes the test can be loaded by a launch, and so can the generated one when decoding inverts encoding.\<close>

lemma tested_loads: "test_cmd env configFile = Some msg \<Longrightarrow> configFile \<noteq> [] \<Longrightarrow> NewHamburgerApp env configFile \<noteq> None"
  by (auto simp: test_cmd_def NewHamburgerApp_def Let_def split: prod.splits if_splits)

lemma generated_passes:
  assumes "marshal GetDefaultConfig = Inr data" and "la_read env ''config.default.json'' = Some data" and "la_json env data = (GetDefaultConfig, False)"
  shows "test_cmd env ''config.default.json'' = Some ''config ok''"
proof -
  have "pathExt ''config.default.json'' = ''.json''" by code_simp
  with assms show ?thesis by (simp add: test_cmd_def LoadConfig_def)
qed

section \<open>The command line\<close>

text \<open>The commands under the root command and the function each runs; cobra looks a command up and parses the flag \<open>--config\<close>.\<close>

datatype command = RootCmd | GenerateCmd | RunCmd | TestCmd | ReloadCmd

definition defaultConfigPath :: string where
  "defaultConfigPath = ''config/config.json''"

definition newRootCmd :: "(string \<times> command) list" where
  "newRootCmd = [(''generate'', GenerateCmd), (''run'', RunCmd), (''test'', TestCmd), (''reload'', ReloadCmd)]"

type_synonym cobra = "(string \<times> command) list \<Rightarrow> string list \<Rightarrow> string + command \<times> string option"

definition config_flag :: "string option \<Rightarrow> string" where
  "config_flag flag = (case flag of None \<Rightarrow> defaultConfigPath | Some path \<Rightarrow> path)"

text \<open>What the commands act on: a new process with its number, the pid file there is, whether a poll finds it gone, the encoder and writing.\<close>

record ('l, 'r, 'c) shell =
  sh_launch :: "('l, 'r, 'c) launch_env"
  sh_reload :: reload_env
  sh_pid :: int
  sh_pidFile :: "string option"
  sh_gone :: "nat \<Rightarrow> bool"
  sh_marshal :: "AppConfig \<Rightarrow> string + string"
  sh_write :: "string \<Rightarrow> string \<Rightarrow> string option"

datatype 'l executed =
  Unknown string
| Launched "'l launched"
| Generated "string option"
| Tested "string option"
| Reloaded "(int list \<times> string list list \<times> string option) option"

fun run_command :: "('l, 'r, 'c) shell \<Rightarrow> string \<Rightarrow> command \<Rightarrow> 'l executed" where
  "run_command sh configFile RootCmd = Launched (runWithConfig (sh_launch sh) (sh_pid sh) (sh_pidFile sh) configFile)"
| "run_command sh configFile GenerateCmd = Generated (CreateConfig (sh_marshal sh) (sh_write sh))"
| "run_command sh configFile RunCmd = Launched (runWithConfig (sh_launch sh) (sh_pid sh) (sh_pidFile sh) configFile)"
| "run_command sh configFile TestCmd = Tested (test_cmd (sh_launch sh) configFile)"
| "run_command sh configFile ReloadCmd = Reloaded (reload_cmd (sh_reload sh) (sh_pidFile sh) (sh_gone sh) configFile)"

definition Execute :: "cobra \<Rightarrow> ('l, 'r, 'c) shell \<Rightarrow> string list \<Rightarrow> 'l executed" where
  "Execute parse sh args =
     (case parse newRootCmd args of Inl err \<Rightarrow> Unknown err | Inr (cmd, flag) \<Rightarrow> run_command sh (config_flag flag) cmd)"

text \<open>
  The process that a reload starts runs the gateway with the configuration of the reload's command line, which need not be the one that the
  old process was started with: without a flag it is the default one.
\<close>

lemma reload_starts_run:
  assumes "Execute parse sh args = Reloaded (Some (pids, cmds, err))" and "cmd \<in> set cmds"
    and flag: "\<And>path. parse newRootCmd [''run'', ''--config'', path] = Inr (RunCmd, Some path)"
  shows "\<exists>flag. parse newRootCmd args = Inr (ReloadCmd, flag)
    \<and> Execute parse sh' (tl cmd) = Launched (runWithConfig (sh_launch sh') (sh_pid sh') (sh_pidFile sh') (config_flag flag))"
proof -
  obtain c flag where c: "parse newRootCmd args = Inr (c, flag)" "run_command sh (config_flag flag) c = Reloaded (Some (pids, cmds, err))"
    using assms(1) by (auto simp: Execute_def split: sum.splits)
  then have "c = ReloadCmd" by (cases c) simp_all
  with c have "reload_cmd (sh_reload sh) (sh_pidFile sh) (sh_gone sh) (config_flag flag) = Some (pids, cmds, err)" by simp
  then have "tl cmd = [''run'', ''--config'', config_flag flag]"
    using assms(2) by (auto simp: reload_cmd_def startNewProcess_def split: option.splits prod.splits sum.splits)
  with c(1) \<open>c = ReloadCmd\<close> show ?thesis by (simp add: Execute_def flag config_flag_def)
qed

section \<open>Waiting\<close>

text \<open>A sleep takes at least as long as it says, and the clock never goes back.\<close>

definition Millisecond :: duration where
  "Millisecond = 1000000"

definition polls_spaced :: "(nat \<Rightarrow> int) \<Rightarrow> bool" where
  "polls_spaced clock \<longleftrightarrow> clock 0 \<le> clock 1 \<and> (\<forall>i \<ge> 1. clock i + 500 * Millisecond \<le> clock (Suc i))"

lemma polls_mono:
  assumes "polls_spaced clock" and "1 \<le> i"
  shows "clock i + int n * (500 * Millisecond) \<le> clock (i + n)"
proof (induction n)
  case (Suc n)
  have "clock (i + n) + 500 * Millisecond \<le> clock (Suc (i + n))" using assms by (simp add: polls_spaced_def)
  with Suc show ?case by (simp add: algebra_simps)
qed simp

lemma later_poll: "\<not> P i \<Longrightarrow> (\<exists>k \<ge> i. P k) \<longleftrightarrow> (\<exists>k \<ge> Suc i. P k)" for i :: nat
  by (metis Suc_leD Suc_leI le_neq_implies_less)

lemma wait_result:
  assumes "polls_spaced clock" and "1 \<le> i"
  shows "wait_loop clock gone deadline i =
    Some (if \<exists>k \<ge> i. clock k < deadline \<and> gone k then None else Some ''timeout waiting for process shutdown'')"
  using assms(2)
proof (induction "nat (deadline - clock i)" arbitrary: i rule: less_induct)
  case less
  show ?case
  proof (cases "clock i < deadline \<and> \<not> gone i")
    case True
    have "clock i < clock (Suc i)" using polls_mono [OF assms(1) less.prems, of 1] by (simp add: Millisecond_def)
    then have "wait_loop clock gone deadline (Suc i) =
        Some (if \<exists>k \<ge> Suc i. clock k < deadline \<and> gone k then None else Some ''timeout waiting for process shutdown'')"
      using True less.prems by (intro less.hyps) auto
    moreover have "(\<exists>k \<ge> i. clock k < deadline \<and> gone k) \<longleftrightarrow> (\<exists>k \<ge> Suc i. clock k < deadline \<and> gone k)"
      using later_poll [of "\<lambda>k. clock k < deadline \<and> gone k" i] True by blast
    moreover have "wait_loop clock gone deadline i = wait_loop clock gone deadline (Suc i)"
      using True by (subst wait_loop.simps) simp
    ultimately show ?thesis by (simp only:)
  next
    case False
    have "\<not> clock k < deadline" if "i \<le> k" "\<not> clock i < deadline" for k
    proof -
      have "0 \<le> int (k - i) * (500 * Millisecond)" by (simp add: Millisecond_def)
      moreover have "clock i + int (k - i) * (500 * Millisecond) \<le> clock k"
        using polls_mono [OF assms(1) less.prems, of "k - i"] that(1) by simp
      ultimately show ?thesis using that(2) by linarith
    qed
    moreover have "wait_loop clock gone deadline i =
        Some (if clock i < deadline then None else Some ''timeout waiting for process shutdown'')"
      using False by (subst wait_loop.simps) simp
    ultimately show ?thesis using False by auto
  qed
qed

lemma polls_bound:
  assumes "polls_spaced clock" and "clock k < clock 0 + 30 * Second" and "1 \<le> k"
  shows "k \<le> 60"
proof -
  have "clock 1 + int (k - 1) * (500 * Millisecond) \<le> clock k" using polls_mono [OF assms(1), of 1 "k - 1"] assms(3) by simp
  moreover have "clock 0 \<le> clock 1" using assms(1) by (simp add: polls_spaced_def)
  ultimately show ?thesis using assms(2,3) by (simp add: Second_def Millisecond_def)
qed

text \<open>One of the polls before the deadline finds the file gone.\<close>

definition started_in_time :: "reload_env \<Rightarrow> (nat \<Rightarrow> bool) \<Rightarrow> bool" where
  "started_in_time env gone \<longleftrightarrow> (\<exists>k \<in> {1..60}. re_clock env k < re_clock env 0 + 30 * Second \<and> gone k)"

lemma reload_result:
  assumes "polls_spaced (re_clock env)"
  shows "reload_cmd env pidFile gone file =
    (case readPid pidFile of
       None \<Rightarrow> Some ([], [], Some ''no pid'')
     | Some pid \<Rightarrow>
         (case signalProcess env pid of
            Some err \<Rightarrow> Some ([pid], [], Some err)
          | None \<Rightarrow>
              if started_in_time env gone then (case startNewProcess env file of (started, err) \<Rightarrow> Some ([pid], started, err))
              else Some ([pid], [], Some ''timeout waiting for process shutdown'')))"
proof -
  have "(\<exists>k \<ge> 1. re_clock env k < re_clock env 0 + 30 * Second \<and> gone k) \<longleftrightarrow> started_in_time env gone"
    using polls_bound [OF assms] by (auto simp: started_in_time_def)
  then have "waitPidFileRemoved (re_clock env) gone (30 * Second) =
      Some (if started_in_time env gone then None else Some ''timeout waiting for process shutdown'')"
    unfolding waitPidFileRemoved_def by (simp add: wait_result [OF assms])
  then show ?thesis by (simp add: reload_cmd_def split: option.split)
qed


section \<open>The life of a process\<close>

text \<open>A launched process serves the core proxy in the mode of its configuration, and holds the pid file.\<close>

definition launch_config :: "('l, 'r, 'c) launch_env \<Rightarrow> string \<Rightarrow> Config" where
  "launch_config env file = ha_conf (the (NewHamburgerApp env file))"

definition launch_handler :: "('l, 'r, 'c) launch_env \<Rightarrow> string \<Rightarrow> handler" where
  "launch_handler env file = ie_serve (la_init env) (Proxy_Create (launch_config env file) None None)"

lemma launched_process:
  assumes "sorted_runners (la_sort env registered)" and "la_write env (itoa pid) = (None, Some (itoa pid))"
    and "runWithConfig env pid old file = Running p"
  shows "ps_Manager p = NewManager (ie_manager (la_init env)) (launch_config env file) (launch_handler env file)"
    and "ps_pidFile p = Some (itoa pid)" and "ps_path p = pidFileName"
    and "ps_signal p = Listening" and "\<not> ps_manager p" and "\<not> ps_front p" and "\<not> ps_returned p" and "ps_exit p = None"
proof -
  obtain app where app: "NewHamburgerApp env file = Some app"
    using assms(3) by (auto simp: runWithConfig_def split: option.splits)
  let ?env = "app_init_env env (SetPidFile pidFileName app)"
  have conf: "ie_cfg ?env = launch_config env file" "ie_manager ?env = ie_manager (la_init env)" "ie_serve ?env = ie_serve (la_init env)"
    using app by (simp_all add: app_init_env_def SetPidFile_def launch_config_def)
  have run: "Run env (Some (itoa pid)) (SetPidFile pidFileName app) = Running p"
    using assms(2,3) app by (simp add: runWithConfig_def writePid_def)
  then obtain app' where app': "InitApp env (SetPidFile pidFileName app) = Return (Inr app')"
    by (auto simp: Run_def split: outcome.splits sum.splits)
  then obtain i where i: "Initialize ?env (la_sort env) (la_fresh env) = Return (i, None)" "ha_Manager app' = it_Manager i"
      "ha_pidFile app' = pidFileName"
    by (auto simp: InitApp_def bind_outcome_Return SetPidFile_def split: option.splits)
  have "it_Manager i = Some (NewManager (ie_manager (la_init env)) (launch_config env file) (launch_handler env file))"
    using startup_fields(5) [of "la_sort env" ?env "la_fresh env" i None, OF assms(1) i(1)] by (simp add: conf launch_handler_def)
  with run app' i show "ps_Manager p = NewManager (ie_manager (la_init env)) (launch_config env file) (launch_handler env file)"
    "ps_pidFile p = Some (itoa pid)" "ps_path p = pidFileName"
    "ps_signal p = Listening" "\<not> ps_manager p" "\<not> ps_front p" "\<not> ps_returned p" "ps_exit p = None"
    by (auto simp: Run_def split: option.splits)
qed

text \<open>What holds of a process at every moment of its life.\<close>

definition stopped_well :: "'l process \<Rightarrow> bool" where
  "stopped_well p \<longleftrightarrow> ps_manager p \<and> mg_servers (ps_Manager p) = [] \<and> mg_waiting (ps_Manager p) = []"

definition process_inv :: "'l manager_env \<Rightarrow> Config \<Rightarrow> handler \<Rightarrow> int \<Rightarrow> 'l process \<Rightarrow> bool" where
  "process_inv env cfg h pid p \<longleftrightarrow>
     ps_path p \<noteq> [] \<and> hooks_inv cfg (ps_Manager p)
     \<and> (ps_signal p \<noteq> Stuck \<longrightarrow> reachable_manager env cfg h (ps_Manager p))
     \<and> ps_pidFile p = (if ps_returned p \<or> (\<exists>e. ps_signal p = Removed e) then None else Some (itoa pid))
     \<and> (ps_exit p = None \<or> ps_exit p = Some 1 \<or> ps_exit p = Some 0 \<and> ps_pidFile p = None)
     \<and> (ps_signal p = Listening \<and> ps_exit p = None \<longrightarrow> (ps_manager p \<longleftrightarrow> mg_started (ps_Manager p)))
     \<and> (ps_signal p = Stopped None \<or> ps_signal p = Removed None \<longrightarrow> stopped_well p)
     \<and> (ps_signal p = Stuck \<longrightarrow> mg_waiting (ps_Manager p) = [])"

lemma hook_idle:
  assumes "hooks_inv cfg m" and "tg_beforeAutoCert (mg_tlsManager m) = Some k \<or> tg_afterAutoCert (mg_tlsManager m) = Some k"
  shows "fst (run_hook env k m) = m"
  using assms by (auto simp: hooks_inv_def run_hook_def afterHandleAutoCert_def Let_def)

lemma reachable_extend: "reachable_manager env cfg h m \<Longrightarrow> manager_step env m m' \<Longrightarrow> reachable_manager env cfg h m'"
  unfolding reachable_manager_def by (rule rtranclp.rtrancl_into_rtrancl)

lemma step_inv:
  assumes "app_step env run p q" and "process_inv env cfg h pid p" and "distinct (map srv_name (GetEnabledServers cfg))"
  shows "process_inv env cfg h pid q"
  using assms(1,2)
proof (induction rule: app_step.induct)
  case (front p)
  then show ?case by (auto simp: front_ended_def process_inv_def stopped_well_def split: option.split)
next
  case (manager p)
  obtain m err where m: "Manager_Start env (ps_Manager p) = (m, err)" by fastforce
  have "manager_step env (ps_Manager p) m" using m by (rule manager_step.start)
  then have "reachable_manager env cfg h m" "hooks_inv cfg m"
    using manager.prems manager.hyps(3) reachable_extend reachable_hooks unfolding process_inv_def by blast+
  moreover have "err = None \<longrightarrow> mg_started m" using m by (auto simp: Manager_Start_def Let_def split: if_splits)
  ultimately show ?case using manager m by (auto simp: manager_started_def process_inv_def stopped_well_def split: option.split)
next
  case (stat p)
  then show ?case
    by (auto simp: stat_started_def StatServer_Start_def process_inv_def stopped_well_def split: option.split)
next
  case (begins p i)
  have "reachable_manager env cfg h (ps_Manager p) \<Longrightarrow> reachable_manager env cfg h (run_begins i (ps_Manager p))"
    by (erule reachable_extend) (rule manager_step.begins)
  with begins show ?case by (auto simp: process_inv_def stopped_well_def run_begins_def hooks_inv_def)
next
  case (fails p i err)
  have "reachable_manager env cfg h (ps_Manager p) \<Longrightarrow> reachable_manager env cfg h (run_ends i (Some err) (ps_Manager p))"
    by (erule reachable_extend) (rule manager_step.fails [OF fails.hyps(2)])
  with fails show ?case by (auto simp: process_inv_def stopped_well_def)
next
  case (hook p k)
  then have "hooks_inv cfg (ps_Manager p)" by (simp add: process_inv_def)
  from hook_idle [OF this hook.hyps(2)] hook.prems show ?case by simp
next
  case (signal p)
  show ?case
  proof (cases "Manager_Stop (ps_Manager p)")
    case (Return x)
    obtain m err where x: "x = (m, err)" by (cases x)
    have "manager_step env (ps_Manager p) m" using Return x by (blast intro: manager_step.stop)
    then have "reachable_manager env cfg h m" "hooks_inv cfg m"
      using signal.prems signal.hyps(2) reachable_extend reachable_hooks unfolding process_inv_def by fastforce+
    moreover have "err = None \<longrightarrow> mg_started (ps_Manager p) \<and> mg_servers m = [] \<and> mg_waiting m = []"
      using Return x by (auto simp: Manager_Stop_def Let_def split: if_splits)
    ultimately show ?thesis using signal Return x by (auto simp: received_def process_inv_def stopped_well_def Let_def)
  next
    case Panic
    then show ?thesis by (simp add: Manager_Stop_def Let_def split: if_splits)
  next
    case Blocked
    then have "mg_started (ps_Manager p)" by (simp add: Manager_Stop_def split: if_splits)
    then have "mg_waiting (fold (\<lambda>(name, inst). run_ends (in_id inst) None) (mg_servers (ps_Manager p)) (ps_Manager p)) = []"
      using stop_result(2) [of env cfg h "ps_Manager p"] signal assms(3) by (simp add: process_inv_def)
    then show ?thesis using signal Blocked by (auto simp: received_def process_inv_def Let_def run_ends_all)
  qed
qed (auto simp: process_inv_def stopped_well_def removePidFile_def)

lemma steps_inv:
  assumes "(app_step env run)\<^sup>*\<^sup>* p q" and "process_inv env cfg h pid p" and "distinct (map srv_name (GetEnabledServers cfg))"
  shows "process_inv env cfg h pid q"
  using assms by (induction rule: rtranclp_induct) (auto intro: step_inv)

lemma life_inv:
  assumes "sorted_runners (la_sort env registered)" and "la_write env (itoa pid) = (None, Some (itoa pid))"
    and "distinct (map srv_name (GetEnabledServers (launch_config env file)))"
    and "runWithConfig env pid old file = Running p" and "(app_step (ie_manager (la_init env)) run)\<^sup>*\<^sup>* p q"
  shows "process_inv (ie_manager (la_init env)) (launch_config env file) (launch_handler env file) pid q"
proof (rule steps_inv [OF assms(5) _ assms(3)])
  let ?m = "NewManager (ie_manager (la_init env)) (launch_config env file) (launch_handler env file)"
  have "reachable_manager (ie_manager (la_init env)) (launch_config env file) (launch_handler env file) ?m"
    by (simp add: reachable_manager_def)
  moreover have "\<not> mg_started ?m" by (simp add: NewManager_def Let_def)
  ultimately show "process_inv (ie_manager (la_init env)) (launch_config env file) (launch_handler env file) pid p"
    using launched_process [of env pid old "file" p, OF assms(1,2,4)] reachable_hooks by (auto simp: process_inv_def pidFileName_def)
qed

text \<open>The frontend's server only ever returns with an error, so that \<open>Run\<close> never comes to its end.\<close>

lemma never_returns:
  assumes "(app_step env run)\<^sup>*\<^sup>* p q" and "\<forall>a. run a \<noteq> None" and "\<not> ps_front p" and "\<not> ps_returned p"
  shows "\<not> ps_front q \<and> \<not> ps_returned q"
  using assms(1)
proof (induction rule: rtranclp_induct)
  case (step q r)
  from step(2,3) show ?case
    using assms(2) by (induction rule: app_step.induct)
      (auto simp: front_ended_def Front_Start_def manager_started_def stat_started_def received_def removePidFile_def Let_def
        split: option.split outcome.split prod.split)
qed (use assms(3,4) in simp)


section \<open>Reloading a running gateway\<close>

definition serves_http3 :: "Config \<Rightarrow> 'l manager \<Rightarrow> bool" where
  "serves_http3 cfg m \<longleftrightarrow> h3_enabled (ft_hTTP3 (cfg_features cfg)) \<and> (\<exists>(n, inst) \<in> set (mg_servers m). https_server inst)"

definition cannot_stop :: "Config \<Rightarrow> 'l process \<Rightarrow> bool" where
  "cannot_stop cfg p \<longleftrightarrow> ps_signal p = Stuck
     \<or> ps_signal p = Listening \<and> ps_manager p \<and> mg_started (ps_Manager p) \<and> serves_http3 cfg (ps_Manager p)"

lemma step_cannot_stop:
  assumes "app_step env run p q" and "process_inv env cfg h pid p" and "distinct (map srv_name (GetEnabledServers cfg))"
    and "cannot_stop cfg p"
  shows "cannot_stop cfg q"
  using assms(1,2,4)
proof (induction rule: app_step.induct)
  case (front p)
  then show ?case by (auto simp: front_ended_def cannot_stop_def split: option.split)
next
  case (stat p)
  then show ?case by (auto simp: stat_started_def StatServer_Start_def cannot_stop_def)
next
  case (hook p k)
  then have "hooks_inv cfg (ps_Manager p)" by (simp add: process_inv_def)
  from hook_idle [OF this hook.hyps(2)] hook.prems show ?case by simp
next
  case (signal p)
  then have "Manager_Stop (ps_Manager p) = Blocked"
    using stop_result(1) [of env cfg h "ps_Manager p"] assms(3) by (simp add: cannot_stop_def process_inv_def serves_http3_def)
  then show ?case by (simp add: received_def cannot_stop_def Let_def)
qed (auto simp: cannot_stop_def serves_http3_def run_begins_def removePidFile_def)

lemma steps_cannot_stop:
  assumes "(app_step env run)\<^sup>*\<^sup>* p q" and "process_inv env cfg h pid p" and "distinct (map srv_name (GetEnabledServers cfg))"
    and "cannot_stop cfg p"
  shows "cannot_stop cfg q"
  using assms(1)
proof (induction rule: rtranclp_induct)
  case (step q r)
  from step_cannot_stop [OF step(2) steps_inv [OF step(1) assms(2,3)] assms(3) step(3)] show ?case .
qed (rule assms(4))

text \<open>Without HTTP/3 servers, two steps of the handler take the pid file away.\<close>

lemma handler_stops:
  assumes "process_inv env cfg h pid p" and "distinct (map srv_name (GetEnabledServers cfg))"
    and "ps_exit p = None" and "ps_signal p = Listening" and "mg_started (ps_Manager p)" and "\<not> serves_http3 cfg (ps_Manager p)"
  shows "\<exists>q. (app_step env run)\<^sup>*\<^sup>* p q \<and> ps_pidFile q = None \<and> ps_exit q = None \<and> stopped_well q"
proof -
  let ?q = "received p"
  have q: "ps_signal ?q = Stopped None" "ps_exit ?q = None" "ps_path ?q \<noteq> []"
    using stop_result(1) [of env cfg h "ps_Manager p"] assms by (simp_all add: received_def process_inv_def serves_http3_def Let_def)
  let ?r = "(removePidFile ?q)\<lparr>ps_signal := Removed None\<rparr>"
  have r: "(app_step env run)\<^sup>*\<^sup>* p ?r"
    using app_step.signal [of p env run] app_step.removes [of ?q None env run] assms(3,4) q
    by (meson converse_rtranclp_into_rtranclp rtranclp.rtrancl_refl)
  moreover have "ps_pidFile ?r = None" "ps_exit ?r = None" "ps_signal ?r = Removed None" using q by (simp_all add: removePidFile_def)
  moreover have "stopped_well ?r"
    using steps_inv [OF r assms(1,2)] by (simp add: process_inv_def)
  ultimately show ?thesis by blast
qed


section \<open>The hypotheses hold\<close>

definition sample_reload :: reload_env where
  "sample_reload = \<lparr>re_find = (\<lambda>_. None), re_signal = (\<lambda>_. None), re_clock = (\<lambda>i. int i * 10 ^ 9), re_exe = Inr ''/bin/gateway'',
     re_exec = (\<lambda>_ _. None)\<rparr>"

lemma sample_spaced: "polls_spaced (re_clock sample_reload)"
  by (simp add: polls_spaced_def sample_reload_def Millisecond_def)


definition site_app_config :: AppConfig where
  "site_app_config = GetDefaultConfig\<lparr>ac_servers := [https_site], ac_stat := zero_StatConfig,
     ac_features := (ac_features GetDefaultConfig)\<lparr>ft_hTTP3 := \<lparr>h3_enabled = True, h3_maxConnections = 9, h3_idleTimeout = 9, h3_keepAlive = 9\<rparr>\<rparr>\<rparr>"

definition site_launch :: "(string, unit, unit) launch_env" where
  "site_launch = \<lparr>la_read = (\<lambda>_. Some ''contents''), la_json = (\<lambda>_. (site_app_config, False)), la_toml = (\<lambda>_. (site_app_config, False)),
     la_front = (\<lambda>_. (zero_PxyFrontConfig, True)), la_back = (\<lambda>_. (zero_PxyBackendConfig, True)), la_write = (\<lambda>s. (None, Some s)),
     la_init = demo_env, la_sort = (\<lambda>rs. rs), la_fresh = new_initializer\<rparr>"

lemma site_launch_config:
  "cfg_stat (launch_config site_launch ''config.json'') = zero_StatConfig"
  "GetEnabledServers (launch_config site_launch ''config.json'') = [https_site]"
  "h3_enabled (ft_hTTP3 (cfg_features (launch_config site_launch ''config.json'')))"
proof -
  have "launch_config site_launch ''config.json'' = the (Merge (\<lambda>_. (zero_PxyFrontConfig, True)) (\<lambda>_. (zero_PxyBackendConfig, True)) (Some site_app_config))"
    by (simp add: launch_config_def NewHamburgerApp_def LoadConfig_def site_launch_def Let_def)
  then show "cfg_stat (launch_config site_launch ''config.json'') = zero_StatConfig"
    "GetEnabledServers (launch_config site_launch ''config.json'') = [https_site]"
    "h3_enabled (ft_hTTP3 (cfg_features (launch_config site_launch ''config.json'')))"
    by (simp_all add: Merge_def Let_def site_app_config_def GetEnabledServers_def https_site_def GetDefaultConfig_def)
qed

lemma site_launched:
  obtains p where "runWithConfig site_launch 42 None ''config.json'' = Running p"
proof -
  obtain app where app: "NewHamburgerApp site_launch ''config.json'' = Some app"
    by (simp add: NewHamburgerApp_def LoadConfig_def site_launch_def Let_def)
  let ?app = "SetPidFile pidFileName app"
  let ?env = "app_init_env site_launch ?app"
  have "ha_conf ?app = launch_config site_launch ''config.json''" using app by (simp add: launch_config_def SetPidFile_def)
  then have env: "ie_apps ?env b = Return []" "cfg_stat (ie_cfg ?env) = zero_StatConfig" "ie_opened ?env = (\<lambda>_. Inl ''none'')" for b
    by (simp_all add: app_init_env_def site_launch_config(1)) (simp_all add: site_launch_def demo_env_def)
  obtain i where i: "Initialize ?env (la_sort site_launch) (la_fresh site_launch) = Return (i, None)"
      "it_FrontServer i \<noteq> None" "it_BackendServer i \<noteq> None"
    using quiet_started [of "la_sort site_launch" ?env "[]" "''none''" "la_fresh site_launch", OF _ env] registered_sorted
    by (auto simp: site_launch_def)
  have "it_Manager i \<noteq> None"
    using startup_fields(5) [of "la_sort site_launch" ?env "la_fresh site_launch" i None, OF _ i(1)] registered_sorted
    by (simp add: site_launch_def)
  with i obtain p where "Run site_launch (Some (itoa 42)) ?app = Running p"
    by (auto simp: Run_def InitApp_def)
  moreover have "writePid site_launch 42 = (None, Some (itoa 42))" by (simp add: writePid_def site_launch_def)
  ultimately show thesis using that app by (simp add: runWithConfig_def)
qed

lemma site_facts:
  "sorted_runners (la_sort site_launch registered)" "la_write site_launch (itoa 42) = (None, Some (itoa 42))" "in_int64 42"
  "distinct (map srv_name (GetEnabledServers (launch_config site_launch ''config.json'')))" "ie_manager (la_init site_launch) = site_env"
  using registered_sorted by (simp_all add: site_launch_config) (simp_all add: site_launch_def in_int64_bounds demo_env_def)



end
