(* ===== verification/Utilities.thy ===== *)
theory Utilities
  imports Modifiers GzipOptimized Float64 GoTemplate
begin

text \<open>
  The small parts: the loader of environment variables and the settings it fills (\<open>internal/constant\<close>, compiled under a build tag), trace ids
  (\<open>internal/utils\<close>), the country of an address (\<open>gateway/geo\<close>), the statistics of the optimized gzip modifier, and the remaining methods of the
  modifier manager.
\<close>

section \<open>Environment variables\<close>

text \<open>\<open>getenv\<close> is \<open>os.Getenv\<close>: an unset variable is empty.\<close>

record SandwichEnv =
  se_Raw :: string

definition LoaderEnv :: "(string \<Rightarrow> string) \<Rightarrow> string \<Rightarrow> SandwichEnv" where
  "LoaderEnv getenv env = \<lparr>se_Raw = getenv env\<rparr>"

definition SEnv_String :: "string \<Rightarrow> SandwichEnv \<Rightarrow> string" where
  "SEnv_String def_value s = (if se_Raw s = [] then def_value else se_Raw s)"

definition SEnv_Int :: "int \<Rightarrow> SandwichEnv \<Rightarrow> int" where
  "SEnv_Int def_value s =
     (if se_Raw s = [] then def_value else case atoi (se_Raw s) of None \<Rightarrow> def_value | Some i \<Rightarrow> i)"

text \<open>\<open>parse\<close> is \<open>strconv.ParseFloat\<close>.\<close>

definition SEnv_Float :: "(string \<Rightarrow> float64 option) \<Rightarrow> float64 \<Rightarrow> SandwichEnv \<Rightarrow> float64" where
  "SEnv_Float parse def_value s =
     (if se_Raw s = [] then def_value else case parse (se_Raw s) of None \<Rightarrow> def_value | Some f \<Rightarrow> f)"

text \<open>\<open>strconv.ParseBool\<close>.\<close>

definition parseBool :: "string \<Rightarrow> bool option" where
  "parseBool s =
     (if s \<in> set [''1'', ''t'', ''T'', ''true'', ''TRUE'', ''True''] then Some True
      else if s \<in> set [''0'', ''f'', ''F'', ''false'', ''FALSE'', ''False''] then Some False
      else None)"

definition SEnv_Bool :: "bool \<Rightarrow> SandwichEnv \<Rightarrow> bool" where
  "SEnv_Bool def_value s =
     (if se_Raw s = [] then def_value else case parseBool (se_Raw s) of None \<Rightarrow> def_value | Some b \<Rightarrow> b)"

definition AppName :: string where "AppName = ''Hamburger''"

record env_settings =
  ev_Host :: string
  ev_Port :: string
  ev_MongoUrl :: string
  ev_DBName :: string
  ev_SyncTime :: duration
  ev_InfluxUrl :: string
  ev_InfluxToken :: string
  ev_InfluxOrg :: string
  ev_InfluxBucket :: string
  ev_InfluxPwd :: string
  ev_EnableInflux :: bool
  ev_CacheSize :: int
  ev_StrictMode :: bool
  ev_Debug :: bool
  ev_Gzip :: bool
  ev_NoEngineDomain :: string
  ev_HeliosAddress :: string
  ev_FrontendFlag :: string
  ev_FrontendHost :: string
  ev_FrontendPort :: int
  ev_TraceID :: string
  ev_LIMIT :: int
  ev_RESET :: int
  ev_BreakerLimit :: int
  ev_BreakerReset :: int
  ev_FrontendHostHeader :: string
  ev_BackendHeader :: string
  ev_ProxyApp :: string

definition InitConfigFromEnvs :: "(string \<Rightarrow> string) \<Rightarrow> env_settings" where
  "InitConfigFromEnvs getenv =
     \<lparr>ev_Host = SEnv_String ''127.0.0.1'' (LoaderEnv getenv ''Host''),
      ev_Port = SEnv_String ''8888'' (LoaderEnv getenv ''Port''),
      ev_MongoUrl = SEnv_String ''mongodb://localhost:27017'' (LoaderEnv getenv ''MongoUrl''),
      ev_DBName = SEnv_String ''ApolloMongo'' (LoaderEnv getenv ''DBName''),
      ev_SyncTime = wrap64 (SEnv_Int (60 * 5) (LoaderEnv getenv ''SyncTime'') * Second),
      ev_InfluxUrl = SEnv_String ''http://127.0.0.1:8086'' (LoaderEnv getenv ''InfluxUrl''),
      ev_InfluxToken = SEnv_String [] (LoaderEnv getenv ''InfluxToken''),
      ev_InfluxOrg = SEnv_String AppName (LoaderEnv getenv ''InfluxOrg''),
      ev_InfluxBucket = SEnv_String AppName (LoaderEnv getenv ''InfluxBucket''),
      ev_InfluxPwd = SEnv_String [] (LoaderEnv getenv ''InfluxPwd''),
      ev_EnableInflux = SEnv_Bool False (LoaderEnv getenv ''EnableInflux''),
      ev_CacheSize = SEnv_Int 10 (LoaderEnv getenv ''CacheSize''),
      ev_StrictMode = SEnv_Bool False (LoaderEnv getenv ''StrictMode''),
      ev_Debug = SEnv_Bool False (LoaderEnv getenv ''Debug''),
      ev_Gzip = SEnv_Bool False (LoaderEnv getenv ''Gzip''),
      ev_NoEngineDomain = SEnv_String ''domain.json'' (LoaderEnv getenv ''NoEngineDomain''),
      ev_HeliosAddress = SEnv_String ''/var/run/Helios.sock'' (LoaderEnv getenv ''HeliosAddress''),
      ev_FrontendFlag = SEnv_String ''X-Proxy-Internal-Front'' (LoaderEnv getenv ''FrontendFlag''),
      ev_FrontendHost = SEnv_String ''127.0.0.1'' (LoaderEnv getenv ''FrontendHost''),
      ev_FrontendPort = SEnv_Int 7777 (LoaderEnv getenv ''FrontendPort''),
      ev_TraceID = SEnv_String ''X-Gateway-Trace-Id'' (LoaderEnv getenv ''TraceID''),
      ev_LIMIT = SEnv_Int 200 (LoaderEnv getenv ''FlowLimit''),
      ev_RESET = SEnv_Int 10 (LoaderEnv getenv ''FlowReset''),
      ev_BreakerLimit = SEnv_Int 10 (LoaderEnv getenv ''BreakerLimit''),
      ev_BreakerReset = SEnv_Int 60 (LoaderEnv getenv ''BreakerReset''),
      ev_FrontendHostHeader = SEnv_String ''X-Proxy-Internal-Host'' (LoaderEnv getenv ''FrontendHostHeader''),
      ev_BackendHeader = SEnv_String ''X-Proxy-Internal-Local'' (LoaderEnv getenv ''BackendFlag''),
      ev_ProxyApp = SEnv_String ''X-Proxy-Backend'' (LoaderEnv getenv ''ProxyApp'')\<rparr>"

lemma itoa_not_Nil: "itoa n \<noteq> []"
  by (simp add: itoa_def natDigits_not_Nil)

text \<open>A number that was printed into a variable is read back; what is no number leaves the default.\<close>

lemma SEnv_Int_itoa: "in_int64 n \<Longrightarrow> getenv k = itoa n \<Longrightarrow> SEnv_Int d (LoaderEnv getenv k) = n"
  by (simp add: SEnv_Int_def LoaderEnv_def itoa_not_Nil atoi_itoa)

lemma SEnv_Int_default: "atoi (getenv k) = None \<Longrightarrow> SEnv_Int d (LoaderEnv getenv k) = d"
  by (simp add: SEnv_Int_def LoaderEnv_def)

lemma SEnv_Bool_value:
  "SEnv_Bool d (LoaderEnv getenv k) = (case parseBool (getenv k) of None \<Rightarrow> d | Some b \<Rightarrow> b)"
  by (simp add: SEnv_Bool_def LoaderEnv_def parseBool_def)

text \<open>An interval that is set in seconds is exact up to the largest duration, and wraps around above it.\<close>

lemma sync_time_env:
  assumes "in_int64 n" and "getenv ''SyncTime'' = itoa n"
  shows "ev_SyncTime (InitConfigFromEnvs getenv) = wrap64 (n * Second)"
    and "in_int64 (n * Second) \<Longrightarrow> ev_SyncTime (InitConfigFromEnvs getenv) = n * Second"
  by (simp_all add: InitConfigFromEnvs_def SEnv_Int_itoa [of n getenv "''SyncTime''", OF assms] wrap64_id)

section \<open>Trace ids\<close>

text \<open>The time as \<open>yyyyMMddHHmmss\<close>, a dash, and six random bytes in hexadecimal.\<close>

definition hex_byte :: "nat \<Rightarrow> string" where
  "hex_byte b = [lower_hex (b div 16), lower_hex (b mod 16)]"

definition generateTraceId :: "(string \<Rightarrow> time \<Rightarrow> string) \<Rightarrow> time \<Rightarrow> nat list \<Rightarrow> string" where
  "generateTraceId format now randomBytes = format ''20060102150405'' now @ ''-'' @ concat (map hex_byte randomBytes)"

lemma length_hex_byte: "length (hex_byte b) = 2"
  by (simp add: hex_byte_def)

lemma hex_byte_inj: "a < 256 \<Longrightarrow> b < 256 \<Longrightarrow> hex_byte a = hex_byte b \<Longrightarrow> a = b"
proof -
  assume bounds: "a < 256" "b < 256" and eq: "hex_byte a = hex_byte b"
  have digits: "a div 16 < 16" "b div 16 < 16" using bounds by simp_all
  have inj: "x = y" if "lower_hex x = lower_hex y" "x < 16" "y < 16" for x y :: nat
  proof -
    have "Some x = Some y"
      using arg_cong [OF that(1), of hex_value] unfolding hex_value_lower [OF that(2)] hex_value_lower [OF that(3)] .
    then show ?thesis by (rule option.inject [THEN iffD1])
  qed
  have "a div 16 = b div 16" by (rule inj) (use eq digits in \<open>simp_all add: hex_byte_def\<close>)
  moreover have "a mod 16 = b mod 16" by (rule inj) (use eq in \<open>simp_all add: hex_byte_def\<close>)
  ultimately show "a = b" by (metis div_mult_mod_eq)
qed

lemma hex_bytes_inj:
  "\<forall>b \<in> set as \<union> set bs. b < 256 \<Longrightarrow> concat (map hex_byte as) = concat (map hex_byte bs) \<Longrightarrow> as = bs"
proof (induction as arbitrary: bs)
  case Nil
  then show ?case by (cases bs) (simp_all add: hex_byte_def)
next
  case (Cons a as)
  then obtain b bs' where bs: "bs = b # bs'" by (cases bs) (simp_all add: hex_byte_def)
  have "hex_byte a = hex_byte b \<and> concat (map hex_byte as) = concat (map hex_byte bs')"
    using Cons.prems(2) append_eq_append_conv [of "hex_byte a" "hex_byte b"] by (simp add: bs length_hex_byte)
  with Cons hex_byte_inj [of a b] show ?case by (auto simp: bs)
qed

text \<open>Two requests have the same trace id only in the same second and with the same random bytes.\<close>

lemma trace_ids_differ:
  assumes "\<And>t. length (format ''20060102150405'' t) = 14" and "\<forall>b \<in> set as \<union> set bs. b < 256"
    and "generateTraceId format t as = generateTraceId format t' bs"
  shows "format ''20060102150405'' t = format ''20060102150405'' t' \<and> as = bs"
proof -
  have "format ''20060102150405'' t = format ''20060102150405'' t' \<and> concat (map hex_byte as) = concat (map hex_byte bs)"
    using assms(1) [of t] assms(1) [of t'] assms(3) by (simp add: generateTraceId_def append_eq_append_conv)
  with hex_bytes_inj [OF assms(2)] show ?thesis by blast
qed

section \<open>Countries\<close>

text \<open>
  The embedded database is loaded once, and stays unset when it cannot be opened; then the country of a parsed address, if there
  is one. Opening and looking up are the library's.
\<close>

definition LoadGEO :: "(string \<Rightarrow> string + 'd) \<Rightarrow> string \<Rightarrow> 'd option \<Rightarrow> 'd option" where
  "LoadGEO openBytes geoData db = (case openBytes geoData of Inl err \<Rightarrow> db | Inr mmdb \<Rightarrow> Some mmdb)"

definition GeoLookUp :: "(string \<Rightarrow> 'a option) \<Rightarrow> ('a \<Rightarrow> string option) option \<Rightarrow> string \<Rightarrow> string" where
  "GeoLookUp parseAddr db ip =
     (case db of
        None \<Rightarrow> []
      | Some lookup \<Rightarrow>
          (case parseAddr ip of
             None \<Rightarrow> []
           | Some ipAddr \<Rightarrow> (case lookup ipAddr of None \<Rightarrow> [] | Some isoCode \<Rightarrow> isoCode)))"

lemma no_database: "openBytes geoData = Inl err \<Longrightarrow> GeoLookUp parseAddr (map_option lookup (LoadGEO openBytes geoData None)) ip = []"
  by (simp add: LoadGEO_def GeoLookUp_def)

section \<open>Databases\<close>

text \<open>
  \<open>connect\<close> is \<open>mgm.SetDefaultConfig\<close> with its timeout, database and address, \<open>find\<close> the answer of a query. An error leaves the connection as
  it was, or gives no application.
\<close>

definition InitMongo :: "(duration \<Rightarrow> string \<Rightarrow> string \<Rightarrow> string + 'm) \<Rightarrow> Config \<Rightarrow> 'm option \<Rightarrow> 'm option" where
  "InitMongo connect cf mongo =
     (case connect (5 * Second) (mgo_database (db_mongo (cfg_database cf))) (mgo_uRL (db_mongo (cfg_database cf))) of
        Inl err \<Rightarrow> mongo
      | Inr m \<Rightarrow> Some m)"

definition GetAppFromMongo :: "string + DaoAPP list \<Rightarrow> DaoAPP list" where
  "GetAppFromMongo found = (case found of Inl err \<Rightarrow> [] | Inr data \<Rightarrow> data)"

text \<open>A refresh whose query fails keeps all ports.\<close>

lemma failed_query: "RefreshDomainPortsMap (GetAppFromMongo (Inl err)) rt = rt"
  by (simp add: GetAppFromMongo_def RefreshDomainPortsMap_def loadDomainPortsMap_def)

section \<open>Statistics of the optimized gzip modifier\<close>

text \<open>The average time is kept as a duration; the source prints it with \<open>Duration.String\<close>.\<close>

record gzip_stats =
  gst_total_requests :: int
  gst_compressed_count :: int
  gst_cache_hits :: int
  gst_avg_compression_time :: duration
  gst_compression_ratio :: float64
  gst_cache_hit_ratio :: float64

definition Optimized_GetStats :: "OptimizedGzip \<Rightarrow> gzip_stats" where
  "Optimized_GetStats g =
     \<lparr>gst_total_requests = og_totalRequests g, gst_compressed_count = og_compressedCount g, gst_cache_hits = og_cacheHits g,
      gst_avg_compression_time = og_avgCompressionTime g,
      gst_compression_ratio = fdiv (float_of_int (og_compressedCount g)) (float_of_int (og_totalRequests g)),
      gst_cache_hit_ratio = fdiv (float_of_int (og_cacheHits g)) (float_of_int (og_totalRequests g))\<rparr>"

text \<open>Before the first request both ratios are not a number, which JSON cannot express.\<close>

lemma new_stats_NaN:
  "gst_compression_ratio (Optimized_GetStats (NewOptimizedGzipModifier n cfg)) = NaN"
  "gst_cache_hit_ratio (Optimized_GetStats (NewOptimizedGzipModifier n cfg)) = NaN"
  by (simp_all add: Optimized_GetStats_def NewOptimizedGzipModifier_def finf_def)

text \<open>Later they are between 0 and 1, rounding included.\<close>

lemma ratio_bounds:
  assumes "0 \<le> c" and "c \<le> t" and "0 < t"
  shows "\<exists>q. fdiv (float_of_int c) (float_of_int t) = Fin q \<and> 0 \<le> q \<and> q \<le> 1"
proof -
  let ?a = "round53 (of_int c)" and ?b = "round53 (of_int t)"
  have one: "round53 1 = (1 :: rat)" using round53_small_int [of 1] by simp
  have "(1 :: rat) \<le> of_int t" using assms(3) by simp
  then have b: "1 \<le> ?b" using round53_mono [of 1 "of_int t"] one by simp
  have a: "0 \<le> ?a" "?a \<le> ?b" using assms by (simp_all add: round53_pos_mono round53_mono)
  have "0 \<le> ?a / ?b" "?a / ?b \<le> 1" using a b by (simp_all add: divide_le_eq)
  then have "0 \<le> round53 (?a / ?b)" "round53 (?a / ?b) \<le> 1"
    using round53_mono [of "?a / ?b" 1] one by (simp_all add: round53_pos_mono)
  with b show ?thesis by (simp add: float_of_int_def)
qed

section \<open>The modifier manager\<close>

text \<open>The manager holds its chain; registering a nil modifier changes nothing.\<close>

definition NewModifierManager :: "Modifier list" where
  "NewModifierManager = []"

definition Manager_RegisterModifier :: "Modifier option \<Rightarrow> Modifier list \<Rightarrow> Modifier list" where
  "Manager_RegisterModifier m mm = Chain_AddModifier m mm"

definition Manager_AddCustomModifier :: "Modifier option \<Rightarrow> Modifier list \<Rightarrow> Modifier list" where
  "Manager_AddCustomModifier m mm = (if m \<noteq> None then Chain_AddModifier m mm else mm)"

definition Manager_ModifyResponse ::
    "mod_env \<Rightarrow> Config \<Rightarrow> Modifier list \<Rightarrow> Response \<Rightarrow> (Modifier list \<times> Response \<times> string option) outcome" where
  "Manager_ModifyResponse env cfg mm response = Chain_ModifyResponse Modifier_IsEnabled (Modifier_ModifyResponse env cfg) mm response"

definition Manager_UpdateConfig :: "mod_env \<Rightarrow> Config \<Rightarrow> Modifier list \<Rightarrow> Modifier list outcome" where
  "Manager_UpdateConfig env cfg mm = Chain_UpdateConfig (Modifier_UpdateConfig env cfg) mm"

definition Manager_GetEnabledModifiers :: "Modifier list \<Rightarrow> Modifier list" where
  "Manager_GetEnabledModifiers mm = Chain_GetEnabledModifiers Modifier_IsEnabled mm"

definition Manager_GetModifierByName :: "string \<Rightarrow> Modifier list \<Rightarrow> Modifier option" where
  "Manager_GetModifierByName name mm = Chain_GetModifierByName Modifier_GetName name mm"

definition Manager_GetModifiers :: "Modifier list \<Rightarrow> Modifier list" where
  "Manager_GetModifiers mm = Chain_GetEnabledModifiers Modifier_IsEnabled mm"

lemma find_by_name: "Chain_GetModifierByName get_name name ms = find (\<lambda>m. get_name m = name) ms"
  by (induction ms) auto

text \<open>
  The modifiers of the start can be found by their names, all but the custom header modifier: \<open>GetCustomHeaderModifier\<close> looks for another
  name than the modifier has, and returns nil on every chain.
\<close>

theorem custom_modifier_hidden:
  "(\<forall>m \<in> set (InitModifiers env cfg). Manager_GetModifierByName (Modifier_GetName m) (InitModifiers env cfg) = Some m)
   \<and> Manager_GetCustomHeaderModifier mm = None"
proof
  show "\<forall>m \<in> set (InitModifiers env cfg). Manager_GetModifierByName (Modifier_GetName m) (InitModifiers env cfg) = Some m"
    by (simp add: InitModifiers_def Chain_AddModifier_def Manager_GetModifierByName_def)
  have "Modifier_GetName m = ''custom_header'' \<longleftrightarrow> False" for m by (cases m) simp_all
  then have "Chain_GetModifierByName Modifier_GetName ''custom_header'' mm = None"
    by (simp add: find_by_name find_None_iff)
  then show "Manager_GetCustomHeaderModifier mm = None" by (simp add: Manager_GetCustomHeaderModifier_def)
qed

end
