(* ===== verification/StructureExamples.thy ===== *)
theory StructureExamples
  imports OrderedMap Float64 "HOL-Library.Monad_Syntax"
begin

text \<open>
  The example programs of \<open>internal/structure\<close> (\<open>example.go\<close>, \<open>map_example.go\<close>): what they print, line by line, with the sets and
  maps of \<open>GoMaps\<close> and the ordered map of \<open>OrderedMap\<close>. Go iterates over a map in any order: \<open>ord n\<close> is the order of the \<open>n\<close>th loop
  of a program. Which lines depend on it, and that no program hangs, is what the lemmas show.
\<close>

section \<open>Printing\<close>

fun spaced :: "string list \<Rightarrow> string" where
  "spaced [] = []"
| "spaced [x] = x"
| "spaced (x # y # ys) = x @ '' '' @ spaced (y # ys)"

definition show_list :: "string list \<Rightarrow> string" where
  "show_list xs = ''['' @ spaced xs @ '']''"

definition show_bool :: "bool \<Rightarrow> string" where
  "show_bool b = (if b then ''true'' else ''false'')"

text \<open>Each loop runs in some order of the entries.\<close>

definition loop_orders :: "(nat \<Rightarrow> 'a list \<Rightarrow> 'a list) \<Rightarrow> bool" where
  "loop_orders ord \<longleftrightarrow> (\<forall>n m. mset (ord n m) = mset m)"

section \<open>Sets and ordered maps\<close>

definition ExampleSetUsage :: "(nat \<Rightarrow> (string \<times> unit) list \<Rightarrow> (string \<times> unit) list) \<Rightarrow> string list" where
  "ExampleSetUsage ord =
     (let fruits = fold Set_Add [''apple'', ''banana'', ''orange'', ''apple''] NewSet;
          found = Set_Find (ord 1 fruits) (\<lambda>item. 5 < length item);
          citrus = NewSetWithItems [''orange'', ''lemon'', ''lime''];
          union = Set_Union (ord 2 fruits) (ord 3 citrus);
          intersection = Set_Intersection (ord 5 fruits) (ord 6 citrus) fruits citrus;
          difference = Set_Difference (ord 8 fruits) citrus
      in [''=== Set usage example ==='',
          ''set size: '' @ itoa (Set_Len fruits),
          ''contains apple: '' @ show_bool (Set_Contains fruits ''apple''),
          ''contains grape: '' @ show_bool (Set_Contains fruits ''grape''),
          ''all items: '' @ show_list (Set_List (ord 0 fruits))]
         @ (case found of None \<Rightarrow> [] | Some fruit \<Rightarrow> [''found fruit with length > 5: '' @ fruit])
         @ [''union: '' @ show_list (Set_List (ord 4 union)),
            ''intersection: '' @ show_list (Set_List (ord 7 intersection)),
            ''difference: '' @ show_list (Set_List (ord 9 difference)),
            []])"

definition score_line :: "string \<times> int \<Rightarrow> string" where
  "score_line e = ''  '' @ fst e @ '': '' @ itoa (snd e)"

definition ExampleOrderedMapUsage :: "string list option" where
  "ExampleOrderedMapUsage =
     do {
       let scores = OM_Set ''David'' 88 (OM_Set ''Charlie'' 92 (OM_Set ''Bob'' 87 (OM_Set ''Alice'' 95 NewOrderedMap)));
       let size = OM_Len scores;
       let alice = (case OM_Get scores ''Alice'' of None \<Rightarrow> [] | Some score \<Rightarrow> [''Alice's score: '' @ itoa score]);
       let scores = OM_Set ''Bob'' 90 scores;
       let bob = (case OM_Get scores ''Bob'' of None \<Rightarrow> 0 | Some v \<Rightarrow> v);
       keys \<leftarrow> OM_Keys scores;
       vals \<leftarrow> OM_Values scores;
       entries \<leftarrow> OM_List scores;
       found \<leftarrow> OM_Find (\<lambda>name score. 90 < score) scores;
       let first = OM_Front scores;
       let last_one = OM_Back scores;
       visited \<leftarrow> OM_ForEach (\<lambda>out name score. out @ [score_line (name, score)]) scores [];
       let (scores', deleted) = OM_Delete ''Charlie'' scores;
       keys' \<leftarrow> OM_Keys scores';
       Some
         ([''=== OrderedMap usage example ==='', ''map size: '' @ itoa size] @ alice
          @ [''Bob's score after update: '' @ itoa bob,
             ''keys in insertion order: '' @ show_list keys,
             ''values in insertion order: '' @ show_list (map itoa vals),
             ''all entries:'']
          @ map score_line entries
          @ (case found of None \<Rightarrow> [] | Some (name, score) \<Rightarrow>
               [''found student with score > 90: '' @ name @ '' ('' @ itoa score @ '')''])
          @ (case first of None \<Rightarrow> [] | Some (name, score) \<Rightarrow> [''first element: '' @ name @ ''='' @ itoa score])
          @ (case last_one of None \<Rightarrow> [] | Some (name, score) \<Rightarrow> [''last element: '' @ name @ ''='' @ itoa score])
          @ [''iterate using ForEach:''] @ visited
          @ (if deleted then [''successfully deleted Charlie''] else [])
          @ [''keys after deletion: '' @ show_list keys', []])
     }"

definition ExampleAdvancedUsage ::
    "(nat \<Rightarrow> (int \<times> unit) list \<Rightarrow> (int \<times> unit) list) \<Rightarrow> (nat \<Rightarrow> (string \<times> unit) list \<Rightarrow> (string \<times> unit) list) \<Rightarrow> string list option" where
  "ExampleAdvancedUsage iord sord =
     do {
       let userIDs = [1, 2, 3, 2, 4, 1, 5, 3 :: int];
       let uniqueIDs = fold Set_Add userIDs NewSet;
       let cache = OM_Set ''page3'' ''content3'' (OM_Set ''page2'' ''content2'' (OM_Set ''page1'' ''content1'' NewOrderedMap));
       let maxSize = 3;
       cached \<leftarrow> OM_Keys cache;
       let (cache, evicted) =
         (if maxSize \<le> OM_Len cache
          then case OM_Front cache of
                 None \<Rightarrow> (cache, [])
               | Some (oldestKey, _) \<Rightarrow> (fst (OM_Delete oldestKey cache), [''Deleted oldest cache item: '' @ oldestKey])
          else (cache, []));
       let cache = OM_Set ''page4'' ''content4'' cache;
       cached' \<leftarrow> OM_Keys cache;
       let adminPermissions = NewSetWithItems [''read'', ''write'', ''delete'', ''admin''];
       let userPermissions = NewSetWithItems [''read'', ''write''];
       let missingPermissions = Set_Difference (sord 0 adminPermissions) userPermissions;
       Some
         ([''=== Advanced usage scenarios ==='',
           ''Original user IDs: '' @ show_list (map itoa userIDs),
           ''User IDs after deduplication: '' @ show_list (map itoa (Set_List (iord 0 uniqueIDs))),
           ''Cache content: '' @ show_list cached]
          @ evicted
          @ [''Cache after adding new page: '' @ show_list cached',
             if Set_Contains userPermissions ''delete'' then ''User has delete permission'' else ''User does not have delete permission'',
             ''User missing permissions: '' @ show_list (Set_List (sord 1 missingPermissions)),
             []])
     }"

lemma itoa_examples:
  "itoa 0 = ''0''" "itoa 365 = ''365''" "itoa 1 = ''1''" "itoa 2 = ''2''" "itoa 5 = ''5''" "itoa 3 = ''3''" "itoa 4 = ''4''" "itoa 95 = ''95''" "itoa 90 = ''90''" "itoa 92 = ''92''" "itoa 88 = ''88''"
  by code_simp+

text \<open>The ordered map prints the same lines at each run, in the order of insertion.\<close>

theorem ordered_example:
  "ExampleOrderedMapUsage = Some
     [''=== OrderedMap usage example ==='', ''map size: 4'', ''Alice's score: 95'', ''Bob's score after update: 90'',
      ''keys in insertion order: [Alice Bob Charlie David]'', ''values in insertion order: [95 90 92 88]'',
      ''all entries:'', ''  Alice: 95'', ''  Bob: 90'', ''  Charlie: 92'', ''  David: 88'',
      ''found student with score > 90: Alice (95)'', ''first element: Alice=95'', ''last element: David=88'',
      ''iterate using ForEach:'', ''  Alice: 95'', ''  Bob: 90'', ''  Charlie: 92'', ''  David: 88'',
      ''successfully deleted Charlie'', ''keys after deletion: [Alice Bob David]'', []]"
proof -
  let ?new = "OM_Set ''David'' (88 :: int) (OM_Set ''Charlie'' 92 (OM_Set ''Bob'' 87 (OM_Set ''Alice'' 95 NewOrderedMap)))"
  have r1: "represents ?new [(''Alice'', 95), (''Bob'', 87), (''Charlie'', 92), (''David'', 88)]"
    using om_run_represents [of "[OpSet ''Alice'' 95, OpSet ''Bob'' 87, OpSet ''Charlie'' 92, OpSet ''David'' (88 :: int)]"]
    by (simp add: om_run_def spec_run_def)
  have r2: "represents (OM_Set ''Bob'' 90 ?new) [(''Alice'', 95), (''Bob'', 90), (''Charlie'', 92), (''David'', 88)]"
    using OM_Set_represents [OF r1, of "''Bob''" 90] by simp
  have r3: "represents (fst (OM_Delete ''Charlie'' (OM_Set ''Bob'' 90 ?new))) [(''Alice'', 95), (''Bob'', 90), (''David'', 88)]"
    and deleted: "snd (OM_Delete ''Charlie'' (OM_Set ''Bob'' 90 ?new))"
    using OM_Delete_represents [OF r2, of "''Charlie''"] by simp_all
  note views = represents_observers [OF r1] represents_observers [OF r2] represents_ForEach [OF r2] represents_observers [OF r3]
  show ?thesis
    unfolding ExampleOrderedMapUsage_def
    using deleted by (simp add: views Let_def case_prod_unfold score_line_def show_list_def itoa_examples)
qed

text \<open>A set is listed in any order, each of its elements once.\<close>

lemma listed:
  assumes "loop_orders ord" and "gomap_ok s"
  shows "mset (Set_List (ord n s)) = mset_set (set_of s)"
proof -
  have perm: "mset (ord n s) = mset s" using assms(1) by (simp add: loop_orders_def)
  have "mset (map fst (ord n s)) = mset (map fst s)" using perm by simp
  also have "\<dots> = mset_set (set (map fst s))" using assms(2) unfolding gomap_ok_def by (rule mset_set_set [symmetric])
  finally show ?thesis by (simp add: Set_List_def set_of_def del: mset_map)
qed

lemma loop_iteration: "loop_orders ord \<Longrightarrow> iteration_of (ord n m) m"
  by (simp add: loop_orders_def iteration_of_def)

lemma Set_Find_some:
  "Set_Find ord P = None \<longleftrightarrow> (\<forall>x \<in> fst ` set ord. \<not> P x)"
  "Set_Find ord P = Some x \<Longrightarrow> x \<in> fst ` set ord \<and> P x"
  by (induction ord) (auto split: if_splits)

lemma fold_Set_Add: "gomap_ok s \<Longrightarrow> gomap_ok (fold Set_Add xs s) \<and> set_of (fold Set_Add xs s) = set_of s \<union> set xs"
  by (induction xs arbitrary: s) (auto simp: Set_Add_def gomap_ok_intros)

lemma NewSetWithItems_ok: "gomap_ok (NewSetWithItems xs)"
  using fold_Set_Add [of NewSet xs] by (simp add: NewSetWithItems_def NewSet_def gomap_ok_def Set_Add_def [abs_def])

text \<open>
  The advanced example: the identifiers without duplicates and the missing permissions come in any order, the rest, with the page
  dropped from the cache, is fixed.
\<close>

theorem advanced_example:
  assumes "loop_orders iord" and "loop_orders sord"
  shows "\<exists>ids missing. mset ids = {#1, 2, 3, 4, 5#} \<and> mset missing = {#''delete'', ''admin''#}
    \<and> ExampleAdvancedUsage iord sord = Some
     [''=== Advanced usage scenarios ==='', ''Original user IDs: [1 2 3 2 4 1 5 3]'',
      ''User IDs after deduplication: '' @ show_list (map itoa ids),
      ''Cache content: [page1 page2 page3]'', ''Deleted oldest cache item: page1'',
      ''Cache after adding new page: [page2 page3 page4]'', ''User does not have delete permission'',
      ''User missing permissions: '' @ show_list missing, []]"
proof -
  let ?ids = "fold Set_Add [1, 2, 3, 2, 4, 1, 5, 3 :: int] NewSet"
  let ?admin = "NewSetWithItems [''read'', ''write'', ''delete'', ''admin'']" and ?user = "NewSetWithItems [''read'', ''write'']"
  let ?missing = "Set_Difference (sord 0 ?admin) ?user"
  let ?cache = "OM_Set ''page3'' ''content3'' (OM_Set ''page2'' ''content2'' (OM_Set ''page1'' ''content1'' NewOrderedMap))"
  have ids: "gomap_ok ?ids" "set_of ?ids = {1, 2, 3, 4, 5}"
    using fold_Set_Add [of NewSet "[1, 2, 3, 2, 4, 1, 5, 3 :: int]"] by (auto simp: NewSet_def gomap_ok_def set_of_def)
  have missing: "set_of ?missing = {''delete'', ''admin''}" "gomap_ok ?missing"
    using set_of_Difference [OF loop_iteration [OF assms(2)]]
    by (auto simp: set_of_NewSetWithItems Set_Difference_def NewSet_def gomap_ok_intros)
  have r1: "represents ?cache [(''page1'', ''content1''), (''page2'', ''content2''), (''page3'', ''content3'')]"
    using om_run_represents [of "[OpSet ''page1'' ''content1'', OpSet ''page2'' ''content2'', OpSet ''page3'' ''content3'']"]
    by (simp add: om_run_def spec_run_def)
  have r2: "represents (OM_Set ''page4'' ''content4'' (fst (OM_Delete ''page1'' ?cache)))
      [(''page2'', ''content2''), (''page3'', ''content3''), (''page4'', ''content4'')]"
    using OM_Set_represents [OF OM_Delete_represents(1) [OF r1, of "''page1''"], of "''page4''" "''content4''"] by simp
  have "\<not> Set_Contains ?user ''delete''" by (simp add: Set_Contains_def set_of_NewSetWithItems)
  then have "ExampleAdvancedUsage iord sord = Some
     [''=== Advanced usage scenarios ==='', ''Original user IDs: [1 2 3 2 4 1 5 3]'',
      ''User IDs after deduplication: '' @ show_list (map itoa (Set_List (iord 0 ?ids))),
      ''Cache content: [page1 page2 page3]'', ''Deleted oldest cache item: page1'',
      ''Cache after adding new page: [page2 page3 page4]'', ''User does not have delete permission'',
      ''User missing permissions: '' @ show_list (Set_List (sord 1 ?missing)), []]"
    unfolding ExampleAdvancedUsage_def
    by (simp add: represents_observers [OF r1] represents_observers [OF r2] Let_def show_list_def itoa_examples del: fold.simps)
  moreover have "mset (Set_List (iord 0 ?ids)) = {#1, 2, 3, 4, 5#}" "mset (Set_List (sord 1 ?missing)) = {#''delete'', ''admin''#}"
    unfolding listed [OF assms(1) ids(1)] listed [OF assms(2) missing(2)] ids(2) missing(1) by simp_all
  ultimately show ?thesis by blast
qed

theorem advanced_example_witness:
  "loop_orders (\<lambda>n :: nat. rev :: (int \<times> unit) list \<Rightarrow> _) \<and> (\<exists>lines. ExampleAdvancedUsage (\<lambda>n. rev) (\<lambda>n. rev) = Some lines)"
proof -
  have "loop_orders (\<lambda>n :: nat. rev :: (int \<times> unit) list \<Rightarrow> _)" "loop_orders (\<lambda>n :: nat. rev :: (string \<times> unit) list \<Rightarrow> _)"
    by (simp_all add: loop_orders_def)
  with advanced_example [OF this] show ?thesis by blast
qed

text \<open>The set example: every listing shows the elements it should, and the fruit that is found is one of the two long names.\<close>

theorem set_example:
  assumes "loop_orders ord"
  shows "\<exists>items fruit union inter diff.
     mset items = {#''apple'', ''banana'', ''orange''#} \<and> fruit \<in> {''banana'', ''orange''}
     \<and> mset union = {#''apple'', ''banana'', ''orange'', ''lemon'', ''lime''#} \<and> inter = [''orange''] \<and> mset diff = {#''apple'', ''banana''#}
     \<and> ExampleSetUsage ord =
       [''=== Set usage example ==='', ''set size: 3'', ''contains apple: true'', ''contains grape: false'',
        ''all items: '' @ show_list items, ''found fruit with length > 5: '' @ fruit, ''union: '' @ show_list union,
        ''intersection: '' @ show_list inter, ''difference: '' @ show_list diff, []]"
proof -
  let ?fruits = "fold Set_Add [''apple'', ''banana'', ''orange'', ''apple''] NewSet" and ?citrus = "NewSetWithItems [''orange'', ''lemon'', ''lime'']"
  let ?union = "Set_Union (ord 2 ?fruits) (ord 3 ?citrus)" and ?inter = "Set_Intersection (ord 5 ?fruits) (ord 6 ?citrus) ?fruits ?citrus"
  let ?diff = "Set_Difference (ord 8 ?fruits) ?citrus"
  note loop = loop_iteration [OF assms]
  have fruits: "gomap_ok ?fruits" "set_of ?fruits = {''apple'', ''banana'', ''orange''}"
    using fold_Set_Add [of NewSet "[''apple'', ''banana'', ''orange'', ''apple'']"] by (auto simp: NewSet_def gomap_ok_def set_of_def)
  have citrus: "set_of ?citrus = {''orange'', ''lemon'', ''lime''}" by (simp add: set_of_NewSetWithItems)
  have ok: "gomap_ok ?union" "gomap_ok ?inter" "gomap_ok ?diff"
    by (simp_all add: Set_Union_def Set_Intersection_def Set_Difference_def NewSet_def gomap_ok_intros)
  have sets: "set_of ?union = {''apple'', ''banana'', ''orange'', ''lemon'', ''lime''}" "set_of ?inter = {''orange''}"
    "set_of ?diff = {''apple'', ''banana''}"
    unfolding set_of_Union [OF loop loop] set_of_Intersection [OF loop loop] set_of_Difference [OF loop] fruits(2) citrus by auto
  have lists: "mset (Set_List (ord 0 ?fruits)) = {#''apple'', ''banana'', ''orange''#}"
    "mset (Set_List (ord 4 ?union)) = {#''apple'', ''banana'', ''orange'', ''lemon'', ''lime''#}"
    "mset (Set_List (ord 7 ?inter)) = {#''orange''#}" "mset (Set_List (ord 9 ?diff)) = {#''apple'', ''banana''#}"
    unfolding listed [OF assms fruits(1)] listed [OF assms ok(1)] listed [OF assms ok(2)] listed [OF assms ok(3)] fruits(2) sets by simp_all
  have all: "fst ` set (ord 1 ?fruits) = {''apple'', ''banana'', ''orange''}" unfolding iteration_set_of [OF loop] by (rule fruits(2))
  then have "Set_Find (ord 1 ?fruits) (\<lambda>item. 5 < length item) \<noteq> None" by (simp add: Set_Find_some(1))
  then obtain fruit where found: "Set_Find (ord 1 ?fruits) (\<lambda>item. 5 < length item) = Some fruit" by blast
  have "fruit \<in> {''apple'', ''banana'', ''orange''} \<and> 5 < length fruit" using Set_Find_some(2) [OF found] unfolding all .
  then have fruit: "fruit \<in> {''banana'', ''orange''}" by auto
  have inter: "Set_List (ord 7 ?inter) = [''orange'']" using lists(3) by simp
  have "ExampleSetUsage ord =
       [''=== Set usage example ==='', ''set size: 3'', ''contains apple: true'', ''contains grape: false'',
        ''all items: '' @ show_list (Set_List (ord 0 ?fruits)), ''found fruit with length > 5: '' @ fruit,
        ''union: '' @ show_list (Set_List (ord 4 ?union)), ''intersection: '' @ show_list [''orange''],
        ''difference: '' @ show_list (Set_List (ord 9 ?diff)), []]"
    unfolding ExampleSetUsage_def Let_def found inter
    by (simp add: Set_Contains_def Set_Len_card [OF fruits(1)] fruits(2) itoa_examples show_bool_def del: fold.simps)
  with lists fruit show ?thesis by blast
qed

theorem set_example_witness:
  "loop_orders (\<lambda>n :: nat. rev :: (string \<times> unit) list \<Rightarrow> _) \<and> length (ExampleSetUsage (\<lambda>n. rev)) = 10"
proof -
  have "loop_orders (\<lambda>n :: nat. rev :: (string \<times> unit) list \<Rightarrow> _)" by (simp add: loop_orders_def)
  with set_example [OF this] show ?thesis by auto
qed

section \<open>Maps\<close>

record User =
  us_ID :: int
  us_Name :: string
  us_Age :: int

definition show_user :: "User \<Rightarrow> string" where
  "show_user u = ''{ID:'' @ itoa (us_ID u) @ '' Name:'' @ us_Name u @ '' Age:'' @ itoa (us_Age u) @ ''}''"

definition quoted :: "string \<Rightarrow> string" where
  "quoted s = CHR 0x27 # s @ [CHR 0x27]"

text \<open>
  A pointer to a user is the user it points to, or \<open>None\<close>; the only pointer the program prints is the nil one. \<open>fmt2\<close> prints a float
  with two decimals. The four parts of the program are the demonstrations it announces.
\<close>

definition usage_basics :: "(nat \<Rightarrow> (string \<times> int) list \<Rightarrow> (string \<times> int) list) \<Rightarrow> string list" where
  "usage_basics ord =
     (let intMap = Map_Put ''total'' 500 (Map_Put ''count'' 100 (NewMap []));
          userMap = Map_Put ''user2'' \<lparr>us_ID = 2, us_Name = ''Bob'', us_Age = 30\<rparr>
            (Map_Put ''user1'' \<lparr>us_ID = 1, us_Name = ''Alice'', us_Age = 25\<rparr> (NewMap []));
          userPtrMap = Map_Put ''ptr2'' (Some \<lparr>us_ID = 4, us_Name = ''Diana'', us_Age = 28\<rparr>)
            (Map_Put ''ptr1'' (Some \<lparr>us_ID = 3, us_Name = ''Charlie'', us_Age = 35\<rparr>) (NewMap []));
          sliceMap = Map_Put ''tags'' [''go'', ''generics'', ''concurrent''] (NewMap []);
          stringMap = Map_Put ''hello'' ''world'' (NewMap []);
          count = Map_MustGet 0 intMap ''count'';
          missing = Map_MustGet 0 intMap ''missing'';
          existing = Map_MustGet [] stringMap ''hello'';
          emptyString = Map_MustGet [] stringMap ''nonexistent'';
          missingUser = Map_MustGet \<lparr>us_ID = 0, us_Name = [], us_Age = 0\<rparr> userMap ''nonexistent'';
          missingPtr = Map_MustGet None userPtrMap ''nonexistent'';
          afterDelete = Map_Delete ''count'' intMap;
          afterClear = Map_Clear afterDelete
      in (case Map_Get intMap ''count'' of None \<Rightarrow> [] | Some v \<Rightarrow> [''count: '' @ itoa v])
         @ [''total exists: '' @ show_bool (Map_Exist intMap ''total''), ''size: '' @ itoa (Map_Size intMap)]
         @ (case Map_Get userMap ''user1'' of None \<Rightarrow> [] | Some user \<Rightarrow> [''User: '' @ show_user user])
         @ (case Map_Get userPtrMap ''ptr1'' of Some (Some user) \<Rightarrow> [''User Pointer: '' @ show_user user] | _ \<Rightarrow> [])
         @ (case Map_Get sliceMap ''tags'' of None \<Rightarrow> [] | Some tags \<Rightarrow> [''Tags: '' @ show_list tags])
         @ [[], ''=== MustGet method demo ==='',
            ''count (exists): '' @ itoa count,
            ''missing (not exists): '' @ itoa missing @ '' (zero value)'',
            ''existing string: '' @ quoted existing,
            ''nonexistent string: '' @ quoted emptyString @ '' (zero value)'',
            ''nonexistent user: '' @ show_user missingUser @ '' (zero value)'',
            ''nonexistent pointer: '' @ (case missingPtr of None \<Rightarrow> ''<nil>'' | Some u \<Rightarrow> ''&'' @ show_user u) @ '' (zero value)'',
            ''Int map keys: '' @ show_list (Map_Keys (ord 0 intMap)),
            ''Int map values: '' @ show_list (map itoa (Map_Values (ord 1 intMap))),
            ''After delete, size: '' @ itoa (Map_Size afterDelete),
            ''After clear, size: '' @ itoa (Map_Size afterClear)])"

definition scoreMap :: "int StructMap" where
  "scoreMap = Map_Put ''chemistry'' 90 (Map_Put ''physics'' 92 (Map_Put ''english'' 88 (Map_Put ''math'' 95 (NewMap []))))"

definition usage_range :: "(float64 \<Rightarrow> string) \<Rightarrow> (nat \<Rightarrow> (string \<times> int) list \<Rightarrow> (string \<times> int) list) \<Rightarrow> string list" where
  "usage_range fmt2 ord =
     (let listed = Map_Range (ord 2 scoreMap) (\<lambda>out subject score. (out @ [score_line (subject, score)], True)) [];
          (totalScore, subjectCount) =
            Map_Range (ord 3 scoreMap) (\<lambda>(t, c) subject score. ((wrap64 (t + score), wrap64 (c + 1)), True)) (0, 0);
          first = Map_Range (ord 4 scoreMap)
            (\<lambda>out subject score. if 90 \<le> score then (out @ [''  Found: '' @ subject @ '' ('' @ itoa score @ '')''], False) else (out, True)) [];
          high = Map_Range (ord 5 scoreMap)
            (\<lambda>out subject score. (if 90 \<le> score then out @ [score_line (subject, score)] else out, True)) []
      in [[], ''=== Range method demo ==='', ''All subject scores:''] @ listed
         @ (if 0 < subjectCount
            then [''Total: '' @ itoa totalScore @ '', Average: '' @ fmt2 (fdiv (float_of_int totalScore) (float_of_int subjectCount))] else [])
         @ [''First subject with score >= 90:''] @ first
         @ [''Subjects with score >= 90:''] @ high)"

definition found_line :: "string \<Rightarrow> string list \<Rightarrow> (string \<times> int) option \<Rightarrow> string list" where
  "found_line label none found =
     (case found of None \<Rightarrow> none | Some (name, score) \<Rightarrow> [label @ name @ '' ('' @ itoa score @ '')''])"

definition usage_find :: "(nat \<Rightarrow> (string \<times> int) list \<Rightarrow> (string \<times> int) list) \<Rightarrow> string list" where
  "usage_find ord =
     (let maxScore = Map_Range (ord 8 scoreMap) (\<lambda>maxScore n s. (if maxScore < s then s else maxScore, True)) 0
      in [[], ''=== Find method demo ==='', ''Find first student with score >= 90:'']
         @ found_line ''  Found: '' [''  No student found with score >= 90''] (Map_Find (ord 6 scoreMap) (\<lambda>n s. 90 \<le> s))
         @ [[], ''Find score for student '' @ quoted ''Alice'' @ '':'']
         @ (case Map_Find (ord 7 scoreMap) (\<lambda>n s. n = ''Alice'') of
              None \<Rightarrow> [''  Student Alice not found''] | Some (name, score) \<Rightarrow> [score_line (name, score)])
         @ [[], ''Find student with highest score:'']
         @ found_line ''  Highest score: '' [] (Map_Find (ord 9 scoreMap) (\<lambda>n s. s = maxScore)))"

definition students_found :: "string \<Rightarrow> string list \<Rightarrow> int KeyValue list \<Rightarrow> string list" where
  "students_found label none students =
     (if students \<noteq> []
      then (''  Found '' @ itoa (int (length students)) @ label) # map (\<lambda>kv. ''    '' @ Key kv @ '': '' @ itoa (Value kv)) students
      else none)"

definition usage_findall :: "(nat \<Rightarrow> (string \<times> int) list \<Rightarrow> (string \<times> int) list) \<Rightarrow> string list" where
  "usage_findall ord =
     (let excellent = Map_FindAll (ord 12 scoreMap) (\<lambda>n s. 90 \<le> s);
          good = Map_FindAll (ord 13 scoreMap) (\<lambda>n s. 80 \<le> s \<and> s < 90);
          average = Map_FindAll (ord 14 scoreMap) (\<lambda>n s. 70 \<le> s \<and> s < 80);
          poor = Map_FindAll (ord 15 scoreMap) (\<lambda>n s. s < 70)
      in [[], ''=== FindAll method demo ==='', ''Find all students with score >= 90:'']
         @ students_found '' high score students:'' [''  No student found with score >= 90''] (Map_FindAll (ord 10 scoreMap) (\<lambda>n s. 90 \<le> s))
         @ [[], ''Find all students with score 80-89:'']
         @ students_found '' good score students:'' [''  No student found with score 80-89'']
             (Map_FindAll (ord 11 scoreMap) (\<lambda>n s. 80 \<le> s \<and> s < 90))
         @ [[], ''Count students in different score ranges:'',
            ''  Excellent (90+): '' @ itoa (int (length excellent)), ''  Good (80-89): '' @ itoa (int (length good)),
            ''  Average (70-79): '' @ itoa (int (length average)), ''  Need improvement (<70): '' @ itoa (int (length poor))])"

definition ExampleUsage :: "(float64 \<Rightarrow> string) \<Rightarrow> (nat \<Rightarrow> (string \<times> int) list \<Rightarrow> (string \<times> int) list) \<Rightarrow> string list" where
  "ExampleUsage fmt2 ord = usage_basics ord @ usage_range fmt2 ord @ usage_find ord @ usage_findall ord"

text \<open>What the four scores give in every order.\<close>

lemma scores: "scoreMap = [(''math'', 95), (''english'', 88), (''physics'', 92), (''chemistry'', 90)]"
  by (simp add: scoreMap_def Map_Put_def NewMap_def)

lemma fold_any_order:
  assumes "loop_orders ord" and "\<And>x y. f x \<circ> f y = f y \<circ> f x"
  shows "fold f (ord n m) = fold f m"
  using assms by (intro fold_multiset_equiv) (simp_all add: loop_orders_def)

lemma count_any_order:
  assumes "loop_orders ord"
  shows "length (Map_FindAll (ord n m) p) = length (filter (\<lambda>(k, v). p k v) m)"
proof -
  have "mset (filter (\<lambda>(k, v). p k v) (ord n m)) = mset (filter (\<lambda>(k, v). p k v) m)"
    using assms by (simp add: loop_orders_def)
  then show ?thesis by (metis Map_FindAll_eq length_map mset_eq_length)
qed

lemma wrap64_add: "wrap64 (wrap64 a + b) = wrap64 (a + b)" "wrap64 (b + wrap64 a) = wrap64 (a + b)"
  unfolding wrap64_def using mod_add_left_eq [of "a + 2 ^ 63" "2 ^ 64 :: int" b] by (simp_all add: algebra_simps)

lemma sum_any_order:
  assumes "loop_orders ord"
  shows "Map_Range (ord n scoreMap) (\<lambda>(t, c) subject score. ((wrap64 (t + score), wrap64 (c + 1)), True)) (0, 0) = (365, 4)"
proof -
  let ?f = "\<lambda>(k :: string, v) (t, c). (wrap64 (t + v), wrap64 (c + 1))"
  have "Map_Range (ord n scoreMap) (\<lambda>(t, c) subject score. ((wrap64 (t + score), wrap64 (c + 1)), True)) (0, 0)
      = fold ?f (ord n scoreMap) (0, 0)"
    by (subst Map_Range_all) (auto simp: case_prod_unfold)
  also have "\<dots> = fold ?f scoreMap (0, 0)"
    by (subst fold_any_order [OF assms]) (auto simp: fun_eq_iff wrap64_add ac_simps)
  also have "\<dots> = (365, 4)" by (simp add: scores in_int64_bounds)
  finally show ?thesis .
qed

lemma max_any_order:
  assumes "loop_orders ord"
  shows "Map_Range (ord n scoreMap) (\<lambda>maxScore m s. (if maxScore < s then s else maxScore, True)) 0 = 95"
proof -
  let ?f = "\<lambda>(k :: string, v) s. if s < v then v else s"
  have "Map_Range (ord n scoreMap) (\<lambda>maxScore m s. (if maxScore < s then s else maxScore, True)) 0 = fold ?f (ord n scoreMap) 0"
    by (subst Map_Range_all) (simp_all add: case_prod_unfold)
  also have "\<dots> = fold ?f scoreMap 0"
    by (subst fold_any_order [OF assms]) (auto simp: fun_eq_iff)
  finally show ?thesis by (simp add: scores)
qed

lemma find_any_order:
  assumes "loop_orders ord" and "filter (\<lambda>(k, v). p k v) m = [(a, b)]"
  shows "Map_Find (ord n m) p = Some (a, b)"
proof -
  have same: "set (ord n m) = set m" using assms(1) unfolding loop_orders_def by (metis set_mset_mset)
  have "(a, b) \<in> set (filter (\<lambda>(k, v). p k v) m)" unfolding assms(2) by simp
  then have "Map_Find (ord n m) p \<noteq> None" unfolding Map_Find_None same by auto
  then obtain k v where found: "Map_Find (ord n m) p = Some (k, v)" by auto
  from Map_Find_Some [OF found] have "(k, v) \<in> set (filter (\<lambda>(k, v). p k v) m)" unfolding same by simp
  with found assms(2) show ?thesis by simp
qed

lemma regroup: "u @ (a @ t @ b) @ (c @ f) @ (d @ g) = (u @ a) @ t @ (b @ c) @ f @ d @ g"
  by simp

text \<open>
  The map example: the sum, the average, the best subject and the counts are the same in every order of the iteration.
\<close>

theorem map_example:
  assumes "loop_orders ord"
  shows "\<exists>before between after.
     ExampleUsage fmt2 ord = before
       @ [''Total: 365, Average: '' @ fmt2 (fdiv (float_of_int 365) (float_of_int 4))] @ between
       @ [''  Student Alice not found'', [], ''Find student with highest score:'', ''  Highest score: math (95)''] @ after
       @ [''Count students in different score ranges:'', ''  Excellent (90+): 3'', ''  Good (80-89): 1'',
          ''  Average (70-79): 0'', ''  Need improvement (<70): 0'']"
proof -
  have alice: "Map_Find (ord 7 scoreMap) (\<lambda>n s. n = ''Alice'') = None"
  proof -
    have "set (ord 7 scoreMap) = set scoreMap" using assms unfolding loop_orders_def by (metis set_mset_mset)
    then show ?thesis unfolding Map_Find_None by (simp add: scores)
  qed
  have best: "Map_Find (ord 9 scoreMap) (\<lambda>n s. s = 95) = Some (''math'', 95)"
    by (rule find_any_order [OF assms]) (simp add: scores)
  have "\<exists>a b. h @ l @ (if 0 < (4 :: int) then [''Total: '' @ itoa 365 @ '', Average: '' @ z] else []) @ r
      = a @ [''Total: 365, Average: '' @ z] @ b" for h l r z
    by (intro exI [of _ "h @ l"] exI [of _ r]) (simp add: itoa_examples)
  then obtain a b where range: "usage_range fmt2 ord = a @ [''Total: 365, Average: '' @ fmt2 (fdiv (float_of_int 365) (float_of_int 4))] @ b"
    unfolding usage_range_def sum_any_order [OF assms] Let_def prod.case by blast
  have find: "usage_find ord = ([[], ''=== Find method demo ==='', ''Find first student with score >= 90:'']
        @ found_line ''  Found: '' [''  No student found with score >= 90''] (Map_Find (ord 6 scoreMap) (\<lambda>n s. 90 \<le> s))
        @ [[], ''Find score for student '' @ quoted ''Alice'' @ '':''])
      @ [''  Student Alice not found'', [], ''Find student with highest score:'', ''  Highest score: math (95)'']"
    unfolding usage_find_def max_any_order [OF assms] alice best Let_def
    by (simp only: found_line_def option.case prod.case itoa_examples append.simps append_assoc)
  have findall: "usage_findall ord = ([[], ''=== FindAll method demo ==='', ''Find all students with score >= 90:'']
        @ students_found '' high score students:'' [''  No student found with score >= 90''] (Map_FindAll (ord 10 scoreMap) (\<lambda>n s. 90 \<le> s))
        @ [[], ''Find all students with score 80-89:'']
        @ students_found '' good score students:'' [''  No student found with score 80-89'']
            (Map_FindAll (ord 11 scoreMap) (\<lambda>n s. 80 \<le> s \<and> s < 90)) @ [[]])
      @ [''Count students in different score ranges:'', ''  Excellent (90+): 3'', ''  Good (80-89): 1'',
         ''  Average (70-79): 0'', ''  Need improvement (<70): 0'']"
    unfolding usage_findall_def count_any_order [OF assms] Let_def by (simp add: scores itoa_examples)
  show ?thesis unfolding ExampleUsage_def range find findall by (intro exI) (rule regroup)
qed

theorem map_example_witness:
  "loop_orders (\<lambda>n :: nat. rev :: (string \<times> int) list \<Rightarrow> _)
   \<and> last (ExampleUsage (\<lambda>x. []) (\<lambda>n. rev)) = ''  Need improvement (<70): 0''"
proof -
  have "loop_orders (\<lambda>n :: nat. rev :: (string \<times> int) list \<Rightarrow> _)" by (simp add: loop_orders_def)
  with map_example [OF this, of "\<lambda>x. []"] show ?thesis by auto
qed

end
